(* ===== verification/Prelude.thy ===== *)
theory Prelude
  imports Main "HOL-Library.Code_Target_Nat"
begin

text \<open>
  The shared prelude of the development: computations that may throw, and the few generic facts on
  lists and options that several components use.

  A TypeScript function that may throw is a function into \<open>'e + 'a\<close>: \<open>Inl\<close> carries the exception,
  \<open>Inr\<close> the result. \<open>bindR\<close> is the sequencing that an exception cuts short; its congruence rule lets
  recursive functions be defined through it.
\<close>

named_theorems js_eval \<open>defining equations used to evaluate the model on concrete inputs\<close>

section \<open>Computations that may throw\<close>

definition bindR :: "'e + 'a \<Rightarrow> ('a \<Rightarrow> 'e + 'b) \<Rightarrow> 'e + 'b" where
  "bindR m f = (case m of Inl e \<Rightarrow> Inl e | Inr x \<Rightarrow> f x)"

lemma bindR_simps [simp, js_eval]:
  "bindR (Inl e) f = Inl e"
  "bindR (Inr x) f = f x"
  by (simp_all add: bindR_def)

lemma bindR_cong [fundef_cong]:
  assumes "m = m'" and "\<And>x. m' = Inr x \<Longrightarrow> f x = f' x"
  shows "bindR m f = bindR m' f'"
  using assms by (cases m') (simp_all add: bindR_def)

lemma bindR_eq_Inr: "bindR m f = Inr y \<longleftrightarrow> (\<exists>x. m = Inr x \<and> f x = Inr y)"
  by (cases m) simp_all

lemma bindR_eq_Inl: "bindR m f = Inl e \<longleftrightarrow> m = Inl e \<or> (\<exists>x. m = Inr x \<and> f x = Inl e)"
  by (cases m) simp_all

lemma bindR_InrE [elim]:
  assumes "bindR m f = Inr y"
  obtains x where "m = Inr x" and "f x = Inr y"
  using assms by (auto simp: bindR_eq_Inr)

lemma bindR_pairE:
  assumes "bindR m (\<lambda>(x, y). f x y) = Inr z"
  obtains x y where "m = Inr (x, y)" and "f x y = Inr z"
  using assms by (auto simp: bindR_eq_Inr)

lemma bindR_tripleE:
  assumes "bindR m (\<lambda>(x, y, w). f x y w) = Inr z"
  obtains x y w where "m = Inr (x, y, w)" and "f x y w = Inr z"
  using assms by (auto simp: bindR_eq_Inr)

lemma bindR_assoc: "bindR (bindR m f) g = bindR m (\<lambda>x. bindR (f x) g)"
  by (cases m) simp_all

lemma bindR_map_sum: "bindR (map_sum id h m) f = bindR m (\<lambda>x. f (h x))"
  by (cases m) simp_all

text \<open>Running an action over a list from left to right, as a \<open>for ... of\<close> loop whose body may throw.\<close>

fun foldR :: "('a \<Rightarrow> 's \<Rightarrow> 'e + 's) \<Rightarrow> 'a list \<Rightarrow> 's \<Rightarrow> 'e + 's" where
  "foldR f [] s = Inr s"
| "foldR f (x # xs) s = bindR (f x s) (foldR f xs)"

lemma foldR_append: "foldR f (xs @ ys) s = bindR (foldR f xs s) (foldR f ys)"
proof (induction xs arbitrary: s)
  case Nil
  then show ?case by simp
next
  case (Cons x xs)
  then have "foldR f (xs @ ys) = (\<lambda>s. bindR (foldR f xs s) (foldR f ys))" by (simp add: fun_eq_iff)
  then show ?case by (simp add: bindR_assoc)
qed

fun mapR :: "('a \<Rightarrow> 'e + 'b) \<Rightarrow> 'a list \<Rightarrow> 'e + 'b list" where
  "mapR f [] = Inr []"
| "mapR f (x # xs) = bindR (f x) (\<lambda>y. bindR (mapR f xs) (\<lambda>ys. Inr (y # ys)))"

lemma mapR_cong [fundef_cong]:
  assumes "xs = ys" and "\<And>x. x \<in> set ys \<Longrightarrow> f x = g x"
  shows "mapR f xs = mapR g ys"
proof -
  have "\<forall>x \<in> set ys. f x = g x \<Longrightarrow> mapR f ys = mapR g ys" for ys
    by (induction ys) simp_all
  then show ?thesis using assms by simp
qed

text \<open>The same for a function that gives up with \<open>null\<close>.\<close>

fun mapO :: "('a \<Rightarrow> 'b option) \<Rightarrow> 'a list \<Rightarrow> 'b list option" where
  "mapO f [] = Some []"
| "mapO f (x # xs) =
     (case f x of None \<Rightarrow> None
      | Some y \<Rightarrow> (case mapO f xs of None \<Rightarrow> None | Some ys \<Rightarrow> Some (y # ys)))"

lemma mapO_cong [fundef_cong]:
  assumes "xs = ys" and "\<And>x. x \<in> set ys \<Longrightarrow> f x = g x"
  shows "mapO f xs = mapO g ys"
proof -
  have "\<forall>x \<in> set ys. f x = g x \<Longrightarrow> mapO f ys = mapO g ys" for ys
    by (induction ys) (auto split: option.splits)
  then show ?thesis using assms by simp
qed

lemma mapO_eq_Some: "mapO f xs = Some ys \<longleftrightarrow> map f xs = map Some ys"
proof (induction xs arbitrary: ys)
  case Nil
  then show ?case by auto
next
  case (Cons x xs)
  show ?case
  proof (cases "mapO f xs")
    case None
    then have "map f xs \<noteq> map Some zs" for zs using Cons.IH [of zs] by simp
    with None show ?thesis by (cases ys) (auto split: option.splits)
  next
    case (Some zs)
    then have "map f xs = map Some zs" using Cons.IH by simp
    with Some show ?thesis by (cases ys) (auto split: option.splits simp: inj_map_eq_map)
  qed
qed

lemma mapO_length: "mapO f xs = Some ys \<Longrightarrow> length ys = length xs"
  by (drule mapO_eq_Some [THEN iffD1]) (metis length_map)

text \<open>
  Every exception of a computation satisfies a predicate. The rules of the collection \<open>errs_intros\<close>
  follow the structure of the computation.
\<close>

definition errs :: "('e \<Rightarrow> bool) \<Rightarrow> 'e + 'a \<Rightarrow> bool" where
  "errs P m \<longleftrightarrow> (\<forall>e. m = Inl e \<longrightarrow> P e)"

lemma errs_Inl [simp]: "errs P (Inl e) = P e"
  and errs_Inr [simp]: "errs P (Inr x)"
  by (simp_all add: errs_def)

lemma errs_bind: "errs P m \<Longrightarrow> (\<And>x. m = Inr x \<Longrightarrow> errs P (f x)) \<Longrightarrow> errs P (bindR m f)"
  by (cases m) (simp_all add: errs_def)

lemma errs_if: "(b \<Longrightarrow> errs P x) \<Longrightarrow> (\<not> b \<Longrightarrow> errs P y) \<Longrightarrow> errs P (if b then x else y)"
  by simp

lemma errs_prod: "(\<And>a b. p = (a, b) \<Longrightarrow> errs P (f a b)) \<Longrightarrow> errs P (case p of (a, b) \<Rightarrow> f a b)"
  by (cases p) simp

lemma errs_option:
  "(v = None \<Longrightarrow> errs P x) \<Longrightarrow> (\<And>a. v = Some a \<Longrightarrow> errs P (f a)) \<Longrightarrow>
     errs P (case v of None \<Rightarrow> x | Some a \<Rightarrow> f a)"
  by (cases v) simp_all

lemma errs_list:
  "(v = [] \<Longrightarrow> errs P x) \<Longrightarrow> (\<And>a as. v = a # as \<Longrightarrow> errs P (f a as)) \<Longrightarrow>
     errs P (case v of [] \<Rightarrow> x | a # as \<Rightarrow> f a as)"
  by (cases v) simp_all

lemma errs_Let: "(\<And>v. v = x \<Longrightarrow> errs P (f v)) \<Longrightarrow> errs P (Let x f)"
  by simp

lemmas errs_intros = errs_bind errs_if errs_prod errs_option errs_list errs_Let

lemma errs_foldR: "(\<And>x s. x \<in> set xs \<Longrightarrow> errs P (f x s)) \<Longrightarrow> errs P (foldR f xs s)"
  by (induction xs arbitrary: s) (auto intro: errs_bind)

lemma errs_mapR: "(\<And>x. x \<in> set xs \<Longrightarrow> errs P (f x)) \<Longrightarrow> errs P (mapR f xs)"
  by (induction xs) (auto intro!: errs_bind)

lemma errs_weaken: "errs P m \<Longrightarrow> (\<And>e. P e \<Longrightarrow> Q e) \<Longrightarrow> errs Q m"
  by (simp add: errs_def)

section \<open>Lists\<close>

text \<open>The first index of an element satisfying a test, as \<open>Array.prototype.findIndex\<close>.\<close>

fun find_index :: "('a \<Rightarrow> bool) \<Rightarrow> 'a list \<Rightarrow> nat option" where
  "find_index P [] = None"
| "find_index P (x # xs) = (if P x then Some 0 else map_option Suc (find_index P xs))"

lemma find_index_Some:
  "find_index P xs = Some i \<Longrightarrow> i < length xs \<and> P (xs ! i) \<and> (\<forall>j < i. \<not> P (xs ! j))"
proof (induction xs arbitrary: i)
  case Nil
  then show ?case by simp
next
  case (Cons x xs)
  show ?case
  proof (cases "P x")
    case True
    with Cons.prems show ?thesis by simp
  next
    case False
    with Cons.prems obtain k where k: "find_index P xs = Some k" "i = Suc k" by auto
    from Cons.IH [OF k(1)] False k(2) show ?thesis
      by (auto simp: nth_Cons split: nat.splits)
  qed
qed

lemma find_index_None: "find_index P xs = None \<longleftrightarrow> (\<forall>x \<in> set xs. \<not> P x)"
  by (induction xs) simp_all

lemma drop_nonempty_less: "drop n xs \<noteq> [] \<Longrightarrow> n < length xs"
  by (rule ccontr) simp

lemma drop_eq_Cons: "drop n xs = y # ys \<Longrightarrow> n < length xs \<and> xs ! n = y \<and> drop (Suc n) xs = ys"
  by (metis Cons_nth_drop_Suc drop_nonempty_less list.distinct(1) list.inject)

lemma length_takeWhile_drop: "n + length (takeWhile P (drop n xs)) \<le> length xs \<or> length xs < n"
  by (metis (no_types, lifting) add_le_cancel_left length_drop length_takeWhile_le le_add_diff_inverse
      not_le)

end
