(* ===== verification/JS_String.thy ===== *)
theory JS_String
  imports Prelude "HOL-Library.List_Lexorder"
begin

text \<open>
  The JavaScript strings the program works on: sequences of UTF-16 code units, here lists of
  integers in \<open>0..65535\<close>. \<open>js ''abc''\<close> writes a literal. The order \<open><\<close> on strings is the library's
  lexicographic order on lists, which is how JavaScript compares two strings (by code units).
  The operations are the ones of \<open>String.prototype\<close> and of the regular-expression classes
  (\<open>\s\<close>, \<open>\d\<close>, \<open>\w\<close>) that the source uses.
\<close>

type_synonym code_unit = int
type_synonym jsstr = "code_unit list"

abbreviation js :: "string \<Rightarrow> jsstr" where
  "js s \<equiv> map of_char s"

section \<open>Character classes\<close>

text \<open>\<open>WhiteSpace\<close> and \<open>LineTerminator\<close> of the language, the class of \<open>\s\<close> and of \<open>trim\<close>.\<close>

definition is_space :: "code_unit \<Rightarrow> bool" where
  "is_space c \<longleftrightarrow> c = 32 \<or> (9 \<le> c \<and> c \<le> 13) \<or> c = 160 \<or> c = 5760 \<or> (8192 \<le> c \<and> c \<le> 8202)
     \<or> c = 8232 \<or> c = 8233 \<or> c = 8239 \<or> c = 8287 \<or> c = 12288 \<or> c = 65279"

definition is_digit :: "code_unit \<Rightarrow> bool" where
  "is_digit c \<longleftrightarrow> 48 \<le> c \<and> c \<le> 57"

definition is_upper :: "code_unit \<Rightarrow> bool" where
  "is_upper c \<longleftrightarrow> 65 \<le> c \<and> c \<le> 90"

definition is_lower :: "code_unit \<Rightarrow> bool" where
  "is_lower c \<longleftrightarrow> 97 \<le> c \<and> c \<le> 122"

text \<open>\<open>[A-Za-z_]\<close> and \<open>\w\<close>.\<close>

definition is_name_start :: "code_unit \<Rightarrow> bool" where
  "is_name_start c \<longleftrightarrow> is_upper c \<or> is_lower c \<or> c = 95"

definition is_word :: "code_unit \<Rightarrow> bool" where
  "is_word c \<longleftrightarrow> is_name_start c \<or> is_digit c"

definition is_hex :: "code_unit \<Rightarrow> bool" where
  "is_hex c \<longleftrightarrow> is_digit c \<or> (65 \<le> c \<and> c \<le> 70) \<or> (97 \<le> c \<and> c \<le> 102)"

definition hex_val :: "code_unit \<Rightarrow> int" where
  "hex_val c = (if is_digit c then c - 48 else if c \<le> 70 then c - 55 else c - 87)"

text \<open>\<open>Number.parseInt(hex, 16)\<close> on a string of hexadecimal digits.\<close>

definition parse_hex :: "jsstr \<Rightarrow> int" where
  "parse_hex cs = foldl (\<lambda>acc c. acc * 16 + hex_val c) 0 cs"

lemmas char_class_defs = is_space_def is_digit_def is_upper_def is_lower_def is_name_start_def
  is_word_def is_hex_def

lemma digit_not_space [simp]: "is_digit c \<Longrightarrow> \<not> is_space c"
  by (auto simp: char_class_defs)

lemma name_start_not_space [simp]: "is_name_start c \<Longrightarrow> \<not> is_space c"
  by (auto simp: char_class_defs)

lemma name_start_not_digit [simp]: "is_name_start c \<Longrightarrow> \<not> is_digit c"
  by (auto simp: char_class_defs)

section \<open>Operations on strings\<close>

text \<open>\<open>s.slice(a, b)\<close> for indices that are not negative.\<close>

definition slice :: "jsstr \<Rightarrow> nat \<Rightarrow> nat \<Rightarrow> jsstr" where
  "slice s a b = take (b - a) (drop a s)"

definition trim_start :: "jsstr \<Rightarrow> jsstr" where
  "trim_start s = dropWhile is_space s"

definition trim_end :: "jsstr \<Rightarrow> jsstr" where
  "trim_end s = rev (dropWhile is_space (rev s))"

definition trim :: "jsstr \<Rightarrow> jsstr" where
  "trim s = trim_end (trim_start s)"

definition starts_with :: "jsstr \<Rightarrow> jsstr \<Rightarrow> bool" where
  "starts_with s p \<longleftrightarrow> take (length p) s = p"

definition ends_with :: "jsstr \<Rightarrow> jsstr \<Rightarrow> bool" where
  "ends_with s p \<longleftrightarrow> starts_with (rev s) (rev p)"

text \<open>\<open>s.includes(p)\<close>.\<close>

fun js_includes :: "jsstr \<Rightarrow> jsstr \<Rightarrow> bool" where
  "js_includes [] p = (p = [])"
| "js_includes (c # cs) p = (starts_with (c # cs) p \<or> js_includes cs p)"

text \<open>\<open>parts.join(sep)\<close>.\<close>

fun join :: "jsstr \<Rightarrow> jsstr list \<Rightarrow> jsstr" where
  "join sep [] = []"
| "join sep [x] = x"
| "join sep (x # y # zs) = x @ sep @ join sep (y # zs)"

lemma slice_all [simp]: "slice s 0 (length s) = s"
  by (simp add: slice_def)

lemma length_slice: "b \<le> length s \<Longrightarrow> length (slice s a b) = b - a"
  by (simp add: slice_def)

lemma slice_append:
  assumes "a \<le> b" "b \<le> c"
  shows "slice s a b @ slice s b c = slice s a c"
proof -
  have "drop b s = drop (b - a) (drop a s)" using assms by simp
  then show ?thesis
    using assms by (simp add: slice_def take_add [symmetric] del: drop_drop)
qed

lemma slice_slice:
  assumes "a \<le> c" "d \<le> b"
  shows "slice (slice s a b) (c - a) (d - a) = slice s c d"
proof -
  have "slice (slice s a b) (c - a) (d - a) = take (d - a - (c - a)) (take (b - a - (c - a)) (drop c s))"
    using assms(1) by (simp add: slice_def drop_take)
  also have "\<dots> = take (d - c) (drop c s)"
    using assms by (simp add: min_def)
  finally show ?thesis by (simp add: slice_def)
qed

lemma starts_with_iff: "starts_with s p \<longleftrightarrow> (\<exists>t. s = p @ t)"
  unfolding starts_with_def by (metis append_eq_conv_conj)

lemma includes_iff: "js_includes s p \<longleftrightarrow> (\<exists>u v. s = u @ p @ v)"
proof (induction s)
  case Nil
  then show ?case by auto
next
  case (Cons c cs)
  show ?case
  proof
    assume "js_includes (c # cs) p"
    then consider "starts_with (c # cs) p" | "js_includes cs p" by auto
    then show "\<exists>u v. c # cs = u @ p @ v"
    proof cases
      case 1
      then show ?thesis by (metis append_Nil starts_with_iff)
    next
      case 2
      with Cons.IH show ?thesis by (metis append_Cons)
    qed
  next
    assume "\<exists>u v. c # cs = u @ p @ v"
    then obtain u v where "c # cs = u @ p @ v" by blast
    then show "js_includes (c # cs) p"
    proof (cases u)
      case Nil
      with \<open>c # cs = u @ p @ v\<close> have "starts_with (c # cs) p" by (simp add: starts_with_iff)
      then show ?thesis by simp
    next
      case (Cons d ds)
      with \<open>c # cs = u @ p @ v\<close> have "cs = ds @ p @ v" by simp
      then have "js_includes cs p" using Cons.IH by blast
      then show ?thesis by simp
    qed
  qed
qed

text \<open>\<open>trim\<close> removes white space at both ends and nothing else.\<close>

lemma trim_decomp: "\<exists>u v. s = u @ trim s @ v \<and> list_all is_space u \<and> list_all is_space v"
proof -
  let ?t = "trim_start s"
  have a: "s = takeWhile is_space s @ ?t" by (simp add: trim_start_def)
  have b: "?t = trim_end ?t @ rev (takeWhile is_space (rev ?t))"
    by (metis rev_append rev_rev_ident takeWhile_dropWhile_id trim_end_def)
  have "list_all is_space (takeWhile is_space s)"
    by (auto simp: list_all_iff dest: set_takeWhileD)
  moreover have "list_all is_space (rev (takeWhile is_space (rev ?t)))"
    by (auto simp: list_all_iff dest: set_takeWhileD)
  ultimately show ?thesis using a b unfolding trim_def by (metis append_assoc)
qed

lemma trim_start_Cons_nonspace: "\<not> is_space c \<Longrightarrow> trim_start (c # cs) = c # cs"
  by (simp add: trim_start_def)

lemma trim_end_nonspace: "s \<noteq> [] \<Longrightarrow> \<not> is_space (last s) \<Longrightarrow> trim_end s = s"
  by (cases s rule: rev_cases) (simp_all add: trim_end_def)

lemma trim_end_ends: "trim_end s = [] \<or> \<not> is_space (last (trim_end s))"
proof (cases "dropWhile is_space (rev s)")
  case Nil
  then show ?thesis by (simp add: trim_end_def)
next
  case (Cons x xs)
  then have "\<not> is_space x" by (metis dropWhile_eq_Cons_conv)
  with Cons show ?thesis by (simp add: trim_end_def)
qed

lemma trim_starts: "trim s = [] \<or> \<not> is_space (hd (trim s))"
proof (cases "trim s")
  case Nil
  then show ?thesis by simp
next
  case (Cons c cs)
  have pre: "\<exists>v. trim_start s = trim s @ v"
    unfolding trim_def trim_end_def
    by (metis rev_append rev_rev_ident takeWhile_dropWhile_id)
  with Cons obtain v where "dropWhile is_space s = c # cs @ v" by (auto simp: trim_start_def)
  then have "\<not> is_space c" by (metis dropWhile_eq_Cons_conv)
  with Cons show ?thesis by simp
qed

lemma trim_idem [simp]: "trim (trim s) = trim s"
proof (cases "trim s = []")
  case True
  have "trim [] = []" by (simp add: trim_def trim_start_def trim_end_def)
  with True show ?thesis by simp
next
  case False
  then have "\<not> is_space (hd (trim s))" using trim_starts by blast
  then have "trim_start (trim s) = trim s"
    using False by (metis list.collapse trim_start_Cons_nonspace)
  moreover have "trim_end (trim s) = trim s"
    using False trim_end_ends trim_end_nonspace by (metis trim_def)
  ultimately show ?thesis by (simp add: trim_def)
qed

lemma trim_id: "s = [] \<or> (\<not> is_space (hd s) \<and> \<not> is_space (last s)) \<Longrightarrow> trim s = s"
proof (cases "s = []")
  case True
  then show ?thesis by (simp add: trim_def trim_start_def trim_end_def)
next
  case False
  assume "s = [] \<or> (\<not> is_space (hd s) \<and> \<not> is_space (last s))"
  with False have "trim_start s = s" "trim_end s = s"
    by (simp_all add: trim_end_nonspace) (metis list.collapse trim_start_Cons_nonspace)
  then show ?thesis by (simp add: trim_def)
qed

lemmas [js_eval] = slice_def trim_def trim_start_def trim_end_def starts_with_def ends_with_def
  char_class_defs hex_val_def parse_hex_def

end
