(* ===== verification/JS_Number.thy ===== *)
theory JS_Number
  imports JS_String Complex_Main "HOL-Library.Log_Nat"
begin

text \<open>
  The JavaScript number type: IEEE 754 double precision with round to nearest, ties to even. A finite
  number is a sign and a rational magnitude, so that \<open>-0\<close> and \<open>+0\<close> are different values that compare
  equal. Every arithmetic result is the exact rational result rounded by \<open>dround\<close>; overflow gives an
  infinity. The theory shows that rounding is monotone, idempotent, and exact on integers up to
  \<open>2^53\<close>, which is what the safe-integer checks of the program rely on.
\<close>

section \<open>Rounding a rational to a double\<close>

text \<open>Round half to even.\<close>

definition rne :: "rat \<Rightarrow> int" where
  "rne q = (let f = \<lfloor>q\<rfloor>; d = q - of_int f
            in if d < 1/2 then f else if 1/2 < d then f + 1 else if even f then f else f + 1)"

text \<open>The binary exponent of a positive rational: \<open>2 powi flog2 q \<le> q < 2 powi (flog2 q + 1)\<close>.\<close>

definition flog2 :: "rat \<Rightarrow> int" where
  "flog2 q = (let (a, b) = quotient_of q; k = bitlen a - bitlen b
              in if 2 powi k \<le> q then k else k - 1)"

text \<open>The exponent of the last place, with the subnormal range cut off at \<open>2 powi -1074\<close>.\<close>

definition dexp :: "rat \<Rightarrow> int" where
  "dexp q = max (flog2 q) (-1022) - 52"

definition dround :: "rat \<Rightarrow> rat" where
  "dround q = (if q = 0 then 0 else of_int (rne (q / 2 powi dexp q)) * 2 powi dexp q)"

lemma rne_of_int [simp]: "rne (of_int n) = n"
  by (simp add: rne_def)

lemma rne_bounds: "\<lfloor>q\<rfloor> \<le> rne q \<and> rne q \<le> \<lfloor>q\<rfloor> + 1"
  by (simp add: rne_def Let_def)

lemma rne_mono: "q \<le> r \<Longrightarrow> rne q \<le> rne r"
proof -
  assume le: "q \<le> r"
  show ?thesis
  proof (cases "\<lfloor>q\<rfloor> = \<lfloor>r\<rfloor>")
    case True
    then show ?thesis using le by (simp add: rne_def Let_def)
  next
    case False
    then have "\<lfloor>q\<rfloor> + 1 \<le> \<lfloor>r\<rfloor>" using floor_mono [OF le] by linarith
    then show ?thesis using rne_bounds [of q] rne_bounds [of r] by linarith
  qed
qed

lemma rne_nonneg: "0 \<le> q \<Longrightarrow> 0 \<le> rne q"
  using rne_mono [of 0 q] rne_of_int [of 0] by simp

lemma powi_mono_rat: "(2::rat) powi a \<le> 2 powi b \<longleftrightarrow> a \<le> b"
  by (meson linorder_not_le one_le_numeral one_less_numeral_iff power_int_increasing
      power_int_strict_increasing semiring_norm(76))

lemma flog2_spec:
  assumes "0 < q"
  shows "2 powi flog2 q \<le> q" and "q < 2 powi (flog2 q + 1)"
proof -
  obtain a b where ab: "quotient_of q = (a, b)" by (cases "quotient_of q")
  from quotient_of_denom_pos [OF ab] have b: "0 < b" .
  have q: "q = of_int a / of_int b" using quotient_of_div [OF ab] .
  with assms b have a: "0 < a" by (simp add: zero_less_divide_iff)
  define k where "k = bitlen a - bitlen b"
  have A: "2 ^ nat (bitlen a - 1) \<le> a" "a < 2 ^ nat (bitlen a)"
    using bitlen_bounds [OF a] by auto
  have B: "2 ^ nat (bitlen b - 1) \<le> b" "b < 2 ^ nat (bitlen b)"
    using bitlen_bounds [OF b] by auto
  have posa: "0 < bitlen a" and posb: "0 < bitlen b"
    using a b by (simp_all add: bitlen_eq_zero_iff bitlen_nonneg less_le)
  have ra: "(2::rat) powi (bitlen a - 1) \<le> of_int a" "of_int a < (2::rat) powi bitlen a"
    using A posa of_int_le_iff [of "2 ^ nat (bitlen a - 1)" a, where 'a = rat]
      of_int_less_iff [of a "2 ^ nat (bitlen a)", where 'a = rat]
    by (simp_all add: power_int_def)
  have rb: "(2::rat) powi (bitlen b - 1) \<le> of_int b" "of_int b < (2::rat) powi bitlen b"
    using B posb of_int_le_iff [of "2 ^ nat (bitlen b - 1)" b, where 'a = rat]
      of_int_less_iff [of b "2 ^ nat (bitlen b)", where 'a = rat]
    by (simp_all add: power_int_def)
  have lower: "2 powi (k - 1) \<le> q"
  proof -
    have "2 powi (k - 1) = (2::rat) powi (bitlen a - 1) / 2 powi bitlen b"
      by (simp add: k_def power_int_diff)
    also have "\<dots> \<le> of_int a / of_int b"
      using ra(1) rb a b by (intro frac_le) simp_all
    finally show ?thesis using q by simp
  qed
  have upper: "q < 2 powi (k + 1)"
  proof -
    have "q < 2 powi bitlen a / of_int b"
      using ra(2) b q by (simp add: divide_strict_right_mono)
    also have "\<dots> \<le> (2::rat) powi bitlen a / 2 powi (bitlen b - 1)"
      using rb b by (intro divide_left_mono) simp_all
    also have "\<dots> = 2 powi (k + 1)"
      by (simp add: k_def power_int_diff power_int_add field_simps)
    finally show ?thesis .
  qed
  show "2 powi flog2 q \<le> q" "q < 2 powi (flog2 q + 1)"
    using lower upper by (auto simp: flog2_def ab Let_def k_def)
qed

lemma flog2_unique:
  assumes "2 powi e \<le> q" "q < 2 powi (e + 1)"
  shows "flog2 q = e"
proof -
  have q: "0 < q" using assms(1) by (rule less_le_trans [rotated]) simp
  have "(2::rat) powi e < 2 powi (flog2 q + 1)"
    using assms(1) flog2_spec(2) [OF q] by (rule le_less_trans)
  then have 1: "e < flog2 q + 1" using powi_mono_rat by (meson not_le)
  have "(2::rat) powi flog2 q < 2 powi (e + 1)"
    using flog2_spec(1) [OF q] assms(2) by (rule le_less_trans)
  then have "flog2 q < e + 1" using powi_mono_rat by (meson not_le)
  with 1 show ?thesis by linarith
qed

lemma flog2_mono: "0 < q \<Longrightarrow> q \<le> r \<Longrightarrow> flog2 q \<le> flog2 r"
proof -
  assume "0 < q" "q \<le> r"
  then have "(2::rat) powi flog2 q < 2 powi (flog2 r + 1)"
    using flog2_spec(1) [of q] flog2_spec(2) [of r] by linarith
  then show ?thesis using powi_mono_rat by (meson not_le zle_add1_eq_le)
qed

lemma two_powi_pos [simp]: "0 < (2::rat) powi k"
  by simp

lemma of_int_two_powi: "0 \<le> k \<Longrightarrow> (2::rat) powi k = of_int (2 ^ nat k)"
  by (simp add: power_int_def)

text \<open>A number that sits on the grid of its own last place is not changed.\<close>

lemma dround_grid: "q / 2 powi dexp q = of_int z \<Longrightarrow> dround q = q"
proof -
  assume a: "q / 2 powi dexp q = of_int z"
  have "q = of_int z * 2 powi dexp q" using a by (simp add: field_simps)
  then show ?thesis by (simp add: dround_def a)
qed

lemma dround_exact:
  assumes "0 \<le> n" "n \<le> 2 ^ 53" "-1074 \<le> k"
  shows "dround (of_int n * 2 powi k) = of_int n * 2 powi k"
proof (cases "n = 0")
  case True
  then show ?thesis by (simp add: dround_def)
next
  case False
  define q where "q = (of_int n * 2 powi k :: rat)"
  have pos: "0 < q" using False assms(1) by (simp add: q_def)
  have "(of_int n :: rat) \<le> of_int (2 ^ 53)" using assms(2) by (rule of_int_le_iff [THEN iffD2])
  then have n53: "(of_int n :: rat) \<le> 2 powi 53" by (simp add: power_int_def)
  then have le: "q \<le> 2 powi (k + 53)"
    by (simp add: q_def power_int_add mult.commute mult_right_mono)
  show ?thesis
  proof (cases "q = 2 powi (k + 53)")
    case True
    then have "flog2 q = k + 53" by (intro flog2_unique) (simp_all add: power_int_add)
    then have "dexp q = k + 1" using assms(3) by (simp add: dexp_def)
    then have "q / 2 powi dexp q = 2 powi 52"
      using True by (simp add: power_int_diff [symmetric])
    also have "\<dots> = of_int (2 ^ 52)" by (simp add: power_int_def)
    finally show ?thesis by (metis dround_grid q_def)
  next
    case False
    then have "q < 2 powi (k + 53)" using le by simp
    then have "(2::rat) powi flog2 q < 2 powi (k + 53)" using flog2_spec(1) [OF pos] by simp
    then have "flog2 q < k + 53" using powi_mono_rat by (meson not_le)
    then have e: "0 \<le> k - dexp q" using assms(3) by (simp add: dexp_def)
    have "q / 2 powi dexp q = of_int n * 2 powi (k - dexp q)"
      by (simp add: q_def power_int_diff)
    also have "\<dots> = of_int (n * 2 ^ nat (k - dexp q))" using of_int_two_powi [OF e] by simp
    finally show ?thesis by (metis dround_grid q_def)
  qed
qed

lemma dround_int: "0 \<le> n \<Longrightarrow> n \<le> 2 ^ 53 \<Longrightarrow> dround (of_int n) = of_int n"
  using dround_exact [of n 0] by simp

lemma dround_form:
  assumes "0 < q"
  obtains n where "0 \<le> n" "n \<le> 2 ^ 53" "dround q = of_int n * 2 powi dexp q" "-1074 \<le> dexp q"
proof
  let ?n = "rne (q / 2 powi dexp q)"
  show "0 \<le> ?n" using assms by (intro rne_nonneg) simp
  have "q < 2 powi (flog2 q + 1)" by (rule flog2_spec(2) [OF assms])
  also have "\<dots> \<le> 2 powi (dexp q + 53)" by (simp add: powi_mono_rat dexp_def)
  finally have "q / 2 powi dexp q \<le> 2 powi 53"
    by (simp add: power_int_add field_simps)
  then have "q / 2 powi dexp q \<le> of_int (2 ^ 53)" by (simp add: power_int_def)
  then show "?n \<le> 2 ^ 53" using rne_mono rne_of_int by metis
  show "dround q = of_int ?n * 2 powi dexp q" using assms by (simp add: dround_def)
  show "-1074 \<le> dexp q" by (simp add: dexp_def)
qed

lemma dround_zero [simp]: "dround 0 = 0"
  by (simp add: dround_def)

lemma dround_nonneg: "0 \<le> q \<Longrightarrow> 0 \<le> dround q"
  by (cases "q = 0") (auto simp: dround_def rne_nonneg)

lemma dround_idem: "0 \<le> q \<Longrightarrow> dround (dround q) = dround q"
proof (cases "q = 0")
  case False
  assume "0 \<le> q"
  with False have "0 < q" by simp
  then show ?thesis by (elim dround_form) (simp add: dround_exact)
qed simp

lemma dround_mono:
  assumes "0 \<le> q" "q \<le> r"
  shows "dround q \<le> dround r"
proof (cases "q = 0")
  case True
  then show ?thesis using assms dround_nonneg [of r] by simp
next
  case False
  then have q: "0 < q" and r: "0 < r" using assms by simp_all
  show ?thesis
  proof (cases "dexp q = dexp r")
    case True
    have "rne (q / 2 powi dexp q) \<le> rne (r / 2 powi dexp r)"
      using assms True by (intro rne_mono) (simp add: divide_right_mono)
    then show ?thesis using q r True by (simp add: dround_def)
  next
    case False
    then have lt: "dexp q + 53 \<le> flog2 r" and e: "dexp r = flog2 r - 52"
      using flog2_mono [OF q assms(2)] by (auto simp: dexp_def)
    obtain n where n: "n \<le> 2 ^ 53" "dround q = of_int n * 2 powi dexp q"
      using dround_form [OF q] by blast
    have "(of_int n :: rat) \<le> of_int (2 ^ 53)" using n(1) by (rule of_int_le_iff [THEN iffD2])
    then have "(of_int n :: rat) \<le> 2 powi 53" by (simp add: power_int_def)
    then have "dround q \<le> 2 powi (dexp q + 53)"
      using n(2) by (simp add: power_int_add mult.commute mult_right_mono)
    also have "\<dots> \<le> 2 powi flog2 r" using lt by (simp add: powi_mono_rat)
    also have "\<dots> = of_int (2 ^ 52) * 2 powi dexp r"
      by (simp add: e power_int_diff)
    also have "\<dots> \<le> of_int (rne (r / 2 powi dexp r)) * 2 powi dexp r"
    proof -
      have "2 powi flog2 r \<le> r" by (rule flog2_spec(1) [OF r])
      then have "of_int (2 ^ 52) \<le> r / 2 powi dexp r"
        by (simp add: e power_int_diff field_simps)
      then have "2 ^ 52 \<le> rne (r / 2 powi dexp r)" using rne_mono rne_of_int by metis
      then show ?thesis by (intro mult_right_mono) (simp_all only: of_int_le_iff, simp)
    qed
    also have "\<dots> = dround r" using r by (simp add: dround_def)
    finally show ?thesis .
  qed
qed

section \<open>Numbers\<close>

text \<open>\<open>Inf True\<close> is minus infinity; \<open>Fin True m\<close> is the number \<open>-m\<close>, so \<open>Fin True 0\<close> is \<open>-0\<close>.\<close>

datatype jsnum = NaN | Inf bool | Fin bool rat

text \<open>The double nearest to a magnitude, with overflow to infinity.\<close>

definition mk_num :: "bool \<Rightarrow> rat \<Rightarrow> jsnum" where
  "mk_num s q = (let r = dround q in if r \<noteq> 0 \<and> 1024 \<le> flog2 r then Inf s else Fin s r)"

fun num_val :: "jsnum \<Rightarrow> rat" where
  "num_val (Fin s m) = (if s then - m else m)"
| "num_val _ = 0"

text \<open>The numbers that exist as doubles.\<close>

fun wf_num :: "jsnum \<Rightarrow> bool" where
  "wf_num (Fin s m) = (0 \<le> m \<and> mk_num s m = Fin s m)"
| "wf_num _ = True"

definition num_of_int :: "int \<Rightarrow> jsnum" where
  "num_of_int n = mk_num (n < 0) (of_int \<bar>n\<bar>)"

fun isFinite :: "jsnum \<Rightarrow> bool" where
  "isFinite (Fin _ _) = True"
| "isFinite _ = False"

fun isInteger :: "jsnum \<Rightarrow> bool" where
  "isInteger (Fin _ m) = (of_int \<lfloor>m\<rfloor> = m)"
| "isInteger _ = False"

fun isSafeInteger :: "jsnum \<Rightarrow> bool" where
  "isSafeInteger (Fin s m) = (isInteger (Fin s m) \<and> m \<le> 9007199254740991)"
| "isSafeInteger _ = False"

fun js_neg :: "jsnum \<Rightarrow> jsnum" where
  "js_neg NaN = NaN"
| "js_neg (Inf s) = Inf (\<not> s)"
| "js_neg (Fin s m) = Fin (\<not> s) m"

fun js_add :: "jsnum \<Rightarrow> jsnum \<Rightarrow> jsnum" where
  "js_add (Fin a x) (Fin b y) =
     (let v = num_val (Fin a x) + num_val (Fin b y)
      in if v = 0 then Fin (a \<and> b) 0 else mk_num (v < 0) \<bar>v\<bar>)"
| "js_add (Inf a) (Fin _ _) = Inf a"
| "js_add (Fin _ _) (Inf b) = Inf b"
| "js_add (Inf a) (Inf b) = (if a = b then Inf a else NaN)"
| "js_add _ _ = NaN"

definition js_sub :: "jsnum \<Rightarrow> jsnum \<Rightarrow> jsnum" where
  "js_sub a b = js_add a (js_neg b)"

fun js_mul :: "jsnum \<Rightarrow> jsnum \<Rightarrow> jsnum" where
  "js_mul (Fin a x) (Fin b y) = mk_num (a \<noteq> b) (x * y)"
| "js_mul (Inf a) (Fin b y) = (if y = 0 then NaN else Inf (a \<noteq> b))"
| "js_mul (Fin a x) (Inf b) = (if x = 0 then NaN else Inf (a \<noteq> b))"
| "js_mul (Inf a) (Inf b) = Inf (a \<noteq> b)"
| "js_mul _ _ = NaN"

fun js_div :: "jsnum \<Rightarrow> jsnum \<Rightarrow> jsnum" where
  "js_div (Fin a x) (Fin b y) =
     (if y = 0 then (if x = 0 then NaN else Inf (a \<noteq> b)) else mk_num (a \<noteq> b) (x / y))"
| "js_div (Inf a) (Fin b _) = Inf (a \<noteq> b)"
| "js_div (Fin a _) (Inf b) = Fin (a \<noteq> b) 0"
| "js_div _ _ = NaN"

text \<open>The remainder takes the sign of the dividend; it is exact.\<close>

fun js_mod :: "jsnum \<Rightarrow> jsnum \<Rightarrow> jsnum" where
  "js_mod (Fin a x) (Fin _ y) = (if y = 0 then NaN else Fin a (x - y * of_int \<lfloor>x / y\<rfloor>))"
| "js_mod (Fin a x) (Inf _) = Fin a x"
| "js_mod _ _ = NaN"

fun js_lt :: "jsnum \<Rightarrow> jsnum \<Rightarrow> bool" where
  "js_lt (Fin a x) (Fin b y) = (num_val (Fin a x) < num_val (Fin b y))"
| "js_lt (Inf a) (Fin _ _) = a"
| "js_lt (Fin _ _) (Inf b) = (\<not> b)"
| "js_lt (Inf a) (Inf b) = (a \<and> \<not> b)"
| "js_lt _ _ = False"

definition js_le :: "jsnum \<Rightarrow> jsnum \<Rightarrow> bool" where
  "js_le a b \<longleftrightarrow> a \<noteq> NaN \<and> b \<noteq> NaN \<and> \<not> js_lt b a"

text \<open>\<open>a === b\<close> on numbers: \<open>NaN\<close> differs from itself and the two zeros agree.\<close>

fun js_num_eq :: "jsnum \<Rightarrow> jsnum \<Rightarrow> bool" where
  "js_num_eq (Fin a x) (Fin b y) = (num_val (Fin a x) = num_val (Fin b y))"
| "js_num_eq (Inf a) (Inf b) = (a = b)"
| "js_num_eq _ _ = False"

definition js_min :: "jsnum \<Rightarrow> jsnum \<Rightarrow> jsnum" where
  "js_min a b =
     (if a = NaN \<or> b = NaN then NaN else if js_lt a b then a else if js_lt b a then b
      else if a = Fin False 0 then b else a)"

definition js_max :: "jsnum \<Rightarrow> jsnum \<Rightarrow> jsnum" where
  "js_max a b =
     (if a = NaN \<or> b = NaN then NaN else if js_lt a b then b else if js_lt b a then a
      else if a = Fin True 0 then b else a)"

fun js_abs :: "jsnum \<Rightarrow> jsnum" where
  "js_abs (Fin _ m) = Fin False m"
| "js_abs (Inf _) = Inf False"
| "js_abs NaN = NaN"

fun js_floor :: "jsnum \<Rightarrow> jsnum" where
  "js_floor (Fin s m) = Fin s (of_int (if s then \<lceil>m\<rceil> else \<lfloor>m\<rfloor>))"
| "js_floor x = x"

fun js_ceil :: "jsnum \<Rightarrow> jsnum" where
  "js_ceil (Fin s m) = Fin s (of_int (if s then \<lfloor>m\<rfloor> else \<lceil>m\<rceil>))"
| "js_ceil x = x"

section \<open>Exactness of integer arithmetic\<close>

text \<open>
  A rounded integer that passes the safe-integer test was not changed by rounding: an integer beyond
  \<open>2^53\<close> rounds to at least \<open>2^53\<close> and fails the test.
\<close>

lemma dround_safe:
  assumes "0 \<le> n" "dround (of_int n) \<le> 9007199254740991"
  shows "dround (of_int n) = of_int n"
proof (cases "n \<le> 2 ^ 53")
  case True
  then show ?thesis using assms dround_int by blast
next
  case False
  have "dround (of_int (2 ^ 53)) = of_int (2 ^ 53)" by (rule dround_int) simp_all
  moreover have "dround (of_int (2 ^ 53)) \<le> dround (of_int n)"
  proof (rule dround_mono)
    show "0 \<le> (of_int (2 ^ 53) :: rat)" by simp
    show "(of_int (2 ^ 53) :: rat) \<le> of_int n"
      using False by (intro of_int_le_iff [THEN iffD2]) simp
  qed
  ultimately show ?thesis using assms(2) by simp
qed

lemma isSafeInteger_val:
  "isSafeInteger x \<Longrightarrow> \<exists>n. num_val x = of_int n \<and> isFinite x"
proof (cases x)
  case (Fin s m)
  assume "isSafeInteger x"
  with Fin have "m = of_int \<lfloor>m\<rfloor>" by auto
  then have "num_val x = of_int (if s then - \<lfloor>m\<rfloor> else \<lfloor>m\<rfloor>)" using Fin by simp
  then show ?thesis using Fin by auto
qed simp_all

lemma isSafeInteger_mk_num:
  assumes "isSafeInteger (mk_num s (of_int n))" "0 \<le> n"
  shows "mk_num s (of_int n) = Fin s (of_int n)"
  using assms dround_safe [of n] by (auto simp: mk_num_def Let_def split: if_splits)

lemma js_add_safe:
  assumes "isSafeInteger x" "isSafeInteger y" "isSafeInteger (js_add x y)"
  shows "num_val (js_add x y) = num_val x + num_val y"
proof -
  obtain m n where m: "num_val x = of_int m" "isFinite x" and n: "num_val y = of_int n" "isFinite y"
    using assms(1,2) isSafeInteger_val by blast
  obtain a p b q where xy: "x = Fin a p" "y = Fin b q" using m n by (metis isFinite.elims(2))
  let ?k = "m + n"
  have v: "num_val x + num_val y = of_int ?k" using m n by simp
  show ?thesis
  proof (cases "?k = 0")
    case True
    then show ?thesis using v xy by (auto simp: Let_def)
  next
    case False
    have "(of_int ?k :: rat) < 0 \<longleftrightarrow> ?k < 0" by (rule of_int_less_0_iff)
    with False have add: "js_add x y = mk_num (?k < 0) (of_int \<bar>?k\<bar>)"
      using v unfolding xy js_add.simps Let_def by (simp del: num_val.simps)
    then have "isSafeInteger (mk_num (?k < 0) (of_int \<bar>?k\<bar>))" using assms(3) by simp
    then have "mk_num (?k < 0) (of_int \<bar>?k\<bar>) = Fin (?k < 0) (of_int \<bar>?k\<bar>)"
      by (rule isSafeInteger_mk_num) simp
    then show ?thesis using add v by auto
  qed
qed

lemma js_neg_val [simp]: "num_val (js_neg x) = - num_val x"
  by (cases x) auto

lemma js_neg_safe [simp]: "isSafeInteger (js_neg x) = isSafeInteger x"
  by (cases x) auto

lemma js_sub_safe:
  assumes "isSafeInteger x" "isSafeInteger y" "isSafeInteger (js_sub x y)"
  shows "num_val (js_sub x y) = num_val x - num_val y"
  using js_add_safe [of x "js_neg y"] assms by (simp add: js_sub_def)

text \<open>A magnitude is not negative. Every number the operations build has this form.\<close>

fun mag_ok :: "jsnum \<Rightarrow> bool" where
  "mag_ok (Fin _ m) = (0 \<le> m)"
| "mag_ok _ = True"

lemma mag_ok_mk_num: "0 \<le> q \<Longrightarrow> mag_ok (mk_num s q)"
  by (simp add: mk_num_def Let_def dround_nonneg)

lemma mag_ok_neg [simp]: "mag_ok (js_neg x) = mag_ok x"
  by (cases x) auto

lemma mag_ok_add: "mag_ok (js_add x y)"
  by (cases x; cases y) (auto simp: Let_def mag_ok_mk_num)

lemma mag_ok_sub: "mag_ok (js_sub x y)"
  by (simp add: js_sub_def mag_ok_add)

lemma mag_ok_mul: "mag_ok x \<Longrightarrow> mag_ok y \<Longrightarrow> mag_ok (js_mul x y)"
  by (cases x; cases y) (auto simp: mag_ok_mk_num)

lemma mag_ok_mod: "mag_ok x \<Longrightarrow> mag_ok y \<Longrightarrow> mag_ok (js_mod x y)"
proof (cases x; cases y)
  fix a p b q
  assume "mag_ok x" "mag_ok y" and xy: "x = Fin a p" "y = Fin b q"
  show "mag_ok (js_mod x y)"
  proof (cases "q = 0")
    case True
    then show ?thesis using xy by simp
  next
    case False
    then have q: "0 < q" using xy \<open>mag_ok y\<close> by simp
    have "q * of_int \<lfloor>p / q\<rfloor> \<le> q * (p / q)" using q by (intro mult_left_mono) simp_all
    then have "q * of_int \<lfloor>p / q\<rfloor> \<le> p" using q by simp
    then show ?thesis using xy False by simp
  qed
qed auto

lemma js_mul_safe:
  assumes "isSafeInteger x" "isSafeInteger y" "isSafeInteger (js_mul x y)" "mag_ok x" "mag_ok y"
  shows "num_val (js_mul x y) = num_val x * num_val y"
proof -
  obtain a p where x: "x = Fin a p" "p = of_int \<lfloor>p\<rfloor>" using assms(1) by (cases x) auto
  obtain b q where y: "y = Fin b q" "q = of_int \<lfloor>q\<rfloor>" using assms(2) by (cases y) auto
  have nonneg: "0 \<le> \<lfloor>p\<rfloor> * \<lfloor>q\<rfloor>" using assms(4,5) x(1) y(1) by simp
  have pq: "p * q = of_int (\<lfloor>p\<rfloor> * \<lfloor>q\<rfloor>)" using x(2) y(2) by simp
  then have "isSafeInteger (mk_num (a \<noteq> b) (of_int (\<lfloor>p\<rfloor> * \<lfloor>q\<rfloor>)))"
    using assms(3) x(1) y(1) by simp
  then have "mk_num (a \<noteq> b) (p * q) = Fin (a \<noteq> b) (p * q)"
    using isSafeInteger_mk_num nonneg pq by metis
  then show ?thesis using x(1) y(1) by auto
qed

text \<open>The remainder of two integers is the remainder of truncated division.\<close>

lemma js_mod_int:
  assumes "0 \<le> m" "0 < n"
  shows "js_mod (Fin a (of_int m)) (Fin b (of_int n)) = Fin a (of_int (m mod n))"
proof -
  have "\<lfloor>(of_int m :: rat) / of_int n\<rfloor> = m div n" by (rule floor_divide_of_int_eq)
  then show ?thesis using assms
    by (simp add: minus_mult_div_eq_mod [symmetric])
qed

section \<open>Order\<close>

lemma js_le_nonneg: "js_le (Fin False 0) x \<longleftrightarrow> x \<noteq> NaN \<and> \<not> js_lt x (Fin False 0)"
  by (auto simp: js_le_def)

lemma isFinite_num_val: "isFinite x \<Longrightarrow> isFinite y \<Longrightarrow> js_lt x y \<longleftrightarrow> num_val x < num_val y"
  by (cases x; cases y) simp_all

section \<open>Evaluation\<close>

text \<open>Integers up to \<open>2^53\<close> are doubles: concrete integer arithmetic evaluates without rounding.\<close>

lemma mk_num_int:
  assumes "0 \<le> n" "n \<le> 2 ^ 53"
  shows "mk_num s (of_int n) = Fin s (of_int n)"
proof -
  have r: "dround (of_int n) = of_int n" using assms by (rule dround_int)
  show ?thesis
  proof (cases "n = 0")
    case True
    then show ?thesis by (simp add: mk_num_def)
  next
    case False
    then have pos: "(0::rat) < of_int n" using assms by simp
    have "(of_int n :: rat) \<le> of_int (2 ^ 53)" using assms(2) by (rule of_int_le_iff [THEN iffD2])
    also have "\<dots> = 2 powi 53" by (simp add: power_int_def)
    finally have "(2::rat) powi flog2 (of_int n) \<le> 2 powi 53"
      using flog2_spec(1) [OF pos] by (rule order_trans [rotated])
    then have "flog2 (of_int n) \<le> 53" by (simp only: powi_mono_rat)
    then show ?thesis using r by (simp add: mk_num_def)
  qed
qed

lemma mk_num_numeral [js_eval]:
  "mk_num s 0 = Fin s 0"
  "mk_num s 1 = Fin s 1"
  "numeral n \<le> (9007199254740992 :: rat) \<Longrightarrow> mk_num s (numeral n) = Fin s (numeral n)"
proof -
  show "mk_num s 0 = Fin s 0" using mk_num_int [of 0] by simp
  show "mk_num s 1 = Fin s 1" using mk_num_int [of 1] by simp
  assume "numeral n \<le> (9007199254740992 :: rat)"
  then show "mk_num s (numeral n) = Fin s (numeral n)"
    using mk_num_int [of "numeral n" s] by simp
qed

text \<open>Integer division rounded to nearest even: the rounding step on a fraction of two integers.\<close>

definition rdiv :: "int \<Rightarrow> int \<Rightarrow> int" where
  "rdiv a b = (let f = a div b; r = 2 * (a mod b)
               in if r < b then f else if b < r then f + 1 else if even f then f else f + 1)"

lemma rne_rdiv: "0 < b \<Longrightarrow> rne (of_int a / of_int b) = rdiv a b"
proof -
  assume b: "0 < b"
  have f: "\<lfloor>(of_int a :: rat) / of_int b\<rfloor> = a div b" by (rule floor_divide_of_int_eq)
  have "(of_int a :: rat) = of_int (a div b) * of_int b + of_int (a mod b)"
    by (metis div_mult_mod_eq of_int_add of_int_mult)
  then have d: "(of_int a :: rat) / of_int b - of_int (a div b) = of_int (a mod b) / of_int b"
    using b by (simp add: field_simps)
  have lt: "(of_int (a mod b) :: rat) / of_int b < 1/2 \<longleftrightarrow> 2 * (a mod b) < b"
    using b by (simp add: divide_less_eq) (metis mult.commute of_int_less_iff of_int_mult of_int_numeral)
  have gt: "1/2 < (of_int (a mod b) :: rat) / of_int b \<longleftrightarrow> b < 2 * (a mod b)"
    using b by (simp add: less_divide_eq) (metis mult.commute of_int_less_iff of_int_mult of_int_numeral)
  show ?thesis by (simp only: rne_def rdiv_def Let_def f d lt gt)
qed

lemma dround_code [code]:
  "dround q =
     (case quotient_of q of (a, b) \<Rightarrow>
        if b = 1 \<and> 0 \<le> a \<and> a \<le> 9007199254740992 then q
        else let e = dexp q
             in if e \<le> 0 then Fract (rdiv (a * 2 ^ nat (- e)) b) (2 ^ nat (- e))
                else of_int (rdiv a (b * 2 ^ nat e) * 2 ^ nat e))"
proof -
  obtain a b where ab: "quotient_of q = (a, b)" by (cases "quotient_of q")
  from quotient_of_denom_pos [OF ab] have b: "0 < b" .
  have q: "q = of_int a / of_int b" using quotient_of_div [OF ab] .
  show ?thesis
  proof (cases "b = 1 \<and> 0 \<le> a \<and> a \<le> 9007199254740992")
    case True
    then show ?thesis using dround_int [of a] q ab by simp
  next
    case False
    show ?thesis
    proof (cases "q = 0")
      case True
      then show ?thesis using False ab by simp
    next
      case nz: False
      let ?e = "dexp q"
      show ?thesis
      proof (cases "?e \<le> 0")
        case True
        have p: "(2::rat) powi ?e = 1 / of_int (2 ^ nat (- ?e))"
          using True by (simp add: power_int_def field_simps power_one_over)
        have "q / 2 powi ?e = of_int (a * 2 ^ nat (- ?e)) / of_int b"
          by (simp add: q [symmetric] p) (simp add: q)
        then have "rne (q / 2 powi ?e) = rdiv (a * 2 ^ nat (- ?e)) b"
          using rne_rdiv [OF b] by (simp only:)
        then show ?thesis
          using nz False True by (auto simp: dround_def ab p Fract_of_int_quotient Let_def)
      next
        case F: False
        then have p: "(2::rat) powi ?e = of_int (2 ^ nat ?e)" by (simp add: power_int_def)
        have pos: "0 < b * 2 ^ nat ?e" using b by simp
        have "q / 2 powi ?e = of_int a / of_int (b * 2 ^ nat ?e)"
          unfolding p by (simp add: q)
        then have "rne (q / 2 powi ?e) = rdiv a (b * 2 ^ nat ?e)"
          using rne_rdiv [OF pos] by (simp only:)
        then show ?thesis using nz False F by (auto simp: dround_def ab p Let_def)
      qed
    qed
  qed
qed

lemma flog2_code [code]:
  "flog2 q =
     (case quotient_of q of (a, b) \<Rightarrow>
        let k = bitlen a - bitlen b
        in if (if 0 \<le> k then 2 ^ nat k * b \<le> a else b \<le> a * 2 ^ nat (- k)) then k else k - 1)"
proof -
  obtain a b where ab: "quotient_of q = (a, b)" by (cases "quotient_of q")
  from quotient_of_denom_pos [OF ab] have b: "0 < (of_int b :: rat)" by simp
  have q: "q = of_int a / of_int b" using quotient_of_div [OF ab] .
  have i: "of_int (2 ^ nat k * b) \<le> (of_int a :: rat) \<longleftrightarrow> 2 ^ nat k * b \<le> a"
          "(of_int b :: rat) \<le> of_int (a * 2 ^ nat (- k)) \<longleftrightarrow> b \<le> a * 2 ^ nat (- k)" for k
    by (rule of_int_le_iff)+
  have "2 powi k \<le> q \<longleftrightarrow> (if 0 \<le> k then 2 ^ nat k * b \<le> a else b \<le> a * 2 ^ nat (- k))" for k
    unfolding i [symmetric] using b
    by (simp add: q power_int_def pos_le_divide_eq power_one_over pos_divide_le_eq mult.commute
        del: of_int_le_iff)
  then show ?thesis by (simp add: flog2_def ab Let_def)
qed

end
