(* ===== verification/JS_Numeral.thy ===== *)
theory JS_Numeral
  imports JS_Number "HOL-Library.Sublist"
begin

text \<open>
  Numbers as text: the decimal literals the lexer recognises, \<open>Number(text)\<close>, \<open>String(number)\<close> and
  \<open>number.toExponential()\<close>. Reading a decimal literal rounds its exact rational value once; writing a
  number uses the fewest digits that read back as the same double, as the language specifies.
\<close>

section \<open>Reading decimal literals\<close>

definition digits_val :: "jsstr \<Rightarrow> int" where
  "digits_val cs = foldl (\<lambda>acc c. acc * 10 + (c - 48)) 0 cs"

definition strip_char :: "code_unit \<Rightarrow> jsstr \<Rightarrow> jsstr option" where
  "strip_char c s = (case s of d # r \<Rightarrow> if d = c then Some r else None | [] \<Rightarrow> None)"

lemma strip_char_Some: "strip_char c s = Some r \<longleftrightarrow> s = c # r"
  by (auto simp: strip_char_def split: list.splits)

text \<open>The longest prefix matching \<open>\d+(?:\.\d*)?|\.\d+\<close>; empty when there is none.\<close>

definition mantissa_prefix :: "jsstr \<Rightarrow> jsstr" where
  "mantissa_prefix s =
     (let ds = takeWhile is_digit s
      in case strip_char 46 (drop (length ds) s) of
           Some fs \<Rightarrow>
             (let gs = takeWhile is_digit fs
              in if ds = [] \<and> gs = [] then [] else ds @ 46 # gs)
         | None \<Rightarrow> ds)"

definition sign_prefix :: "jsstr \<Rightarrow> jsstr" where
  "sign_prefix cs = (case cs of d # _ \<Rightarrow> if d = 43 \<or> d = 45 then [d] else [] | [] \<Rightarrow> [])"

text \<open>The prefix matching \<open>[eE][+-]?\d+\<close>; empty when there is none.\<close>

definition exponent_prefix :: "jsstr \<Rightarrow> jsstr" where
  "exponent_prefix s =
     (case s of
        c # cs \<Rightarrow>
          if c = 101 \<or> c = 69 then
            (let sg = sign_prefix cs;
                 es = takeWhile is_digit (drop (length sg) cs)
             in if es = [] then [] else c # sg @ es)
          else []
      | [] \<Rightarrow> [])"

text \<open>\<open>^(?:\d+(?:\.\d*)?|\.\d+)(?:[eE][+-]?\d+)?\<close>.\<close>

definition match_number :: "jsstr \<Rightarrow> jsstr" where
  "match_number s =
     (let m = mantissa_prefix s
      in if m = [] then [] else m @ exponent_prefix (drop (length m) s))"

text \<open>The exact rational value of a matched literal.\<close>

definition decimal_value :: "jsstr \<Rightarrow> rat" where
  "decimal_value s =
     (let ds = takeWhile is_digit s; rest = drop (length ds) s;
          fs = (case strip_char 46 rest of Some r \<Rightarrow> takeWhile is_digit r | None \<Rightarrow> []);
          rest' = (case strip_char 46 rest of Some r \<Rightarrow> drop (length fs) r | None \<Rightarrow> rest);
          es = tl rest';
          ex = (case strip_char 45 es of
                  Some r \<Rightarrow> - digits_val r
                | None \<Rightarrow> (case strip_char 43 es of Some r \<Rightarrow> digits_val r | None \<Rightarrow> digits_val es))
      in of_int (digits_val (ds @ fs)) * 10 powi (ex - int (length fs)))"

definition num_of_decimal :: "jsstr \<Rightarrow> jsnum" where
  "num_of_decimal s = mk_num False (decimal_value s)"

section \<open>Number(text)\<close>

definition parse_radix :: "int \<Rightarrow> jsstr \<Rightarrow> jsnum" where
  "parse_radix r cs =
     (if cs = [] \<or> \<not> list_all (\<lambda>c. is_hex c \<and> hex_val c < r) cs then NaN
      else mk_num False (of_int (foldl (\<lambda>acc c. acc * r + hex_val c) 0 cs)))"

definition parse_unsigned :: "jsstr \<Rightarrow> jsnum" where
  "parse_unsigned t =
     (if t = js ''Infinity'' then Inf False
      else if t \<noteq> [] \<and> match_number t = t then num_of_decimal t
      else NaN)"

definition js_Number :: "jsstr \<Rightarrow> jsnum" where
  "js_Number s =
     (let t = trim s
      in if t = [] then Fin False 0
         else if starts_with t (js ''0x'') \<or> starts_with t (js ''0X'') then parse_radix 16 (drop 2 t)
         else if starts_with t (js ''0o'') \<or> starts_with t (js ''0O'') then parse_radix 8 (drop 2 t)
         else if starts_with t (js ''0b'') \<or> starts_with t (js ''0B'') then parse_radix 2 (drop 2 t)
         else (case strip_char 45 t of
                 Some r \<Rightarrow> js_neg (parse_unsigned r)
               | None \<Rightarrow> (case strip_char 43 t of
                     Some r \<Rightarrow> parse_unsigned r
                   | None \<Rightarrow> parse_unsigned t)))"

section \<open>Writing numbers\<close>

text \<open>The decimal digits of an integer that is not negative.\<close>

function digits_of :: "int \<Rightarrow> jsstr" where
  "digits_of n = (if n < 10 then [48 + n] else digits_of (n div 10) @ [48 + n mod 10])"
  by pat_completeness auto
termination
  by (relation "measure nat") auto

declare digits_of.simps [simp del]

definition string_of_int :: "int \<Rightarrow> jsstr" where
  "string_of_int i = (if i < 0 then 45 # digits_of (- i) else digits_of i)"

text \<open>
  The decimal exponent: the least \<open>n\<close> with \<open>m < 10 powi n\<close>, found from the binary exponent
  (\<open>78913 / 2^18\<close> is just below the decimal logarithm of two).
\<close>

definition dec_exp :: "rat \<Rightarrow> int" where
  "dec_exp m =
     (let k = (flog2 m * 78913) div 262144
      in if m < 10 powi k then k else if m < 10 powi (k + 1) then k + 1 else k + 2)"

text \<open>
  The digits of the shortest decimal that reads back as \<open>m\<close>: for each number of digits \<open>k\<close> the two
  decimals next to \<open>m\<close> are tried, the closer one first. A result \<open>(n, k, s)\<close> stands for
  \<open>s * 10 powi (n - k)\<close>. Seventeen digits always suffice for a double.
\<close>

definition candidate_value :: "int \<times> int \<times> int \<Rightarrow> rat" where
  "candidate_value c = (case c of (n, k, s) \<Rightarrow> of_int s * 10 powi (n - k))"

definition candidates :: "rat \<Rightarrow> int \<Rightarrow> (int \<times> int \<times> int) list" where
  "candidates m k =
     (let n = dec_exp m; s = \<lfloor>m * 10 powi (k - n)\<rfloor>;
          lo = (n, k, s); hi = (if s + 1 = 10 ^ nat k then (n + 1, k, 10 ^ nat (k - 1)) else (n, k, s + 1))
      in if m - candidate_value lo \<le> candidate_value hi - m then [lo, hi] else [hi, lo])"

fun shortest_from :: "rat \<Rightarrow> int \<Rightarrow> nat \<Rightarrow> int \<times> int \<times> int" where
  "shortest_from m k 0 = hd (candidates m k)"
| "shortest_from m k (Suc fuel) =
     (case find (\<lambda>c. mk_num False (candidate_value c) = Fin False m) (candidates m k) of
        Some c \<Rightarrow> c
      | None \<Rightarrow> shortest_from m (k + 1) fuel)"

definition shortest :: "rat \<Rightarrow> int \<times> int \<times> int" where
  "shortest m = shortest_from m 1 16"

definition zeros :: "int \<Rightarrow> jsstr" where
  "zeros n = replicate (nat n) 48"

definition exponent_text :: "int \<Rightarrow> jsstr" where
  "exponent_text e = 101 # (if e < 0 then 45 else 43) # digits_of \<bar>e\<bar>"

definition mantissa_text :: "jsstr \<Rightarrow> jsstr" where
  "mantissa_text ds = (case ds of [] \<Rightarrow> [] | [d] \<Rightarrow> [d] | d # r \<Rightarrow> d # 46 # r)"

definition magnitude_string :: "rat \<Rightarrow> jsstr" where
  "magnitude_string m =
     (if m = 0 then [48]
      else case shortest m of (n, k, s) \<Rightarrow>
        let ds = digits_of s
        in if k \<le> n \<and> n \<le> 21 then ds @ zeros (n - k)
           else if 0 < n \<and> n \<le> 21 then take (nat n) ds @ 46 # drop (nat n) ds
           else if -6 < n \<and> n \<le> 0 then 48 # 46 # zeros (- n) @ ds
           else mantissa_text ds @ exponent_text (n - 1))"

text \<open>\<open>String(x)\<close>.\<close>

fun num_to_string :: "jsnum \<Rightarrow> jsstr" where
  "num_to_string NaN = js ''NaN''"
| "num_to_string (Inf s) = (if s then js ''-Infinity'' else js ''Infinity'')"
| "num_to_string (Fin s m) = (if s \<and> m \<noteq> 0 then 45 # magnitude_string m else magnitude_string m)"

text \<open>The two parts of \<open>x.toExponential()\<close> around its \<open>e\<close>, for a finite number: mantissa text and exponent.\<close>

definition to_exponential :: "bool \<Rightarrow> rat \<Rightarrow> jsstr \<times> int" where
  "to_exponential neg m =
     (if m = 0 then ([48], 0)
      else case shortest m of (n, k, s) \<Rightarrow>
        ((if neg then [45] else []) @ mantissa_text (digits_of s), n - 1))"

section \<open>Facts about literals\<close>

lemma digits_val_append: "digits_val (cs @ [c]) = digits_val cs * 10 + (c - 48)"
  by (simp add: digits_val_def)

lemma digits_val_digits_of: "0 \<le> n \<Longrightarrow> digits_val (digits_of n) = n"
proof (induction n rule: digits_of.induct)
  case (1 n)
  show ?case
  proof (cases "n < 10")
    case True
    then show ?thesis by (simp add: digits_of.simps [of n] digits_val_def)
  next
    case False
    with 1 have "digits_val (digits_of (n div 10)) = n div 10" by simp
    with False show ?thesis by (simp add: digits_of.simps [of n] digits_val_append)
  qed
qed

lemma digits_of_digits: "0 \<le> n \<Longrightarrow> c \<in> set (digits_of n) \<Longrightarrow> is_digit c"
proof (induction n rule: digits_of.induct)
  case (1 n)
  show ?case
  proof (cases "n < 10")
    case True
    with 1 show ?thesis by (auto simp: digits_of.simps [of n] is_digit_def)
  next
    case False
    have "0 \<le> n mod 10" "n mod 10 < 10" by simp_all
    with 1 False show ?thesis by (auto simp: digits_of.simps [of n] is_digit_def)
  qed
qed

lemma digits_of_nonempty [simp]: "digits_of n \<noteq> []"
  by (subst digits_of.simps) simp

lemma prefix_takeWhile: "prefix (takeWhile P xs) xs"
  by (metis prefixI takeWhile_dropWhile_id)

lemma prefix_append_drop: "prefix p s \<Longrightarrow> prefix q (drop (length p) s) \<Longrightarrow> prefix (p @ q) s"
  by (auto simp: prefix_def)

lemma mantissa_prefix_prefix: "prefix (mantissa_prefix s) s"
proof (cases "strip_char 46 (drop (length (takeWhile is_digit s)) s)")
  case None
  then show ?thesis by (simp add: mantissa_prefix_def Let_def prefix_takeWhile)
next
  case (Some fs)
  then have "drop (length (takeWhile is_digit s)) s = 46 # fs" by (simp add: strip_char_Some)
  then have "prefix (takeWhile is_digit s @ 46 # takeWhile is_digit fs) s"
    by (intro prefix_append_drop prefix_takeWhile) (simp add: prefix_takeWhile)
  then show ?thesis using Some by (simp add: mantissa_prefix_def Let_def)
qed

lemma sign_prefix_prefix: "prefix (sign_prefix s) s"
  by (cases s) (simp_all add: sign_prefix_def)

lemma exponent_prefix_prefix: "prefix (exponent_prefix s) s"
proof (cases s)
  case Nil
  then show ?thesis by (simp add: exponent_prefix_def)
next
  case (Cons c cs)
  have "prefix (sign_prefix cs @ takeWhile is_digit (drop (length (sign_prefix cs)) cs)) cs"
    by (intro prefix_append_drop sign_prefix_prefix prefix_takeWhile)
  then show ?thesis using Cons by (simp add: exponent_prefix_def Let_def)
qed

lemma match_number_prefix: "prefix (match_number s) s"
proof -
  have "prefix (mantissa_prefix s @ exponent_prefix (drop (length (mantissa_prefix s)) s)) s"
    by (intro prefix_append_drop mantissa_prefix_prefix exponent_prefix_prefix)
  then show ?thesis by (simp add: match_number_def Let_def)
qed

lemma match_number_length: "length (match_number s) \<le> length s"
  using match_number_prefix by (rule prefix_length_le)

lemma match_number_take: "match_number s = take (length (match_number s)) s"
  using match_number_prefix [of s] by (metis append_eq_conv_conj prefix_def)

lemma match_number_first:
  assumes "s = c # cs"
  shows "match_number s \<noteq> [] \<longleftrightarrow> is_digit c \<or> (c = 46 \<and> (\<exists>d ds. cs = d # ds \<and> is_digit d))"
proof -
  have "mantissa_prefix s \<noteq> [] \<longleftrightarrow> is_digit c \<or> (c = 46 \<and> (\<exists>d ds. cs = d # ds \<and> is_digit d))"
    using assms by (auto simp: mantissa_prefix_def Let_def strip_char_def is_digit_def split: option.splits list.splits)
  then show ?thesis by (auto simp: match_number_def Let_def)
qed

end
