(* ===== verification/Expr_Types.thy ===== *)
theory Expr_Types
  imports JS_Numeral
begin

text \<open>
  The data of the billing expression language and its tree walk
  (\<^verbatim>\<open>features/pricing/lib/billing-expression/types.ts\<close>): the variables and functions of the language,
  syntax trees with their source spans, diagnostics and the exceptions that carry them, compilation
  and evaluation results, \<open>visitExpression\<close> and \<open>expressionDependencies\<close>.

  The source compares syntax nodes by object identity. A node of the model carries its span, and the
  spans of a parsed tree are pairwise different (theory \<open>Parser_Props\<close>), so equality of nodes is
  identity within one tree.
\<close>

section \<open>Vocabulary\<close>

definition TOKEN_VARIABLES :: "jsstr list" where
  "TOKEN_VARIABLES = [js ''p'', js ''c'', js ''len'', js ''cr'', js ''cc'', js ''cc1h'', js ''img'',
     js ''img_cr'', js ''img_o'', js ''ai'', js ''ao'']"

definition BILLING_VARIABLES :: "jsstr list" where
  "BILLING_VARIABLES = TOKEN_VARIABLES @ [js ''image_count'']"

definition TIME_FUNCTIONS :: "jsstr list" where
  "TIME_FUNCTIONS = [js ''hour'', js ''minute'', js ''weekday'', js ''month'', js ''day'']"

text \<open>Every function with its number of arguments.\<close>

definition BILLING_FUNCTIONS :: "(jsstr \<times> nat) list" where
  "BILLING_FUNCTIONS = [(js ''tier'', 2), (js ''fixed'', 1), (js ''param'', 1), (js ''header'', 1),
     (js ''has'', 2), (js ''u'', 1), (js ''hour'', 1), (js ''minute'', 1), (js ''weekday'', 1),
     (js ''month'', 1), (js ''day'', 1), (js ''min'', 2), (js ''max'', 2), (js ''abs'', 1),
     (js ''ceil'', 1), (js ''floor'', 1)]"

section \<open>Syntax trees\<close>

datatype literal = LStr jsstr | LNum jsnum | LBool bool | LNull

text \<open>The optional \<open>integer\<close> flag of a literal is \<open>False\<close> where the source leaves it out.\<close>

datatype ExpressionNode =
    Literal literal bool (node_start: nat) (node_end: nat)
  | Variable jsstr (node_start: nat) (node_end: nat)
  | Call jsstr "ExpressionNode list" (node_start: nat) (node_end: nat)
  | Unary jsstr ExpressionNode (node_start: nat) (node_end: nat)
  | Binary jsstr ExpressionNode ExpressionNode
      (node_start: nat) (node_end: nat)
  | Conditional ExpressionNode ExpressionNode ExpressionNode
      (node_start: nat) (node_end: nat)

text \<open>\<open>{ ...expression, start, end }\<close>: the same node with another span.\<close>

fun respan :: "ExpressionNode \<Rightarrow> nat \<Rightarrow> nat \<Rightarrow> ExpressionNode" where
  "respan (Literal v i _ _) a b = Literal v i a b"
| "respan (Variable x _ _) a b = Variable x a b"
| "respan (Call f xs _ _) a b = Call f xs a b"
| "respan (Unary f x _ _) a b = Unary f x a b"
| "respan (Binary f x y _ _) a b = Binary f x y a b"
| "respan (Conditional c x y _ _) a b = Conditional c x y a b"

fun children :: "ExpressionNode \<Rightarrow> ExpressionNode list" where
  "children (Literal _ _ _ _) = []"
| "children (Variable _ _ _) = []"
| "children (Call _ xs _ _) = xs"
| "children (Unary _ x _ _) = [x]"
| "children (Binary _ x y _ _) = [x, y]"
| "children (Conditional c x y _ _) = [c, x, y]"

section \<open>Diagnostics and results\<close>

datatype DiagnosticCode = Syntax | Unsupported | Missing_context | Type_code | Number_code | Limit

record ExpressionDiagnostic =
  diag_code :: DiagnosticCode
  diag_detail :: jsstr
  diag_position :: "nat option"

text \<open>
  What a computation may throw: a \<open>BillingExpressionError\<close> with its diagnostic, or another error of the
  host with its message.
\<close>

datatype exn = BillingExpressionError ExpressionDiagnostic | HostError jsstr

abbreviation billing_error :: "DiagnosticCode \<Rightarrow> jsstr \<Rightarrow> nat option \<Rightarrow> exn" where
  "billing_error c d p \<equiv> BillingExpressionError \<lparr>diag_code = c, diag_detail = d, diag_position = p\<rparr>"

record BillingRequestRule =
  rule_text :: jsstr
  rule_multiplier :: jsnum
  rule_matched :: bool

record RequestRuleSite =
  site_node :: ExpressionNode
  site_condition :: ExpressionNode
  site_multiplier :: jsnum
  site_cond :: jsstr

record CompiledBillingExpression =
  compiled_source :: jsstr
  compiled_ast :: ExpressionNode
  compiled_variables :: "jsstr list"
  compiled_functions :: "jsstr list"
  compiled_rules :: "RequestRuleSite list"

datatype FailureStatus = Status_unsupported | Status_invalid | Status_missing_context

record ExpressionFailure =
  failure_status :: FailureStatus
  failure_diagnostic :: ExpressionDiagnostic

datatype CompilationResult = Ready CompiledBillingExpression | Failed ExpressionFailure

definition expressionFailure :: "exn \<Rightarrow> ExpressionFailure" where
  "expressionFailure error =
     (let diag = (case error of
                    BillingExpressionError d \<Rightarrow> d
                  | HostError m \<Rightarrow> \<lparr>diag_code = Syntax, diag_detail = m, diag_position = None\<rparr>);
          st = Status_invalid;
          st = (if diag_code diag = Missing_context then Status_missing_context else st);
          st = (if diag_code diag = Unsupported \<or> diag_code diag = Limit then Status_unsupported else st)
      in \<lparr>failure_status = st, failure_diagnostic = diag\<rparr>)"

section \<open>The tree walk\<close>

lemma children_size: "c \<in> set (children n) \<Longrightarrow> size c < size n"
  by (cases n) (auto simp: less_Suc_eq_le dest: size_list_estimation' [OF _ order_refl, of _ _ size])

function (sequential) node_count :: "ExpressionNode \<Rightarrow> nat" where
  "node_count n = Suc (sum_list (map node_count (children n)))"
  by pat_completeness auto
termination
  by (relation "measure size") (auto simp: children_size)

declare node_count.simps [simp del]

text \<open>
  An entry of the explicit stack is a node, whether its children were pushed already, and its depth.
  The head of the list is the top of the stack.
\<close>

type_synonym visit_entry = "ExpressionNode \<times> bool \<times> nat"

definition entry_weight :: "visit_entry \<Rightarrow> nat" where
  "entry_weight e = (case e of (n, visited, _) \<Rightarrow> if visited then 1 else 2 * node_count n)"

function visit_loop ::
  "(ExpressionNode \<Rightarrow> 's \<Rightarrow> exn + 's) \<Rightarrow> visit_entry list \<Rightarrow> 's \<Rightarrow> exn + 's" where
  "visit_loop visitor [] s = Inr s"
| "visit_loop visitor ((n, visited, depth) # stack) s =
     (if 256 < depth then Inl (billing_error Limit (js ''expression depth'') None)
      else if visited then bindR (visitor n s) (\<lambda>s'. visit_loop visitor stack s')
      else visit_loop visitor
             (map (\<lambda>c. (c, False, depth + 1)) (children n) @ (n, True, depth) # stack) s)"
  by pat_completeness auto
termination
proof (relation "measure (\<lambda>(_, stack, _). sum_list (map entry_weight stack))", goal_cases)
  case 1
  then show ?case by simp
next
  case (2 visitor n visited depth stack s x)
  then show ?case by (simp add: entry_weight_def)
next
  case (3 visitor n visited depth stack s)
  have "sum_list (map (entry_weight \<circ> (\<lambda>c. (c, False, depth + 1))) cs)
          = 2 * sum_list (map node_count cs)" for cs
    by (induction cs) (simp_all add: entry_weight_def)
  then show ?case using 3 by (simp add: entry_weight_def node_count.simps [of n] comp_def)
qed

declare visit_loop.simps(2) [simp del]

definition visitExpression ::
  "ExpressionNode \<Rightarrow> (ExpressionNode \<Rightarrow> 's \<Rightarrow> exn + 's) \<Rightarrow> 's \<Rightarrow> exn + 's" where
  "visitExpression node visitor s = visit_loop visitor [(node, False, 0)] s"

text \<open>Adding to a \<open>Set\<close>, which keeps insertion order.\<close>

definition set_add :: "'a \<Rightarrow> 'a list \<Rightarrow> 'a list" where
  "set_add x xs = (if x \<in> set xs then xs else xs @ [x])"

lemma set_set_add [simp]: "set (set_add x xs) = insert x (set xs)"
  by (auto simp: set_add_def)

lemma distinct_set_add [simp]: "distinct (set_add x xs) = distinct xs"
  by (auto simp: set_add_def)

definition dependency_visitor ::
  "ExpressionNode \<Rightarrow> jsstr list \<times> jsstr list \<Rightarrow> exn + jsstr list \<times> jsstr list" where
  "dependency_visitor part s =
     (case s of (vars, funs) \<Rightarrow>
        Inr ((case part of Variable x _ _ \<Rightarrow> set_add x vars | _ \<Rightarrow> vars),
             (case part of Call f _ _ _ \<Rightarrow> set_add f funs | _ \<Rightarrow> funs)))"

definition expressionDependencies :: "ExpressionNode \<Rightarrow> exn + jsstr list \<times> jsstr list" where
  "expressionDependencies node = visitExpression node dependency_visitor ([], [])"

section \<open>The walk is a post-order traversal\<close>

function postorder :: "ExpressionNode \<Rightarrow> ExpressionNode list" where
  "postorder n = concat (map postorder (children n)) @ [n]"
  by pat_completeness auto
termination
  by (relation "measure size") (auto simp: children_size)

declare postorder.simps [simp del]

function height :: "ExpressionNode \<Rightarrow> nat" where
  "height n = foldr max (map (\<lambda>c. Suc (height c)) (children n)) 0"
  by pat_completeness auto
termination
  by (relation "measure size") (auto simp: children_size)

declare height.simps [simp del]

lemma foldr_max_le: "foldr max xs (0::nat) \<le> k \<longleftrightarrow> (\<forall>x \<in> set xs. x \<le> k)"
  by (induction xs) auto

lemma height_le: "height n \<le> k \<longleftrightarrow> (\<forall>c \<in> set (children n). Suc (height c) \<le> k)"
  by (subst height.simps) (simp add: foldr_max_le)

lemma height_simps [simp, code]:
  "height (Literal v i a b) = 0"
  "height (Variable x a b) = 0"
  "height (Unary f l a b) = Suc (height l)"
  "height (Binary f l r a b) = max (Suc (height l)) (Suc (height r))"
  "height (Conditional c l r a b) = max (Suc (height c)) (max (Suc (height l)) (Suc (height r)))"
  "height (Call f xs a b) = foldr max (map (\<lambda>c. Suc (height c)) xs) 0"
  by (simp_all add: height.simps [of "Literal v i a b"] height.simps [of "Variable x a b"]
      height.simps [of "Unary f l a b"] height.simps [of "Binary f l r a b"]
      height.simps [of "Conditional c l r a b"] height.simps [of "Call f xs a b"])

lemma visit_loop_children:
  assumes "\<And>c stack s. c \<in> set cs \<Longrightarrow>
      visit_loop f ((c, False, d) # stack) s = bindR (foldR f (postorder c) s) (visit_loop f stack)"
  shows "visit_loop f (map (\<lambda>c. (c, False, d)) cs @ stack) s
           = bindR (foldR f (concat (map postorder cs)) s) (visit_loop f stack)"
  using assms
proof (induction cs arbitrary: s)
  case Nil
  then show ?case by simp
next
  case (Cons c cs)
  then have "visit_loop f (map (\<lambda>c. (c, False, d)) cs @ stack) =
      (\<lambda>s. bindR (foldR f (concat (map postorder cs)) s) (visit_loop f stack))"
    by (simp add: fun_eq_iff)
  with Cons.prems show ?case by (simp add: foldR_append bindR_assoc)
qed

lemma visit_loop_within_depth:
  "height n + d \<le> 256 \<Longrightarrow>
     visit_loop f ((n, False, d) # stack) s = bindR (foldR f (postorder n) s) (visit_loop f stack)"
proof (induction n arbitrary: d stack s rule: node_count.induct)
  case (1 n)
  have d: "\<not> 256 < d" using "1.prems" by simp
  have IH: "visit_loop f ((c, False, d + 1) # stk) s'
      = bindR (foldR f (postorder c) s') (visit_loop f stk)" if "c \<in> set (children n)" for c stk s'
  proof -
    have "Suc (height c) \<le> height n" using that height_le [of n "height n"] by blast
    then show ?thesis using "1.IH" [OF that, of "d + 1"] "1.prems" by simp
  qed
  have last: "visit_loop f ((n, True, d) # stack) = (\<lambda>s. bindR (f n s) (visit_loop f stack))"
    using d by (simp add: fun_eq_iff visit_loop.simps(2))
  have "visit_loop f ((n, False, d) # stack) s
      = visit_loop f (map (\<lambda>c. (c, False, d + 1)) (children n) @ (n, True, d) # stack) s"
    using d by (simp add: visit_loop.simps(2) [of _ _ False])
  also have "\<dots> = bindR (foldR f (concat (map postorder (children n))) s)
      (visit_loop f ((n, True, d) # stack))"
    by (rule visit_loop_children) (rule IH)
  also have "\<dots> = bindR (foldR f (postorder n) s) (visit_loop f stack)"
    by (subst postorder.simps) (simp add: foldR_append bindR_assoc last)
  finally show ?case .
qed

lemma visitExpression_postorder:
  "height n \<le> 256 \<Longrightarrow> visitExpression n f s = foldR f (postorder n) s"
  by (cases "foldR f (postorder n) s")
    (simp_all add: visitExpression_def visit_loop_within_depth)

text \<open>A visitor that never throws meets the limit on every tree that is too deep.\<close>

lemma foldR_total:
  assumes "\<And>x s. \<exists>s'. f x s = Inr s'"
  shows "\<exists>s'. foldR f xs s = Inr s'"
proof (induction xs arbitrary: s)
  case Nil
  then show ?case by simp
next
  case (Cons x xs)
  obtain s' where "f x s = Inr s'" using assms by blast
  then show ?case using Cons.IH [of s'] by simp
qed

lemma visit_loop_deep_child:
  assumes total: "\<And>m s. \<exists>s'. f m s = Inr s'"
    and deep: "\<And>c stack s. c \<in> set cs \<Longrightarrow> 256 < height c + d \<Longrightarrow> visit_loop f ((c, False, d) # stack) s = Inl e"
    and ex: "\<exists>c \<in> set cs. 256 < height c + d"
  shows "visit_loop f (map (\<lambda>c. (c, False, d)) cs @ stack) s = Inl e"
  using deep ex
proof (induction cs arbitrary: s)
  case Nil
  then show ?case by simp
next
  case (Cons c cs)
  show ?case
  proof (cases "256 < height c + d")
    case True
    then show ?thesis using Cons.prems(1) [of c] by simp
  next
    case False
    obtain s' where "foldR f (postorder c) s = Inr s'" using foldR_total [of f] total by blast
    then show ?thesis using Cons False by (simp add: visit_loop_within_depth)
  qed
qed

lemma visit_loop_too_deep:
  assumes total: "\<And>m s. \<exists>s'. f m s = Inr s'"
  shows "256 < height n + d \<Longrightarrow>
     visit_loop f ((n, False, d) # stack) s = Inl (billing_error Limit (js ''expression depth'') None)"
proof (induction n arbitrary: d stack s rule: node_count.induct)
  case (1 n)
  show ?case
  proof (cases "256 < d")
    case True
    then show ?thesis by (simp add: visit_loop.simps(2))
  next
    case False
    then have "\<not> height n \<le> 256 - d" using "1.prems" by simp
    then have "\<exists>c \<in> set (children n). 256 < height c + (d + 1)" using False by (subst (asm) height_le) fastforce
    then show ?thesis using False "1.IH"
      by (subst visit_loop.simps(2)) (simp add: visit_loop_deep_child [OF total])
  qed
qed

lemma visitExpression_too_deep:
  "(\<And>m s. \<exists>s'. f m s = Inr s') \<Longrightarrow> 256 < height n \<Longrightarrow>
     visitExpression n f s = Inl (billing_error Limit (js ''expression depth'') None)"
  by (simp add: visitExpression_def visit_loop_too_deep)

section \<open>Dependencies are the names that occur\<close>

fun variable_names :: "ExpressionNode \<Rightarrow> jsstr list" where
  "variable_names (Variable x _ _) = [x]"
| "variable_names _ = []"

fun function_names :: "ExpressionNode \<Rightarrow> jsstr list" where
  "function_names (Call f _ _ _) = [f]"
| "function_names _ = []"

definition names_in :: "(ExpressionNode \<Rightarrow> jsstr list) \<Rightarrow> ExpressionNode \<Rightarrow> jsstr set" where
  "names_in f e = (\<Union>n \<in> set (postorder e). set (f n))"

definition set_of :: "'a list \<Rightarrow> 'a list" where
  "set_of xs = foldl (\<lambda>s x. set_add x s) [] xs"

lemma foldl_set_add:
  "set (foldl (\<lambda>s x. set_add x s) ys xs) = set ys \<union> set xs"
  "distinct (foldl (\<lambda>s x. set_add x s) ys xs) = distinct ys"
  by (induction xs arbitrary: ys) auto

lemma set_of_simps [simp]: "set (set_of xs) = set xs" "distinct (set_of xs)"
  by (simp_all add: set_of_def foldl_set_add)

lemma dependency_visitor_step:
  "dependency_visitor n (vs, fs) = Inr (foldl (\<lambda>s x. set_add x s) vs (variable_names n),
     foldl (\<lambda>s x. set_add x s) fs (function_names n))"
  by (cases n) (simp_all add: dependency_visitor_def)

lemma foldR_dependencies:
  "foldR dependency_visitor ns (vs, fs) =
     Inr (foldl (\<lambda>s x. set_add x s) vs (concat (map variable_names ns)),
          foldl (\<lambda>s x. set_add x s) fs (concat (map function_names ns)))"
  by (induction ns arbitrary: vs fs) (simp_all add: dependency_visitor_step)

lemma expressionDependencies_names:
  assumes "height e \<le> 256"
  shows "expressionDependencies e =
    Inr (set_of (concat (map variable_names (postorder e))), set_of (concat (map function_names (postorder e))))"
  using assms
  by (simp add: expressionDependencies_def visitExpression_postorder foldR_dependencies set_of_def)

lemma expressionDependencies_deep:
  "256 < height e \<Longrightarrow> expressionDependencies e = Inl (billing_error Limit (js ''expression depth'') None)"
  unfolding expressionDependencies_def
  by (rule visitExpression_too_deep) (auto simp: dependency_visitor_def)

end
