(* ===== verification/Lexer.thy ===== *)
theory Lexer
  imports Expr_Types
begin

text \<open>
  The lexer of the billing expression language: the constructor and the \<open>next\<close> method of
  \<open>BillingParser\<close> (\<^verbatim>\<open>features/pricing/lib/billing-expression/parser.ts\<close>). The regular expressions of
  the source are scanners over the rest of the text. The lexer's state is the cursor into the source
  and the number of lexemes read, which is limited to 10000.
\<close>

datatype LexemeKind = K_number | K_string | K_symbol | K_name | K_end

record Lexeme =
  lx_kind :: LexemeKind
  lx_text :: jsstr
  lx_start :: nat
  lx_end :: nat
  lx_value :: "literal option"
  lx_integer :: bool

definition plain_lexeme :: "LexemeKind \<Rightarrow> jsstr \<Rightarrow> nat \<Rightarrow> nat \<Rightarrow> Lexeme" where
  "plain_lexeme k t a b =
     \<lparr>lx_kind = k, lx_text = t, lx_start = a, lx_end = b, lx_value = None, lx_integer = False\<rparr>"

section \<open>Strings\<close>

text \<open>The escapes after a backslash that stand for one character.\<close>

definition string_escapes :: "(code_unit \<times> code_unit) list" where
  "string_escapes = [(110, 10), (114, 13), (116, 9), (98, 8), (102, 12), (118, 11), (92, 92),
     (34, 34), (39, 39), (47, 47)]"

text \<open>
  The loop over the characters of a string after its opening quote: \<open>start\<close> is the position of the
  quote, \<open>cursor\<close> the position of the first character of \<open>rest\<close>, \<open>value\<close> what was read so far. The
  result is the value and the cursor after the closing quote.
\<close>

function lex_string_body ::
  "code_unit \<Rightarrow> nat \<Rightarrow> nat \<Rightarrow> jsstr \<Rightarrow> jsstr \<Rightarrow> exn + jsstr \<times> nat" where
  "lex_string_body quote start cursor [] value =
     Inl (billing_error Syntax (js ''unterminated string'') (Some start))"
| "lex_string_body quote start cursor (char # rest) value =
     (if char = quote then Inr (value, cursor + 1)
      else if char = 10 \<or> char = 13 then
        Inl (billing_error Syntax (js ''unterminated string'') (Some start))
      else if char \<noteq> 92 then lex_string_body quote start (cursor + 1) rest (value @ [char])
      else case rest of
             [] \<Rightarrow> Inl (billing_error Unsupported (js ''string escape'') (Some (cursor + 1)))
           | escaped # rest' \<Rightarrow>
               (case map_of string_escapes escaped of
                  Some e \<Rightarrow> lex_string_body quote start (cursor + 2) rest' (value @ [e])
                | None \<Rightarrow>
                    if escaped = 117 \<or> escaped = 120 then
                      (let len = (if escaped = 117 then 4 else 2); hex = take len rest'
                       in if length hex \<noteq> len \<or> \<not> list_all is_hex hex
                          then Inl (billing_error Syntax (js ''unterminated string'') (Some start))
                          else lex_string_body quote start (cursor + 2 + len) (drop len rest')
                                 (value @ [parse_hex hex]))
                    else Inl (billing_error Unsupported (js ''string escape'') (Some (cursor + 1)))))"
  by pat_completeness auto
termination
  by (relation "measure (\<lambda>(_, _, _, rest, _). length rest)") auto

section \<open>Lexemes\<close>

definition two_char_operators :: "jsstr list" where
  "two_char_operators = [js ''&&'', js ''||'', js ''=='', js ''!='', js ''<='', js ''>='']"

definition one_char_operators :: jsstr where
  "one_char_operators = js ''+-*/%<>()!?:,''"

text \<open>The match of the operator pattern at the start of the text; empty when there is none.\<close>

definition match_operator :: "jsstr \<Rightarrow> jsstr" where
  "match_operator rest =
     (if take 2 rest \<in> set two_char_operators then take 2 rest
      else case rest of c # _ \<Rightarrow> if c \<in> set one_char_operators then [c] else [] | [] \<Rightarrow> [])"

text \<open>The match of \<open>[A-Za-z_][\w]*\<close>; empty when there is none.\<close>

definition match_name :: "jsstr \<Rightarrow> jsstr" where
  "match_name rest =
     (case rest of c # _ \<Rightarrow> if is_name_start c then takeWhile is_word rest else [] | [] \<Rightarrow> [])"

text \<open>\<open>next()\<close>: the lexeme at the cursor, with the new cursor and lexeme count.\<close>

definition lex_next :: "jsstr \<Rightarrow> nat \<Rightarrow> nat \<Rightarrow> exn + Lexeme \<times> nat \<times> nat" where
  "lex_next src cursor count =
     (let count = count + 1
      in if 10000 < count then Inl (billing_error Limit (js ''expression tokens'') None)
         else
           let start = cursor + length (takeWhile is_space (drop cursor src));
               rest = drop start src
           in if rest = [] then Inr (plain_lexeme K_end [] start start, start, count)
              else
                let number = match_number rest
                in if number \<noteq> [] then
                     let val = num_of_decimal number;
                         integer = (\<not> list_ex (\<lambda>c. c = 46 \<or> c = 101 \<or> c = 69) number);
                         cursor = start + length number
                     in if \<not> isFinite val then Inl (billing_error Number_code number (Some start))
                        else if integer \<and> \<not> isSafeInteger val then
                          Inl (billing_error Unsupported (js ''integer precision'') (Some start))
                        else Inr (\<lparr>lx_kind = K_number, lx_text = number, lx_start = start,
                                    lx_end = cursor, lx_value = Some (LNum val),
                                    lx_integer = integer\<rparr>, cursor, count)
                   else if hd rest = 34 \<or> hd rest = 39 then
                     bindR (lex_string_body (hd rest) start (start + 1) (tl rest) [])
                       (\<lambda>(val, cursor).
                          Inr (\<lparr>lx_kind = K_string, lx_text = slice src start cursor,
                                 lx_start = start, lx_end = cursor, lx_value = Some (LStr val),
                                 lx_integer = False\<rparr>, cursor, count))
                   else
                     let name = match_name rest
                     in if name \<noteq> [] then
                          Inr (plain_lexeme K_name name start (start + length name),
                               start + length name, count)
                        else
                          let operator = match_operator rest
                          in if operator = []
                             then Inl (billing_error Unsupported [hd rest] (Some start))
                             else Inr (plain_lexeme K_symbol operator start (start + length operator),
                                       start + length operator, count))"

text \<open>
  The match of \<open>^\s*v(\d+):\<close> as the whole match and the digits.
\<close>

definition match_version :: "jsstr \<Rightarrow> (jsstr \<times> jsstr) option" where
  "match_version src =
     (let sp = takeWhile is_space src
      in case strip_char 118 (drop (length sp) src) of
           None \<Rightarrow> None
         | Some r \<Rightarrow>
             (let ds = takeWhile is_digit r
              in if ds = [] then None
                 else case strip_char 58 (drop (length ds) r) of
                        None \<Rightarrow> None
                      | Some _ \<Rightarrow> Some (sp @ 118 # ds @ [58], ds)))"

section \<open>What the lexer guarantees\<close>

lemma lex_string_body_cursor:
  "lex_string_body q st cur rest val = Inr (v, cur') \<Longrightarrow> cur < cur' \<and> cur' \<le> cur + length rest"
proof (induction q st cur rest val rule: lex_string_body.induct)
  case (1 quote start cursor "value")
  then show ?case by simp
next
  case (2 quote start cursor char rest "value")
  show ?case
  proof (cases rest)
    case Nil
    then show ?thesis using 2 by (fastforce split: if_splits)
  next
    case (Cons e r)
    show ?thesis
      using "2.prems" "2.IH"(1) "2.IH"(2) [of e r] "2.IH"(3) [of e r] Cons
      by (fastforce simp: Let_def split: if_splits option.splits)
  qed
qed

lemma match_operator_prefix: "prefix (match_operator rest) rest"
  by (auto simp: match_operator_def take_is_prefix split: list.splits)

lemma match_operator_length: "length (match_operator rest) \<le> length rest"
  by (auto simp: match_operator_def two_char_operators_def split: if_splits list.splits)

lemma match_name_length: "length (match_name rest) \<le> length rest"
  by (auto simp: match_name_def length_takeWhile_le split: list.splits)

text \<open>
  A lexeme lies in the source, starts at or after the cursor and, unless it is the end of the text,
  is not empty; the new cursor is its end and one more lexeme is counted.
\<close>

lemma lex_next_props:
  assumes "lex_next src cur cnt = Inr (lx, cur', cnt')"
  shows "cnt' = cnt + 1" "cnt' \<le> 10000" "cur' = lx_end lx" "cur \<le> lx_start lx"
    "lx_kind lx \<noteq> K_end \<Longrightarrow> lx_start lx < lx_end lx \<and> lx_end lx \<le> length src"
    "lx_kind lx = K_end \<Longrightarrow> lx_text lx = [] \<and> lx_start lx = lx_end lx"
proof -
  define start where "start = cur + length (takeWhile is_space (drop cur src))"
  define rest where "rest = drop start src"
  have len: "rest \<noteq> [] \<Longrightarrow> start + length rest = length src"
    using drop_nonempty_less by (force simp: rest_def)
  have ls: "rest \<noteq> [] \<Longrightarrow> lex_string_body (hd rest) start (start + 1) (tl rest) [] = Inr (v, c)
      \<Longrightarrow> start < c \<and> c \<le> length src" for v c
    using lex_string_body_cursor [of "hd rest" start "start + 1" "tl rest" "[]" v c] len
    by (cases rest) auto
  note parts = match_number_length [of rest] match_name_length [of rest] match_operator_length [of rest]
  note eq = assms [unfolded lex_next_def, folded start_def, unfolded Let_def, folded start_def,
      folded rest_def]
  show "cnt' = cnt + 1" "cnt' \<le> 10000" "cur' = lx_end lx" "cur \<le> lx_start lx"
    using eq by (auto simp: plain_lexeme_def start_def bindR_eq_Inr split: if_splits)
  show "lx_kind lx \<noteq> K_end \<Longrightarrow> lx_start lx < lx_end lx \<and> lx_end lx \<le> length src"
    using eq len parts ls by (auto simp: plain_lexeme_def bindR_eq_Inr split: if_splits)
  show "lx_kind lx = K_end \<Longrightarrow> lx_text lx = [] \<and> lx_start lx = lx_end lx"
    using eq by (auto simp: plain_lexeme_def bindR_eq_Inr split: if_splits)
qed

end
