(* ===== verification/Parser.thy ===== *)
theory Parser
  imports Lexer
begin

text \<open>
  The parser of the billing expression language: the methods of \<open>BillingParser\<close>
  (\<^verbatim>\<open>features/pricing/lib/billing-expression/parser.ts\<close>). The object's fields are the record
  \<open>pstate\<close>; the source text is a parameter. \<open>expression\<close>, its operator loop, \<open>primary\<close> and the loop over
  call arguments are mutually recursive. They terminate because every round reads a lexeme and the
  lexer refuses to read more than 10000.
\<close>

definition PRECEDENCE :: "(jsstr \<times> nat) list" where
  "PRECEDENCE = [(js ''||'', 1), (js ''&&'', 2), (js ''=='', 3), (js ''!='', 3), (js ''<'', 4),
     (js ''<='', 4), (js ''>'', 4), (js ''>='', 4), (js ''+'', 5), (js ''-'', 5), (js ''*'', 6),
     (js ''/'', 6), (js ''%'', 6)]"

record pstate =
  p_cursor :: nat
  p_count :: nat
  p_depth :: nat
  p_current :: Lexeme

text \<open>The constructor: length limit, version prefix, first lexeme.\<close>

definition parser_init :: "jsstr \<Rightarrow> exn + pstate" where
  "parser_init src =
     (if 65536 < length src then Inl (billing_error Limit (js ''expression length'') None)
      else bindR (case match_version src of
                    None \<Rightarrow> Inr 0
                  | Some (whole, digits) \<Rightarrow>
                      if digits \<noteq> js ''1'' then Inl (billing_error Unsupported whole None)
                      else Inr (length whole))
             (\<lambda>cursor. bindR (lex_next src cursor 0)
                (\<lambda>(lx, cursor, count).
                   Inr \<lparr>p_cursor = cursor, p_count = count, p_depth = 0, p_current = lx\<rparr>)))"

definition take_lexeme :: "jsstr \<Rightarrow> pstate \<Rightarrow> exn + Lexeme \<times> pstate" where
  "take_lexeme src st =
     bindR (lex_next src (p_cursor st) (p_count st))
       (\<lambda>(lx, cursor, count).
          Inr (p_current st, st\<lparr>p_cursor := cursor, p_count := count, p_current := lx\<rparr>))"

definition current_is :: "jsstr \<Rightarrow> pstate \<Rightarrow> bool" where
  "current_is t st \<longleftrightarrow> lx_text (p_current st) = t"

definition expect_lexeme :: "jsstr \<Rightarrow> jsstr \<Rightarrow> pstate \<Rightarrow> exn + Lexeme \<times> pstate" where
  "expect_lexeme src t st =
     (if lx_text (p_current st) \<noteq> t
      then Inl (billing_error Syntax (js ''expected '' @ t) (Some (lx_start (p_current st))))
      else take_lexeme src st)"

lemma take_lexeme_count:
  "take_lexeme src st = Inr (lx, st') \<Longrightarrow> p_count st' = p_count st + 1 \<and> p_count st' \<le> 10000"
  by (auto simp: take_lexeme_def bindR_eq_Inr dest: lex_next_props(1,2))

lemma expect_lexeme_count:
  "expect_lexeme src t st = Inr (lx, st') \<Longrightarrow> p_count st' = p_count st + 1 \<and> p_count st' \<le> 10000"
  by (auto simp: expect_lexeme_def dest: take_lexeme_count split: if_splits)

function expression :: "jsstr \<Rightarrow> nat \<Rightarrow> pstate \<Rightarrow> exn + ExpressionNode \<times> pstate"
  and binary_loop :: "jsstr \<Rightarrow> nat \<Rightarrow> ExpressionNode \<Rightarrow> pstate \<Rightarrow> exn + ExpressionNode \<times> pstate"
  and primary :: "jsstr \<Rightarrow> pstate \<Rightarrow> exn + ExpressionNode \<times> pstate"
  and call_arguments :: "jsstr \<Rightarrow> ExpressionNode list \<Rightarrow> pstate \<Rightarrow> exn + ExpressionNode list \<times> pstate"
where
  "expression src minimum st =
     (let st = st\<lparr>p_depth := p_depth st + 1\<rparr>
      in if 128 < p_depth st then Inl (billing_error Limit (js ''expression depth'') None)
         else
           bindR (primary src st) (\<lambda>(lhs, st).
           bindR (binary_loop src minimum lhs st) (\<lambda>(lhs, st).
           bindR (if minimum = 0 \<and> lx_text (p_current st) = js ''?'' then
                    bindR (take_lexeme src st) (\<lambda>(_, st).
                    bindR (expression src 0 st) (\<lambda>(y, st).
                    bindR (expect_lexeme src (js '':'') st) (\<lambda>(_, st).
                    bindR (expression src 0 st) (\<lambda>(n, st).
                    Inr (Conditional lhs y n (node_start lhs) (node_end n), st)))))
                  else Inr (lhs, st)) (\<lambda>(lhs, st).
           Inr (lhs, st\<lparr>p_depth := p_depth st - 1\<rparr>)))))"
| "binary_loop src minimum lhs st =
     (case map_of PRECEDENCE (lx_text (p_current st)) of
        None \<Rightarrow> Inr (lhs, st)
      | Some prec \<Rightarrow>
          if prec < minimum then Inr (lhs, st)
          else
            bindR (take_lexeme src st) (\<lambda>(operator, st).
            bindR (expression src (prec + 1) st) (\<lambda>(rhs, st).
            binary_loop src minimum
              (Binary (lx_text operator) lhs rhs (node_start lhs) (node_end rhs)) st)))"
| "primary src st =
     bindR (take_lexeme src st) (\<lambda>(token, st).
       if lx_kind token = K_number then
         Inr (Literal (case lx_value token of Some v \<Rightarrow> v | None \<Rightarrow> LNull) (lx_integer token)
                (lx_start token) (lx_end token), st)
       else if lx_kind token = K_string then
         Inr (Literal (case lx_value token of Some v \<Rightarrow> v | None \<Rightarrow> LNull) False
                (lx_start token) (lx_end token), st)
       else if lx_text token = js ''('' then
         bindR (expression src 0 st) (\<lambda>(e, st).
         bindR (expect_lexeme src (js '')'') st) (\<lambda>(close, st).
         Inr (respan e (lx_start token) (lx_end close), st)))
       else if lx_text token \<in> {js ''!'', js ''+'', js ''-''} then
         bindR (expression src 7 st) (\<lambda>(x, st).
         Inr (Unary (lx_text token) x (lx_start token) (node_end x), st))
       else if lx_kind token \<noteq> K_name then
         Inl (billing_error Syntax (lx_text token) (Some (lx_start token)))
       else if lx_text token = js ''nil'' then
         Inr (Literal LNull False (lx_start token) (lx_end token), st)
       else if lx_text token = js ''true'' \<or> lx_text token = js ''false'' then
         Inr (Literal (LBool (lx_text token = js ''true'')) False (lx_start token) (lx_end token), st)
       else if \<not> current_is (js ''('') st then
         (if lx_text token \<in> set BILLING_VARIABLES
          then Inr (Variable (lx_text token) (lx_start token) (lx_end token), st)
          else Inl (billing_error Unsupported (lx_text token) (Some (lx_start token))))
       else
         (case map_of BILLING_FUNCTIONS (lx_text token) of
            None \<Rightarrow> Inl (billing_error Unsupported (lx_text token) (Some (lx_start token)))
          | Some arity \<Rightarrow>
              bindR (take_lexeme src st) (\<lambda>(_, st).
              bindR (call_arguments src [] st) (\<lambda>(args, st).
              bindR (expect_lexeme src (js '')'') st) (\<lambda>(close, st).
              if length args \<noteq> arity
              then Inl (billing_error Type_code (lx_text token) (Some (lx_start token)))
              else Inr (Call (lx_text token) args (lx_start token) (lx_end close), st))))))"
| "call_arguments src args st =
     (if current_is (js '')'') st then Inr (args, st)
      else
        bindR (expression src 0 st) (\<lambda>(e, st).
        if \<not> current_is (js '','') st then Inr (args @ [e], st)
        else bindR (take_lexeme src st) (\<lambda>(_, st). call_arguments src (args @ [e]) st)))"
  by pat_completeness auto

section \<open>The grammar the parser follows\<close>

text \<open>
  The successful runs of the parser as a relation, one rule per production: \<open>parse_expr src m st e st'\<close>
  says that from state \<open>st\<close> an expression whose binary operators all bind at least as strongly as \<open>m\<close>
  is read as the tree \<open>e\<close>, leaving state \<open>st'\<close>. The functions above compute exactly this relation.
\<close>

definition atom_node :: "Lexeme \<Rightarrow> pstate \<Rightarrow> ExpressionNode \<Rightarrow> bool" where
  "atom_node token st n \<longleftrightarrow>
     (lx_kind token = K_number \<and>
        n = Literal (case lx_value token of Some v \<Rightarrow> v | None \<Rightarrow> LNull) (lx_integer token)
              (lx_start token) (lx_end token)) \<or>
     (lx_kind token = K_string \<and>
        n = Literal (case lx_value token of Some v \<Rightarrow> v | None \<Rightarrow> LNull) False
              (lx_start token) (lx_end token)) \<or>
     (lx_kind token = K_name \<and> lx_text token = js ''nil'' \<and>
        n = Literal LNull False (lx_start token) (lx_end token)) \<or>
     (lx_kind token = K_name \<and> lx_text token \<in> {js ''true'', js ''false''} \<and>
        n = Literal (LBool (lx_text token = js ''true'')) False (lx_start token) (lx_end token)) \<or>
     (lx_kind token = K_name \<and> lx_text token \<in> set BILLING_VARIABLES \<and> \<not> current_is (js ''('') st \<and>
        n = Variable (lx_text token) (lx_start token) (lx_end token))"

inductive parse_expr :: "jsstr \<Rightarrow> nat \<Rightarrow> pstate \<Rightarrow> ExpressionNode \<Rightarrow> pstate \<Rightarrow> bool"
  and parse_loop :: "jsstr \<Rightarrow> nat \<Rightarrow> ExpressionNode \<Rightarrow> pstate \<Rightarrow> ExpressionNode \<Rightarrow> pstate \<Rightarrow> bool"
  and parse_prim :: "jsstr \<Rightarrow> pstate \<Rightarrow> ExpressionNode \<Rightarrow> pstate \<Rightarrow> bool"
  and parse_args :: "jsstr \<Rightarrow> ExpressionNode list \<Rightarrow> pstate \<Rightarrow> ExpressionNode list \<Rightarrow> pstate \<Rightarrow> bool"
  for src :: jsstr where
  expr_plain:
    "p_depth st < 128 \<Longrightarrow> parse_prim src (st\<lparr>p_depth := p_depth st + 1\<rparr>) l st1 \<Longrightarrow>
     parse_loop src m l st1 e st2 \<Longrightarrow> \<not> (m = 0 \<and> lx_text (p_current st2) = js ''?'') \<Longrightarrow>
     parse_expr src m st e (st2\<lparr>p_depth := p_depth st2 - 1\<rparr>)"
| expr_conditional:
    "p_depth st < 128 \<Longrightarrow> parse_prim src (st\<lparr>p_depth := p_depth st + 1\<rparr>) l st1 \<Longrightarrow>
     parse_loop src 0 l st1 c st2 \<Longrightarrow> lx_text (p_current st2) = js ''?'' \<Longrightarrow>
     take_lexeme src st2 = Inr (q, st3) \<Longrightarrow> parse_expr src 0 st3 y st4 \<Longrightarrow>
     expect_lexeme src (js '':'') st4 = Inr (k, st5) \<Longrightarrow> parse_expr src 0 st5 n st6 \<Longrightarrow>
     parse_expr src 0 st (Conditional c y n (node_start c) (node_end n))
       (st6\<lparr>p_depth := p_depth st6 - 1\<rparr>)"
| loop_stop:
    "(\<forall>prec. map_of PRECEDENCE (lx_text (p_current st)) = Some prec \<longrightarrow> prec < m) \<Longrightarrow>
     parse_loop src m l st l st"
| loop_step:
    "map_of PRECEDENCE (lx_text (p_current st)) = Some prec \<Longrightarrow> m \<le> prec \<Longrightarrow>
     take_lexeme src st = Inr (t, st1) \<Longrightarrow> parse_expr src (prec + 1) st1 r st2 \<Longrightarrow>
     parse_loop src m (Binary (lx_text t) l r (node_start l) (node_end r)) st2 e st3 \<Longrightarrow>
     parse_loop src m l st e st3"
| prim_atom:
    "take_lexeme src st = Inr (t, st1) \<Longrightarrow> atom_node t st1 n \<Longrightarrow> parse_prim src st n st1"
| prim_paren:
    "take_lexeme src st = Inr (t, st1) \<Longrightarrow> lx_kind t \<noteq> K_number \<Longrightarrow> lx_kind t \<noteq> K_string \<Longrightarrow>
     lx_text t = js ''('' \<Longrightarrow> parse_expr src 0 st1 e st2 \<Longrightarrow>
     expect_lexeme src (js '')'') st2 = Inr (k, st3) \<Longrightarrow>
     parse_prim src st (respan e (lx_start t) (lx_end k)) st3"
| prim_unary:
    "take_lexeme src st = Inr (t, st1) \<Longrightarrow> lx_kind t \<noteq> K_number \<Longrightarrow> lx_kind t \<noteq> K_string \<Longrightarrow>
     lx_text t \<in> {js ''!'', js ''+'', js ''-''} \<Longrightarrow> parse_expr src 7 st1 e st2 \<Longrightarrow>
     parse_prim src st (Unary (lx_text t) e (lx_start t) (node_end e)) st2"
| prim_call:
    "take_lexeme src st = Inr (t, st1) \<Longrightarrow> lx_kind t = K_name \<Longrightarrow>
     lx_text t \<notin> {js ''nil'', js ''true'', js ''false''} \<Longrightarrow> current_is (js ''('') st1 \<Longrightarrow>
     map_of BILLING_FUNCTIONS (lx_text t) = Some (length args) \<Longrightarrow>
     take_lexeme src st1 = Inr (o1, st2) \<Longrightarrow> parse_args src [] st2 args st3 \<Longrightarrow>
     expect_lexeme src (js '')'') st3 = Inr (k, st4) \<Longrightarrow>
     parse_prim src st (Call (lx_text t) args (lx_start t) (lx_end k)) st4"
| args_close:
    "current_is (js '')'') st \<Longrightarrow> parse_args src args st args st"
| args_last:
    "\<not> current_is (js '')'') st \<Longrightarrow> parse_expr src 0 st e st1 \<Longrightarrow> \<not> current_is (js '','') st1 \<Longrightarrow>
     parse_args src args st (args @ [e]) st1"
| args_more:
    "\<not> current_is (js '')'') st \<Longrightarrow> parse_expr src 0 st e st1 \<Longrightarrow> current_is (js '','') st1 \<Longrightarrow>
     take_lexeme src st1 = Inr (k, st2) \<Longrightarrow> parse_args src (args @ [e]) st2 args' st3 \<Longrightarrow>
     parse_args src args st args' st3"

lemmas parse_induct = parse_expr_parse_loop_parse_prim_parse_args.inducts

text \<open>Every run reads at least one lexeme, so the number of lexemes read bounds the recursion.\<close>

lemma parse_count:
  "parse_expr src m st e st' \<Longrightarrow> p_count st < p_count st'"
  "parse_loop src m l st e st' \<Longrightarrow> p_count st \<le> p_count st'"
  "parse_prim src st e st' \<Longrightarrow> p_count st < p_count st'"
  "parse_args src as st es st' \<Longrightarrow> p_count st \<le> p_count st'"
  by (induction rule: parse_induct) (auto dest!: take_lexeme_count expect_lexeme_count)

text \<open>A successful run of the functions, on arguments where they are defined, is a run of the relation.\<close>

lemma expr_steps:
  assumes "\<not> 128 < p_depth (st\<lparr>p_depth := p_depth st + 1\<rparr>)"
  shows "p_depth st < 128"
  using assms by simp

lemma parser_sound_dom:
  "expression_binary_loop_primary_call_arguments_dom (Inl (Inl (src, m, st))) \<Longrightarrow>
     expression src m st = Inr (e, st') \<Longrightarrow> parse_expr src m st e st'"
  "expression_binary_loop_primary_call_arguments_dom (Inl (Inr (src, m, l, st))) \<Longrightarrow>
     binary_loop src m l st = Inr (e, st') \<Longrightarrow> parse_loop src m l st e st'"
  "expression_binary_loop_primary_call_arguments_dom (Inr (Inl (src, st))) \<Longrightarrow>
     primary src st = Inr (e, st') \<Longrightarrow> parse_prim src st e st'"
  "expression_binary_loop_primary_call_arguments_dom (Inr (Inr (src, as, st))) \<Longrightarrow>
     call_arguments src as st = Inr (es, st') \<Longrightarrow> parse_args src as st es st'"
proof (induction src m st and src m l st and src st and src as st
    arbitrary: e st' and e st' and e st' and es st'
    rule: expression_binary_loop_primary_call_arguments.pinduct)
  case (1 src m st)
  let ?st = "st\<lparr>p_depth := p_depth st + 1\<rparr>"
  have d: "\<not> 128 < p_depth ?st"
    using 1(6) unfolding expression.psimps [OF 1(1)] Let_def by (auto split: if_splits)
  obtain l st1 c st2 where p: "primary src ?st = Inr (l, st1)"
    and b: "binary_loop src m l st1 = Inr (c, st2)"
    and rest: "bindR (if m = 0 \<and> lx_text (p_current st2) = js ''?'' then
                    bindR (take_lexeme src st2) (\<lambda>(_, st).
                    bindR (expression src 0 st) (\<lambda>(y, st).
                    bindR (expect_lexeme src (js '':'') st) (\<lambda>(_, st).
                    bindR (expression src 0 st) (\<lambda>(n, st).
                    Inr (Conditional c y n (node_start c) (node_end n), st)))))
                  else Inr (c, st2)) (\<lambda>(lhs, st). Inr (lhs, st\<lparr>p_depth := p_depth st - 1\<rparr>)) = Inr (e, st')"
    using 1(6) d unfolding expression.psimps [OF 1(1)] Let_def
    by (auto elim!: bindR_pairE simp del: bindR_eq_Inr)
  note P = 1(2) [OF refl d p] and B = 1(3) [OF refl d p refl b]
  show ?case
  proof (cases "m = 0 \<and> lx_text (p_current st2) = js ''?''")
    case False
    then show ?thesis using rest expr_plain [OF expr_steps [OF d] P B] by auto
  next
    case True
    obtain q st3 y st4 k st5 n st6 where t: "take_lexeme src st2 = Inr (q, st3)"
      and y: "expression src 0 st3 = Inr (y, st4)" and x: "expect_lexeme src (js '':'') st4 = Inr (k, st5)"
      and n: "expression src 0 st5 = Inr (n, st6)"
      and e: "e = Conditional c y n (node_start c) (node_end n)" "st' = st6\<lparr>p_depth := p_depth st6 - 1\<rparr>"
      using rest True by (auto elim!: bindR_pairE simp del: bindR_eq_Inr)
    show ?thesis unfolding e
      using expr_conditional [OF expr_steps [OF d] P _ _ t 1(4) [OF refl d p refl b refl True t refl y] x
          1(5) [OF refl d p refl b refl True t refl y refl x refl n]] B True by simp
  qed
next
  case (2 src m l st)
  show ?case
  proof (cases "map_of PRECEDENCE (lx_text (p_current st))")
    case None
    then show ?thesis using 2(4) unfolding binary_loop.psimps [OF 2(1)] by (auto intro!: loop_stop)
  next
    case (Some prec)
    show ?thesis
    proof (cases "prec < m")
      case True
      then show ?thesis using 2(4) Some unfolding binary_loop.psimps [OF 2(1)] by (auto intro!: loop_stop)
    next
      case False
      obtain t st1 r st2 where t: "take_lexeme src st = Inr (t, st1)"
        and x: "expression src (prec + 1) st1 = Inr (r, st2)"
        and b: "binary_loop src m (Binary (lx_text t) l r (node_start l) (node_end r)) st2 = Inr (e, st')"
        using 2(4) Some False unfolding binary_loop.psimps [OF 2(1)]
        by (auto elim!: bindR_pairE simp del: bindR_eq_Inr)
      show ?thesis
        using loop_step [OF Some _ t 2(2) [OF Some False t refl x] 2(3) [OF Some False t refl x refl b]] False
        by simp
    qed
  qed
next
  case (3 src st)
  obtain t st1 where t: "take_lexeme src st = Inr (t, st1)"
    using 3(5) unfolding primary.psimps [OF 3(1)] by (auto elim!: bindR_pairE simp del: bindR_eq_Inr)
  note eq = 3(5) [unfolded primary.psimps [OF 3(1)], unfolded t, unfolded bindR_simps, unfolded prod.case]
  show ?case
  proof (cases "atom_node t st1 e \<and> st' = st1")
    case True
    then show ?thesis using prim_atom [OF t] by simp
  next
    case na: False
    have k1: "lx_kind t \<noteq> K_number" and k2: "lx_kind t \<noteq> K_string"
      using eq na by (auto simp: atom_node_def)
    show ?thesis
    proof (cases "lx_text t = js ''(''")
      case True
      obtain x st2 k where x: "expression src 0 st1 = Inr (x, st2)"
        and k: "expect_lexeme src (js '')'') st2 = Inr (k, st')" and e: "e = respan x (lx_start t) (lx_end k)"
        using eq k1 k2 True by (auto elim!: bindR_pairE simp del: bindR_eq_Inr)
      show ?thesis unfolding e by (rule prim_paren [OF t k1 k2 True 3(2) [OF t refl k1 k2 True x] k])
    next
      case p: False
      show ?thesis
      proof (cases "lx_text t \<in> {js ''!'', js ''+'', js ''-''}")
        case True
        obtain x where x: "expression src 7 st1 = Inr (x, st')"
          and e: "e = Unary (lx_text t) x (lx_start t) (node_end x)"
          using eq k1 k2 p True by (auto elim!: bindR_pairE simp del: bindR_eq_Inr)
        show ?thesis unfolding e by (rule prim_unary [OF t k1 k2 True 3(3) [OF t refl k1 k2 p True x]])
      next
        case u: False
        have kn: "lx_kind t = K_name" and nl: "lx_text t \<notin> {js ''nil'', js ''true'', js ''false''}"
          and call: "current_is (js ''('') st1"
          using eq k1 k2 p u na by (auto simp: atom_node_def split: if_splits)
        obtain ar o1 st2 args st3 k where ar: "map_of BILLING_FUNCTIONS (lx_text t) = Some ar"
          and t3: "take_lexeme src st1 = Inr (o1, st2)" and a: "call_arguments src [] st2 = Inr (args, st3)"
          and k: "expect_lexeme src (js '')'') st3 = Inr (k, st')" and len: "length args = ar"
          and e: "e = Call (lx_text t) args (lx_start t) (lx_end k)"
          using eq k1 k2 p u kn nl call
          by (auto split: option.splits if_splits elim!: bindR_pairE simp del: bindR_eq_Inr)
        have A: "parse_args src [] st2 args st3"
          using 3(4) [OF t refl k1 k2 p u _ _ _ _ ar t3 refl a] kn nl call by simp
        show ?thesis unfolding e using prim_call [OF t kn nl call _ t3 A k] ar len by simp
      qed
    qed
  qed
next
  case (4 src as st)
  show ?case
  proof (cases "current_is (js '')'') st")
    case True
    then show ?thesis using 4(4) unfolding call_arguments.psimps [OF 4(1)] by (auto intro: args_close)
  next
    case False
    obtain x st1 where x: "expression src 0 st = Inr (x, st1)"
      and r: "(if \<not> current_is (js '','') st1 then Inr (as @ [x], st1)
         else bindR (take_lexeme src st1) (\<lambda>(_, st). call_arguments src (as @ [x]) st)) = Inr (es, st')"
      using 4(4) False unfolding call_arguments.psimps [OF 4(1)]
      by (auto elim!: bindR_pairE simp del: bindR_eq_Inr)
    note X = 4(2) [OF False x]
    show ?thesis
    proof (cases "current_is (js '','') st1")
      case F: False
      then show ?thesis using r args_last [OF False X] by auto
    next
      case True
      then obtain k st2 where t: "take_lexeme src st1 = Inr (k, st2)"
        and a: "call_arguments src (as @ [x]) st2 = Inr (es, st')"
        using r by (auto elim!: bindR_pairE simp del: bindR_eq_Inr)
      have "parse_args src (as @ [x]) st2 es st'"
        by (rule 4(3) [OF False x refl _ t refl a]) (use True in simp)
      then show ?thesis by (rule args_more [OF False X True t])
    qed
  qed
qed

lemma parser_count_dom:
  "expression_binary_loop_primary_call_arguments_dom (Inl (Inl (src, m, st))) \<Longrightarrow>
     expression src m st = Inr (e, st') \<Longrightarrow> p_count st < p_count st'"
  "expression_binary_loop_primary_call_arguments_dom (Inl (Inr (src, m, l, st))) \<Longrightarrow>
     binary_loop src m l st = Inr (e, st') \<Longrightarrow> p_count st \<le> p_count st'"
  "expression_binary_loop_primary_call_arguments_dom (Inr (Inl (src, st))) \<Longrightarrow>
     primary src st = Inr (e, st') \<Longrightarrow> p_count st < p_count st'"
  "expression_binary_loop_primary_call_arguments_dom (Inr (Inr (src, as, st))) \<Longrightarrow>
     call_arguments src as st = Inr (es, st') \<Longrightarrow> p_count st \<le> p_count st'"
  by (blast intro: parse_count parser_sound_dom)+

fun lexemes_left :: "((jsstr \<times> nat \<times> pstate) + (jsstr \<times> nat \<times> ExpressionNode \<times> pstate)) +
    ((jsstr \<times> pstate) + (jsstr \<times> ExpressionNode list \<times> pstate)) \<Rightarrow> nat" where
  "lexemes_left (Inl (Inl (_, _, st))) = 2 * (10001 - p_count st) + 1"
| "lexemes_left (Inl (Inr (_, _, _, st))) = 2 * (10001 - p_count st)"
| "lexemes_left (Inr (Inl (_, st))) = 2 * (10001 - p_count st)"
| "lexemes_left (Inr (Inr (_, _, st))) = 2 * (10001 - p_count st) + 2"

lemma parser_dom: "All expression_binary_loop_primary_call_arguments_dom"
  by (rule "expression_binary_loop_primary_call_arguments.termination" [of "measure lexemes_left"])
    (auto dest!: take_lexeme_count expect_lexeme_count parser_count_dom simp del: bindR_eq_Inr)

termination expression
  using parser_dom by simp

end
