(* ===== verification/Parser_Props.thy ===== *)
theory Parser_Props
  imports Parser
begin

text \<open>
  What the parser guarantees. The functions of theory \<open>Parser\<close> compute exactly the grammar relation
  stated there; every tree they build uses known names with the right number of arguments; the spans
  of a tree are nested, so no two of its nodes have the same span.
\<close>

section \<open>The functions compute the grammar relation\<close>

lemma parser_sound:
  "expression src m st = Inr (e, st') \<Longrightarrow> parse_expr src m st e st'"
  "binary_loop src m l st = Inr (e, st') \<Longrightarrow> parse_loop src m l st e st'"
  "primary src st = Inr (e, st') \<Longrightarrow> parse_prim src st e st'"
  "call_arguments src as st = Inr (es, st') \<Longrightarrow> parse_args src as st es st'"
  by (blast intro: parser_sound_dom parser_dom [THEN spec])+

declare expression.simps [simp del] binary_loop.simps [simp del] primary.simps [simp del]
  call_arguments.simps [simp del]

lemma primary_atom:
  "take_lexeme src st = Inr (t, st1) \<Longrightarrow> atom_node t st1 n \<Longrightarrow> primary src st = Inr (n, st1)"
  by (subst primary.simps) (auto simp: atom_node_def BILLING_VARIABLES_def TOKEN_VARIABLES_def)

lemma parser_complete:
  "parse_expr src m st e st' \<Longrightarrow> expression src m st = Inr (e, st')"
  "parse_loop src m l st e st' \<Longrightarrow> binary_loop src m l st = Inr (e, st')"
  "parse_prim src st e st' \<Longrightarrow> primary src st = Inr (e, st')"
  "parse_args src as st es st' \<Longrightarrow> call_arguments src as st = Inr (es, st')"
proof (induction rule: parse_induct)
  case (expr_plain st l st1 m e st2)
  then show ?case by (subst expression.simps) auto
next
  case (expr_conditional st l st1 c st2 q st3 y st4 k st5 n st6)
  then show ?case by (subst expression.simps) simp
next
  case (loop_stop st m l)
  then show ?case by (subst binary_loop.simps) (auto split: option.splits)
next
  case (loop_step st prec m t st1 r st2 l e st3)
  then show ?case by (subst binary_loop.simps) simp
next
  case (prim_atom st t st1 n)
  then show ?case by (rule primary_atom)
next
  case (prim_paren st t st1 e st2 k st3)
  then show ?case by (subst primary.simps) simp
next
  case (prim_unary st t st1 e st2)
  then show ?case by (subst primary.simps) auto
next
  case (prim_call st t st1 args o1 st2 st3 k st4)
  then have "lx_text t \<notin> {js ''('', js ''!'', js ''+'', js ''-''}"
    by (auto simp: BILLING_FUNCTIONS_def split: if_splits)
  with prim_call show ?case by (subst primary.simps) simp
next
  case (args_close st args)
  then show ?case by (subst call_arguments.simps) simp
next
  case (args_last st e st1 args)
  then show ?case by (subst call_arguments.simps) simp
next
  case (args_more st e st1 k st2 args args' st3)
  then show ?case by (subst call_arguments.simps) simp
qed

lemma expression_iff: "expression src m st = Inr (e, st') \<longleftrightarrow> parse_expr src m st e st'"
  using parser_sound(1) parser_complete(1) by blast

lemma parse_deterministic:
  "parse_expr src m st e st' \<Longrightarrow> parse_expr src m st f st'' \<Longrightarrow> e = f \<and> st' = st''"
  by (drule parser_complete(1))+ simp

text \<open>\<open>new BillingParser(source).parse()\<close>.\<close>

definition parse :: "jsstr \<Rightarrow> exn + ExpressionNode" where
  "parse src =
     bindR (parser_init src) (\<lambda>st.
     bindR (expression src 0 st) (\<lambda>(node, st).
       if lx_kind (p_current st) \<noteq> K_end
       then Inl (billing_error Unsupported (lx_text (p_current st)) (Some (lx_start (p_current st))))
       else Inr node))"

lemma parse_iff:
  "parse src = Inr e \<longleftrightarrow>
     (\<exists>st st'. parser_init src = Inr st \<and> parse_expr src 0 st e st' \<and> lx_kind (p_current st') = K_end)"
  by (auto simp: parse_def bindR_eq_Inr expression_iff [symmetric] split: if_splits)

section \<open>Lexemes carry what their kind says\<close>

fun lexeme_value_ok :: "LexemeKind \<Rightarrow> bool \<Rightarrow> literal option \<Rightarrow> bool" where
  "lexeme_value_ok K_number i v \<longleftrightarrow>
     (\<exists>q. 0 \<le> q \<and> v = Some (LNum (mk_num False q)) \<and> isFinite (mk_num False q) \<and>
        (i \<longrightarrow> isSafeInteger (mk_num False q)))"
| "lexeme_value_ok K_string _ v \<longleftrightarrow> (\<exists>s. v = Some (LStr s))"
| "lexeme_value_ok _ _ v \<longleftrightarrow> v = None"

definition lexeme_ok :: "jsstr \<Rightarrow> Lexeme \<Rightarrow> bool" where
  "lexeme_ok src lx \<longleftrightarrow>
     lexeme_value_ok (lx_kind lx) (lx_integer lx) (lx_value lx) \<and>
     lx_end lx \<le> length src \<and>
     (if lx_kind lx = K_end then lx_text lx = [] \<and> lx_start lx = lx_end lx else lx_start lx < lx_end lx)"

lemma digits_val_nonneg: "list_all is_digit cs \<Longrightarrow> 0 \<le> digits_val cs"
  by (induction cs rule: rev_induct) (auto simp: digits_val_append is_digit_def digits_val_def [of "[]"])

lemma decimal_value_nonneg: "0 \<le> decimal_value s"
proof -
  have "0 \<le> digits_val (takeWhile is_digit a @ takeWhile is_digit b)" for a b
    by (rule digits_val_nonneg) (auto simp: list_all_iff dest: set_takeWhileD)
  moreover have "0 \<le> digits_val (takeWhile is_digit a)" for a
    by (rule digits_val_nonneg) (auto simp: list_all_iff dest: set_takeWhileD)
  ultimately show ?thesis by (auto simp: decimal_value_def Let_def split: option.splits)
qed

lemma number_value_ok:
  "isFinite (num_of_decimal s) \<Longrightarrow> (i \<longrightarrow> isSafeInteger (num_of_decimal s)) \<Longrightarrow>
     lexeme_value_ok K_number i (Some (LNum (num_of_decimal s)))"
  using decimal_value_nonneg [of s] unfolding num_of_decimal_def lexeme_value_ok.simps by blast

lemma lex_next_lexeme_ok:
  assumes "lex_next src cur cnt = Inr (lx, cur', cnt')" "cur \<le> length src"
  shows "lexeme_ok src lx"
proof -
  define start where "start = cur + length (takeWhile is_space (drop cur src))"
  have "start \<le> length src" using assms(2) length_takeWhile_drop [of cur is_space src] by (auto simp: start_def)
  then have "lx_kind lx = K_end \<Longrightarrow> lx_end lx \<le> length src"
    using assms(1) unfolding lex_next_def Let_def start_def [symmetric]
    by (auto simp: plain_lexeme_def bindR_eq_Inr split: if_splits)
  moreover
  have "lexeme_value_ok (lx_kind lx) (lx_integer lx) (lx_value lx)"
    using assms
    by (auto simp: lex_next_def Let_def plain_lexeme_def bindR_eq_Inr number_value_ok
        simp del: lexeme_value_ok.simps(1) split: if_splits)
  ultimately show ?thesis using lex_next_props(5,6) [OF assms(1)] by (simp add: lexeme_ok_def)
qed

text \<open>The state invariant of the parser: the cursor is at the end of the current lexeme.\<close>

definition pstate_ok :: "jsstr \<Rightarrow> pstate \<Rightarrow> bool" where
  "pstate_ok src st \<longleftrightarrow> lexeme_ok src (p_current st) \<and> p_cursor st = lx_end (p_current st)"

lemma pstate_ok_depth [simp]: "pstate_ok src (st\<lparr>p_depth := d\<rparr>) = pstate_ok src st"
  by (simp add: pstate_ok_def)

lemma match_version_length: "match_version src = Some (whole, ds) \<Longrightarrow> length whole \<le> length src"
proof -
  assume a: "match_version src = Some (whole, ds)"
  let ?sp = "takeWhile is_space src"
  obtain r where r: "drop (length ?sp) src = 118 # r"
    and w: "ds = takeWhile is_digit r" "whole = ?sp @ 118 # ds @ [58]" "length ds < length r"
    using a by (auto simp: match_version_def Let_def strip_char_Some split: option.splits if_splits
        dest!: drop_eq_Cons)
  have "length src = length ?sp + length (118 # r)"
    using r by (metis append_take_drop_id length_append takeWhile_eq_take)
  with w show ?thesis by simp
qed

lemma parser_init_ok: "parser_init src = Inr st \<Longrightarrow> pstate_ok src st \<and> p_depth st = 0"
  by (auto simp: parser_init_def pstate_ok_def bindR_eq_Inr lex_next_lexeme_ok lex_next_props(3)
      dest: match_version_length split: if_splits option.splits)

lemma take_lexeme_ok:
  assumes "take_lexeme src st = Inr (t, st')" "pstate_ok src st"
  shows "t = p_current st \<and> lexeme_ok src t \<and> pstate_ok src st' \<and> lx_end t \<le> lx_start (p_current st') \<and>
    p_depth st' = p_depth st"
  using assms by (auto simp: take_lexeme_def pstate_ok_def bindR_eq_Inr lexeme_ok_def
      lex_next_props(3,4) dest: lex_next_props(4) lex_next_lexeme_ok [unfolded lexeme_ok_def])

lemma expect_lexeme_ok:
  assumes "expect_lexeme src x st = Inr (t, st')" "pstate_ok src st"
  shows "t = p_current st \<and> lx_text t = x \<and> lexeme_ok src t \<and> pstate_ok src st' \<and>
    lx_end t \<le> lx_start (p_current st') \<and> p_depth st' = p_depth st"
  using assms take_lexeme_ok [of src st t st'] by (auto simp: expect_lexeme_def split: if_splits)

lemma lexeme_ok_text: "lexeme_ok src t \<Longrightarrow> lx_text t \<noteq> [] \<Longrightarrow> lx_start t < lx_end t \<and> lx_end t \<le> length src"
  by (auto simp: lexeme_ok_def split: if_splits)

lemma lexeme_ok_kind: "lexeme_ok src t \<Longrightarrow> lx_kind t \<noteq> K_end \<Longrightarrow> lx_start t < lx_end t \<and> lx_end t \<le> length src"
  by (auto simp: lexeme_ok_def split: if_splits)

section \<open>Well-formed trees\<close>

fun wf_literal :: "literal \<Rightarrow> bool \<Rightarrow> bool" where
  "wf_literal (LNum x) i \<longleftrightarrow> (\<exists>q. 0 \<le> q \<and> x = mk_num False q) \<and> isFinite x \<and> (i \<longrightarrow> isSafeInteger x)"
| "wf_literal _ i \<longleftrightarrow> \<not> i"

fun wf_node :: "ExpressionNode \<Rightarrow> bool" where
  "wf_node (Literal v i _ _) = wf_literal v i"
| "wf_node (Variable x _ _) = (x \<in> set BILLING_VARIABLES)"
| "wf_node (Call f xs _ _) = (map_of BILLING_FUNCTIONS f = Some (length xs))"
| "wf_node (Unary f _ _ _) = (f \<in> {js ''!'', js ''+'', js ''-''})"
| "wf_node (Binary f _ _ _ _) = (map_of PRECEDENCE f \<noteq> None)"
| "wf_node (Conditional _ _ _ _ _) = True"

definition wf_ast :: "ExpressionNode \<Rightarrow> bool" where
  "wf_ast e \<longleftrightarrow> (\<forall>n \<in> set (postorder e). wf_node n)"

text \<open>Consecutive nodes of a list lie one after the other between two positions.\<close>

fun laid_out :: "nat \<Rightarrow> ExpressionNode list \<Rightarrow> nat \<Rightarrow> bool" where
  "laid_out a [] b = (a \<le> b)"
| "laid_out a (n # ns) b = (a \<le> node_start n \<and> node_start n < node_end n \<and> laid_out (node_end n) ns b)"

text \<open>The children of a node lie inside it, and no child fills it.\<close>

definition spans_node :: "ExpressionNode \<Rightarrow> bool" where
  "spans_node n \<longleftrightarrow> node_start n < node_end n \<and> laid_out (node_start n) (children n) (node_end n) \<and>
     (\<forall>c \<in> set (children n). node_end c - node_start c < node_end n - node_start n)"

definition spans_ok :: "ExpressionNode \<Rightarrow> bool" where
  "spans_ok e \<longleftrightarrow> (\<forall>n \<in> set (postorder e). spans_node n)"

lemma postorder_self [simp]: "n \<in> set (postorder n)"
  by (subst postorder.simps) simp

lemma set_postorder: "set (postorder n) = insert n (\<Union>c \<in> set (children n). set (postorder c))"
  by (subst postorder.simps) auto

lemma wf_ast_iff: "wf_ast n \<longleftrightarrow> wf_node n \<and> (\<forall>c \<in> set (children n). wf_ast c)"
  unfolding wf_ast_def set_postorder [of n] by auto

lemma spans_ok_iff: "spans_ok n \<longleftrightarrow> spans_node n \<and> (\<forall>c \<in> set (children n). spans_ok c)"
  unfolding spans_ok_def set_postorder [of n] by auto

lemmas node_invariants =
  wf_ast_iff [of "Unary f x a b" for f x a b] wf_ast_iff [of "Binary f x y a b" for f x y a b]
  wf_ast_iff [of "Conditional c x y a b" for c x y a b] wf_ast_iff [of "Call f xs a b" for f xs a b]
  spans_ok_iff [of "Unary f x a b" for f x a b] spans_ok_iff [of "Binary f x y a b" for f x y a b]
  spans_ok_iff [of "Conditional c x y a b" for c x y a b] spans_ok_iff [of "Call f xs a b" for f xs a b]
  spans_node_def

lemma children_respan [simp]: "children (respan e a b) = children e"
  by (cases e) simp_all

lemma respan_span [simp]: "node_start (respan e a b) = a" "node_end (respan e a b) = b"
  by (cases e; simp)+

lemma wf_node_respan [simp]: "wf_node (respan e a b) = wf_node e"
  by (cases e) simp_all

lemma wf_ast_respan [simp]: "wf_ast (respan e a b) = wf_ast e"
  by (simp add: wf_ast_iff [of "respan e a b"] wf_ast_iff [of e])

lemma laid_out_weaken: "laid_out a ns b \<Longrightarrow> a' \<le> a \<Longrightarrow> b \<le> b' \<Longrightarrow> laid_out a' ns b'"
  by (induction a ns b arbitrary: a' rule: laid_out.induct) auto

lemma laid_out_append: "laid_out a (ns @ [n]) b \<longleftrightarrow>
    laid_out a ns (node_start n) \<and> node_start n < node_end n \<and> node_end n \<le> b"
  by (induction a ns b rule: laid_out.induct) auto

lemma laid_out_le: "laid_out a ns b \<Longrightarrow> a \<le> b"
  by (induction a ns b rule: laid_out.induct) auto

lemma laid_out_mem: "laid_out a ns b \<Longrightarrow> n \<in> set ns \<Longrightarrow> a \<le> node_start n \<and> node_start n < node_end n \<and> node_end n \<le> b"
  by (induction a ns b rule: laid_out.induct) (auto dest: laid_out_le)

lemma spans_ok_respan:
  "spans_ok e \<Longrightarrow> a \<le> node_start e \<Longrightarrow> node_end e \<le> b \<Longrightarrow> spans_ok (respan e a b)"
  unfolding spans_ok_iff [of "respan e a b"] spans_ok_iff [of e] spans_node_def
  by (auto elim!: laid_out_weaken)

lemma spans_ok_start_end: "spans_ok e \<Longrightarrow> node_start e < node_end e"
  by (simp add: spans_ok_iff [of e] spans_node_def)

lemma atom_node_ok:
  "atom_node t st n \<Longrightarrow> lexeme_ok src t \<Longrightarrow>
     wf_ast n \<and> spans_ok n \<and> node_start n = lx_start t \<and> node_end n = lx_end t"
  by (auto simp: atom_node_def lexeme_ok_def wf_ast_iff [of n] spans_ok_iff [of n] spans_node_def) blast+

lemma operator_nonempty: "map_of PRECEDENCE x = Some k \<Longrightarrow> x \<noteq> []"
  by (auto simp: PRECEDENCE_def split: if_splits)

lemma call_node_ok:
  assumes "map_of BILLING_FUNCTIONS f = Some (length args)" "\<forall>a \<in> set args. wf_ast a \<and> spans_ok a"
    "laid_out a args b" "s < a" "b < e"
  shows "wf_ast (Call f args s e)" "spans_ok (Call f args s e)"
proof -
  have "laid_out s args e" using assms by (auto elim: laid_out_weaken)
  moreover have "node_end c - node_start c < e - s" if "c \<in> set args" for c
    using laid_out_mem [OF assms(3) that] assms(4,5) by arith
  ultimately show "wf_ast (Call f args s e)" "spans_ok (Call f args s e)"
    using assms laid_out_le [of a args b]
    by (auto simp: node_invariants)
qed

text \<open>
  The invariant of a run: from a sound parser state the tree is well formed, its spans are nested and
  it lies between the lexeme the run started at and the one it stopped at. The depth counter is
  restored.
\<close>

lemma parse_wf:
  "parse_expr src m st e st' \<Longrightarrow> pstate_ok src st \<Longrightarrow>
     pstate_ok src st' \<and> wf_ast e \<and> spans_ok e \<and> p_depth st' = p_depth st \<and>
     lx_start (p_current st) \<le> node_start e \<and> node_end e \<le> lx_start (p_current st')"
  "parse_loop src m l st e st' \<Longrightarrow> pstate_ok src st \<Longrightarrow> wf_ast l \<Longrightarrow> spans_ok l \<Longrightarrow>
     node_end l \<le> lx_start (p_current st) \<Longrightarrow>
     pstate_ok src st' \<and> wf_ast e \<and> spans_ok e \<and> p_depth st' = p_depth st \<and>
     node_start e = node_start l \<and> node_end e \<le> lx_start (p_current st')"
  "parse_prim src st e st' \<Longrightarrow> pstate_ok src st \<Longrightarrow>
     pstate_ok src st' \<and> wf_ast e \<and> spans_ok e \<and> p_depth st' = p_depth st \<and>
     lx_start (p_current st) \<le> node_start e \<and> node_end e \<le> lx_start (p_current st')"
  "parse_args src as st es st' \<Longrightarrow> pstate_ok src st \<Longrightarrow> (\<forall>a \<in> set as. wf_ast a \<and> spans_ok a) \<Longrightarrow>
     pstate_ok src st' \<and> (\<forall>a \<in> set es. wf_ast a \<and> spans_ok a) \<and> p_depth st' = p_depth st \<and>
     (\<forall>k. laid_out k as (lx_start (p_current st)) \<longrightarrow> laid_out k es (lx_start (p_current st')))"
proof (induction rule: parse_induct)
  case (expr_plain st l st1 m e st2)
  then show ?case by simp
next
  case (expr_conditional st l st1 c st2 q st3 y st4 k st5 n st6)
  then show ?case
    using take_lexeme_ok [of src st2 q st3] expect_lexeme_ok [of src "js '':''" st4 k st5]
      lexeme_ok_text [of src q] lexeme_ok_text [of src k]
      spans_ok_start_end [of c] spans_ok_start_end [of y] spans_ok_start_end [of n]
    by (auto simp: node_invariants)
next
  case (loop_stop st m l)
  then show ?case by simp
next
  case (loop_step st prec m t st1 r st2 l e st3)
  let ?n = "Binary (lx_text t) l r (node_start l) (node_end r)"
  have r: "pstate_ok src st2 \<and> wf_ast r \<and> spans_ok r \<and> p_depth st2 = p_depth st \<and>
      lx_start (p_current st1) \<le> node_start r \<and> node_end r \<le> lx_start (p_current st2)"
    and t: "t = p_current st" "lx_start t < lx_end t" "lx_end t \<le> lx_start (p_current st1)"
    using loop_step take_lexeme_ok [of src st t st1] lexeme_ok_text [of src t]
      operator_nonempty [of "lx_text t" prec] by auto
  then have "wf_ast ?n" "spans_ok ?n"
    using loop_step spans_ok_start_end [of l] spans_ok_start_end [of r] by (auto simp: node_invariants)
  with loop_step r show ?case by simp
next
  case (prim_atom st t st1 n)
  then show ?case using take_lexeme_ok [of src st t st1] atom_node_ok [of t st1 n src] by auto
next
  case (prim_paren st t st1 e st2 k st3)
  then show ?case
    using take_lexeme_ok [of src st t st1] expect_lexeme_ok [of src "js '')''" st2 k st3]
      lexeme_ok_text [of src t] lexeme_ok_text [of src k]
    by (auto intro!: spans_ok_respan)
next
  case (prim_unary st t st1 e st2)
  then show ?case
    using take_lexeme_ok [of src st t st1] lexeme_ok_text [of src t] spans_ok_start_end [of e]
    by (auto simp add: node_invariants)
next
  case (prim_call st t st1 args o1 st2 st3 k st4)
  have pre: "pstate_ok src st3" "\<forall>a \<in> set args. wf_ast a \<and> spans_ok a" "p_depth st3 = p_depth st"
    "laid_out (lx_end t) args (lx_start (p_current st3))" "lexeme_ok src t" "t = p_current st"
    using prim_call take_lexeme_ok [of src st t st1] take_lexeme_ok [of src st1 o1 st2]
      lexeme_ok_text [of src o1]
    by (auto simp: current_is_def)
  moreover have "k = p_current st3" "lx_start k < lx_end k" "pstate_ok src st4" "p_depth st4 = p_depth st3"
    "lx_end k \<le> lx_start (p_current st4)" "lx_start t < lx_end t"
    using prim_call pre expect_lexeme_ok [of src "js '')''" st3 k st4] lexeme_ok_text [of src k]
      lexeme_ok_kind [of src t] by auto
  ultimately show ?case using prim_call
      call_node_ok [of "lx_text t" args "lx_end t" "lx_start k" "lx_start t" "lx_end k"] by auto
next
  case (args_close st args)
  then show ?case by simp
next
  case (args_last st e st1 args)
  then show ?case using spans_ok_start_end [of e] by (auto simp: laid_out_append elim: laid_out_weaken)
next
  case (args_more st e st1 k st2 args args' st3)
  then show ?case using spans_ok_start_end [of e] take_lexeme_ok [of src st1 k st2] lexeme_ok_text [of src k]
    by (auto simp: laid_out_append current_is_def elim: laid_out_weaken)
qed

lemma parse_wf_ast: "parse src = Inr e \<Longrightarrow> wf_ast e \<and> spans_ok e \<and> node_end e \<le> length src"
proof -
  assume "parse src = Inr e"
  then obtain st st' where st: "parser_init src = Inr st" "parse_expr src 0 st e st'"
    by (auto simp: parse_iff)
  note ok = parse_wf(1) [OF st(2) conjunct1 [OF parser_init_ok [OF st(1)]]]
  then have "lx_start (p_current st') \<le> length src"
    by (auto simp: pstate_ok_def lexeme_ok_def split: if_splits)
  with ok show ?thesis by simp
qed

section \<open>Spans identify nodes\<close>

abbreviation span :: "ExpressionNode \<Rightarrow> nat \<times> nat" where
  "span n \<equiv> (node_start n, node_end n)"

lemma postorder_span:
  "spans_ok e \<Longrightarrow> m \<in> set (postorder e) \<Longrightarrow>
     node_start e \<le> node_start m \<and> node_start m < node_end m \<and> node_end m \<le> node_end e"
proof (induction e rule: node_count.induct)
  case (1 n)
  have n: "spans_node n" using "1.prems" by (simp add: spans_ok_iff [of n])
  show ?case
  proof (cases "m = n")
    case True
    then show ?thesis using n by (simp add: spans_node_def)
  next
    case False
    then obtain c where c: "c \<in> set (children n)" "m \<in> set (postorder c)"
      using "1.prems"(2) by (auto simp: set_postorder [of n])
    then have "spans_ok c" using "1.prems"(1) by (simp add: spans_ok_iff [of n])
    then show ?thesis
      using "1.IH" [OF c(1) _ c(2)] laid_out_mem [OF _ c(1)] n by (fastforce simp: spans_node_def)
  qed
qed

lemma distinct_spans_children:
  assumes "laid_out a cs b" "\<forall>c \<in> set cs. spans_ok c \<and> distinct (map span (postorder c))"
  shows "distinct (map span (concat (map postorder cs)))"
  using assms
proof (induction a cs b rule: laid_out.induct)
  case (1 a b)
  then show ?case by simp
next
  case (2 a c cs b)
  have "span m \<noteq> span k" if m: "m \<in> set (postorder c)" and k: "d \<in> set cs" "k \<in> set (postorder d)" for m k d
  proof -
    have "node_end m \<le> node_end c" "node_end c \<le> node_start d" "node_start d \<le> node_start k"
      "node_start k < node_end k"
      using 2(2,3) postorder_span [of c m] postorder_span [of d k] laid_out_mem [of "node_end c" cs b d] m k
      by auto
    then show ?thesis by auto
  qed
  then have "span ` set (postorder c) \<inter> span ` (\<Union>d \<in> set cs. set (postorder d)) = {}" by blast
  with 2 show ?case by (auto simp: image_UN)
qed

lemma distinct_spans: "spans_ok e \<Longrightarrow> distinct (map span (postorder e))"
proof (induction e rule: node_count.induct)
  case (1 n)
  have n: "spans_node n" and c: "\<forall>c \<in> set (children n). spans_ok c"
    using "1.prems" by (simp_all add: spans_ok_iff [of n])
  have d: "distinct (map span (concat (map postorder (children n))))"
    using n c "1.IH" by (intro distinct_spans_children [of "node_start n" _ "node_end n"]) (auto simp: spans_node_def)
  have "span m \<noteq> span n" if "k \<in> set (children n)" "m \<in> set (postorder k)" for m k
    using postorder_span [of k m] n c that by (auto simp: spans_node_def)
  with d show ?case by (subst postorder.simps) fastforce
qed

end
