(* ===== verification/Type_Check.thy ===== *)
theory Type_Check
  imports Parser_Props
begin

text \<open>
  The type checker of the billing expression language (\<open>checkExpressionTypes\<close> of
  \<^verbatim>\<open>features/pricing/lib/billing-expression/parser.ts\<close>). It walks the tree once with \<open>visitExpression\<close>
  and keeps the type of every visited node in a map. The reference definition \<open>type_of\<close> computes the
  type of a node from the types of its children by structural recursion, with no map and no bound on
  the depth; the walk agrees with it on every tree it does not refuse as too deep.
\<close>

section \<open>The checker\<close>

datatype ExpressionType = T_number | T_string | T_boolean | T_nil | T_dynamic

fun type_name :: "ExpressionType \<Rightarrow> jsstr" where
  "type_name T_number = js ''number''"
| "type_name T_string = js ''string''"
| "type_name T_boolean = js ''boolean''"
| "type_name T_nil = js ''nil''"
| "type_name T_dynamic = js ''dynamic''"

type_synonym type_map = "ExpressionNode \<rightharpoonup> ExpressionType"

text \<open>\<open>args[i]\<close>, which is \<open>undefined\<close> out of range.\<close>

definition arg_at :: "ExpressionNode list \<Rightarrow> nat \<Rightarrow> ExpressionNode option" where
  "arg_at args i = (if i < length args then Some (args ! i) else None)"

definition requireType :: "type_map \<Rightarrow> ExpressionNode option \<Rightarrow> ExpressionType \<Rightarrow> exn + unit" where
  "requireType types child expected =
     (let actual = (case child of None \<Rightarrow> None | Some c \<Rightarrow> types c)
      in if actual \<noteq> Some expected \<and> actual \<noteq> Some T_dynamic then
           (case child of
              None \<Rightarrow> Inl (HostError (js ''child is undefined''))
            | Some c \<Rightarrow> Inl (billing_error Type_code (type_name expected @ js '' operand'') (Some (node_start c))))
         else Inr ())"

fun literal_type :: "literal \<Rightarrow> ExpressionType" where
  "literal_type LNull = T_nil"
| "literal_type (LNum _) = T_number"
| "literal_type (LStr _) = T_string"
| "literal_type (LBool _) = T_boolean"

definition call_type :: "type_map \<Rightarrow> jsstr \<Rightarrow> ExpressionNode list \<Rightarrow> exn + ExpressionType" where
  "call_type types name args =
     bindR (if name \<in> set ([js ''param'', js ''header'', js ''u''] @ TIME_FUNCTIONS)
            then requireType types (arg_at args 0) T_string else Inr ()) (\<lambda>_.
       if name = js ''header'' then Inr T_string
       else if name = js ''has'' then
         bindR (requireType types (arg_at args 1) T_string) (\<lambda>_. Inr T_boolean)
       else if name = js ''tier'' then
         bindR (requireType types (arg_at args 0) T_string) (\<lambda>_.
         bindR (requireType types (arg_at args 1) T_number) (\<lambda>_. Inr T_number))
       else if name \<in> set TIME_FUNCTIONS then Inr T_number
       else if name \<in> {js ''fixed'', js ''min'', js ''max'', js ''abs'', js ''ceil'', js ''floor''} then
         bindR (foldR (\<lambda>a _. requireType types (Some a) T_number) args ()) (\<lambda>_. Inr T_number)
       else Inr T_dynamic)"

definition node_type :: "type_map \<Rightarrow> ExpressionNode \<Rightarrow> exn + ExpressionType" where
  "node_type types node =
     (case node of
        Literal v _ _ _ \<Rightarrow> Inr (literal_type v)
      | Variable _ _ _ \<Rightarrow> Inr T_number
      | Unary operator operand _ _ \<Rightarrow>
          (let result = (if operator = js ''!'' then T_boolean else T_number)
           in bindR (requireType types (Some operand) result) (\<lambda>_. Inr result))
      | Conditional c y n _ _ \<Rightarrow>
          bindR (requireType types (Some c) T_boolean) (\<lambda>_.
          Inr (if types y = types n then (case types y of Some t \<Rightarrow> t | None \<Rightarrow> T_dynamic) else T_dynamic))
      | Binary operator l r _ _ \<Rightarrow>
          (if operator \<in> {js ''&&'', js ''||''} then
             bindR (requireType types (Some l) T_boolean) (\<lambda>_.
             bindR (requireType types (Some r) T_boolean) (\<lambda>_. Inr T_boolean))
           else if operator \<in> {js ''=='', js ''!='', js ''<'', js ''<='', js ''>'', js ''>=''} then
             Inr T_boolean
           else if operator = js ''+'' \<and> types l = Some T_string \<and> types r = Some T_string then
             Inr T_string
           else
             bindR (requireType types (Some l) T_number) (\<lambda>_.
             bindR (requireType types (Some r) T_number) (\<lambda>_. Inr T_number)))
      | Call name args _ _ \<Rightarrow> call_type types name args)"

definition type_visitor :: "ExpressionNode \<Rightarrow> type_map \<Rightarrow> exn + type_map" where
  "type_visitor node types = bindR (node_type types node) (\<lambda>t. Inr (types(node \<mapsto> t)))"

definition checkExpressionTypes :: "ExpressionNode \<Rightarrow> exn + unit" where
  "checkExpressionTypes ast = bindR (visitExpression ast type_visitor Map.empty) (\<lambda>_. Inr ())"

section \<open>The reference definition\<close>

function type_of :: "ExpressionNode \<Rightarrow> exn + ExpressionType" where
  "type_of n = bindR (mapR type_of (children n)) (\<lambda>ts. node_type (map_of (zip (children n) ts)) n)"
  by pat_completeness auto
termination
  by (relation "measure size") (auto simp: children_size)

declare type_of.simps [simp del]

text \<open>The rule for a node reads the types of its children only.\<close>

lemma requireType_cong:
  "(\<And>c. child = Some c \<Longrightarrow> types c = types' c) \<Longrightarrow> requireType types child t = requireType types' child t"
  by (cases child) (simp_all add: requireType_def)

lemma arg_at_mem: "arg_at args i = Some c \<Longrightarrow> c \<in> set args"
  by (auto simp: arg_at_def split: if_splits)

lemma foldR_cong:
  "(\<And>x s. x \<in> set xs \<Longrightarrow> f x s = g x s) \<Longrightarrow> foldR f xs s = foldR g xs s"
proof (induction xs arbitrary: s)
  case Nil
  then show ?case by simp
next
  case (Cons x xs)
  then have "foldR f xs = foldR g xs" by (auto intro!: ext)
  with Cons.prems show ?case by simp
qed

lemma call_type_cong:
  assumes "\<And>c. c \<in> set args \<Longrightarrow> types c = types' c"
  shows "call_type types f args = call_type types' f args"
proof -
  have r: "requireType types (arg_at args i) t = requireType types' (arg_at args i) t" for i t
    using assms by (auto intro!: requireType_cong dest: arg_at_mem)
  have "foldR (\<lambda>a _. requireType types (Some a) T_number) args ()
      = foldR (\<lambda>a _. requireType types' (Some a) T_number) args ()"
    using assms by (intro foldR_cong requireType_cong) auto
  then show ?thesis by (simp only: call_type_def r)
qed

lemma node_type_cong:
  assumes "\<And>c. c \<in> set (children n) \<Longrightarrow> types c = types' c"
  shows "node_type types n = node_type types' n"
proof -
  have r: "requireType types (Some c) t = requireType types' (Some c) t" if "c \<in> set (children n)" for c t
    using assms that by (auto intro!: requireType_cong)
  show ?thesis using assms r call_type_cong [of "children n" types types']
    by (cases n) (simp_all add: node_type_def cong: if_cong)
qed

section \<open>The walk computes the reference types\<close>

definition consistent :: "type_map \<Rightarrow> bool" where
  "consistent types \<longleftrightarrow> (\<forall>m t. types m = Some t \<longrightarrow> type_of m = Inr t)"

text \<open>\<open>walked n types r\<close>: the outcome \<open>r\<close> of walking \<open>n\<close> from \<open>types\<close> is the one the reference predicts.\<close>

definition walked :: "ExpressionNode list \<Rightarrow> exn + ExpressionType list \<Rightarrow> type_map \<Rightarrow> exn + type_map \<Rightarrow> bool" where
  "walked ns ts types r \<longleftrightarrow>
     (case ts of
        Inl e \<Rightarrow> r = Inl e
      | Inr ts \<Rightarrow> \<exists>types'. r = Inr types' \<and> consistent types' \<and> types \<subseteq>\<^sub>m types' \<and> map types' ns = map Some ts)"

lemma mapR_Inr_map: "mapR f xs = Inr ys \<longleftrightarrow> map f xs = map Inr ys"
proof (induction xs arbitrary: ys)
  case Nil
  then show ?case by auto
next
  case (Cons x xs)
  then show ?case by (cases ys) (auto simp: bindR_eq_Inr Cons_eq_map_conv)
qed

lemma type_visitor_step:
  assumes c: "consistent types" and ts: "mapR type_of (children n) = Inr ts"
    and m: "map types (children n) = map Some ts"
  shows "walked [n] (map_sum id (\<lambda>t. [t]) (type_of n)) types (type_visitor n types)"
proof -
  have len: "length ts = length (children n)" using m by (metis length_map)
  have "types x = map_of (zip (children n) ts) x" if x: "x \<in> set (children n)" for x
  proof -
    obtain t where t: "map_of (zip (children n) ts) x = Some t"
      using x len by (metis map_of_zip_is_Some)
    then have "(x, t) \<in> set (zip (children n) ts)" by (rule map_of_SomeD)
    then obtain i where "i < length ts" "children n ! i = x" "ts ! i = t"
      by (auto simp: set_zip)
    then have "types x = Some t" using m len by (metis nth_map)
    with t show ?thesis by simp
  qed
  then have "node_type types n = type_of n"
    using ts by (subst type_of.simps) (simp, rule node_type_cong, simp)
  then show ?thesis using c
    by (cases "type_of n")
      (auto simp: walked_def type_visitor_def consistent_def map_le_def dom_def split: if_splits)
qed

lemma walked_Cons:
  assumes "walked [n] (map_sum id (\<lambda>t. [t]) (type_of n)) types (foldR type_visitor (postorder n) types)"
    and "\<And>types'. consistent types' \<Longrightarrow>
      walked ns (mapR type_of ns) types' (foldR type_visitor (concat (map postorder ns)) types')"
  shows "walked (n # ns) (mapR type_of (n # ns)) types
    (foldR type_visitor (concat (map postorder (n # ns))) types)"
proof (cases "type_of n")
  case (Inl e)
  then show ?thesis using assms(1) by (simp add: walked_def foldR_append)
next
  case (Inr t)
  then obtain types1 where 1: "foldR type_visitor (postorder n) types = Inr types1" "consistent types1"
    "types \<subseteq>\<^sub>m types1" "types1 n = Some t"
    using assms(1) by (auto simp: walked_def)
  show ?thesis
  proof (cases "mapR type_of ns")
    case (Inl e)
    then show ?thesis using assms(2) [OF 1(2)] 1(1) Inr by (simp add: walked_def foldR_append)
  next
    case (Inr ts)
    then obtain types2 where 2: "foldR type_visitor (concat (map postorder ns)) types1 = Inr types2"
      "consistent types2" "types1 \<subseteq>\<^sub>m types2" "map types2 ns = map Some ts"
      using assms(2) [OF 1(2)] by (auto simp: walked_def)
    have "types2 n = Some t" using 1(4) 2(3) by (metis domI map_le_def)
    then show ?thesis
      using 1 2 Inr \<open>type_of n = Inr t\<close> map_le_trans [OF 1(3) 2(3)] by (simp add: walked_def foldR_append)
  qed
qed

lemma walk_types:
  "consistent types \<Longrightarrow>
     walked [n] (map_sum id (\<lambda>t. [t]) (type_of n)) types (foldR type_visitor (postorder n) types)"
proof (induction n arbitrary: types rule: node_count.induct)
  case (1 n)
  have kids: "walked cs (mapR type_of cs) types' (foldR type_visitor (concat (map postorder cs)) types')"
    if "consistent types'" "set cs \<subseteq> set (children n)" for cs types'
    using that
  proof (induction cs arbitrary: types')
    case Nil
    then show ?case by (simp add: walked_def)
  next
    case (Cons c cs)
    show ?case
      by (rule walked_Cons; (rule "1.IH" Cons.IH)?) (use Cons.prems in auto)
  qed
  show ?case
  proof (cases "mapR type_of (children n)")
    case (Inl e)
    then show ?thesis using kids [OF "1.prems", of "children n"]
      by (subst type_of.simps, subst postorder.simps) (simp add: walked_def foldR_append)
  next
    case (Inr ts)
    then obtain types1 where 1: "foldR type_visitor (concat (map postorder (children n))) types = Inr types1"
      "consistent types1" "types \<subseteq>\<^sub>m types1" "map types1 (children n) = map Some ts"
      using kids [OF "1.prems", of "children n"] by (auto simp: walked_def)
    have "foldR type_visitor (postorder n) types = type_visitor n types1"
      using 1(1) by (subst postorder.simps) (simp add: foldR_append, cases "type_visitor n types1", simp_all)
    then show ?thesis using type_visitor_step [OF 1(2) Inr 1(4)] map_le_trans [OF 1(3)]
      by (cases "type_of n") (auto simp: walked_def)
  qed
qed

lemma checkExpressionTypes_type_of:
  "height n \<le> 256 \<Longrightarrow> checkExpressionTypes n = map_sum id (\<lambda>_. ()) (type_of n)"
  using walk_types [of Map.empty n]
  by (cases "type_of n")
    (auto simp: checkExpressionTypes_def visitExpression_postorder walked_def consistent_def)

end
