(* ===== verification/Memo.thy ===== *)
theory Memo
  imports Prelude
begin

text \<open>
  Insertion-ordered maps (the language's \<open>Map\<close>) and the contract of a memo table. Two parts of the
  program memoise a computation in a \<open>Map\<close>: compiled expressions by their source, with a bound on the
  number of entries, and the clock readings of a simulation by time zone. Both are interpretations of
  the locale \<open>memo\<close>: the table may forget entries, but what it returns is what was stored last.
\<close>

section \<open>Map\<close>

type_synonym ('k, 'v) js_map = "('k \<times> 'v) list"

definition js_map_set :: "'k \<Rightarrow> 'v \<Rightarrow> ('k, 'v) js_map \<Rightarrow> ('k, 'v) js_map" where
  "js_map_set k v m =
     (if k \<in> fst ` set m then map (\<lambda>p. if fst p = k then (fst p, v) else p) m else m @ [(k, v)])"

definition js_map_delete :: "'k \<Rightarrow> ('k, 'v) js_map \<Rightarrow> ('k, 'v) js_map" where
  "js_map_delete k m = filter (\<lambda>(a, _). a \<noteq> k) m"

lemma map_of_replace:
  "map_of (map (\<lambda>p. if fst p = k then (fst p, v) else p) m) j =
     (if j = k \<and> k \<in> fst ` set m then Some v else map_of m j)"
proof (induction m)
  case Nil
  then show ?case by simp
next
  case (Cons p m)
  then show ?case by (cases p; cases "j = k") auto
qed

lemma js_map_get_set: "map_of (js_map_set k v m) j = (if j = k then Some v else map_of m j)"
proof (cases "k \<in> fst ` set m")
  case True
  then show ?thesis by (simp add: js_map_set_def map_of_replace)
next
  case False
  then have "map_of m k = None" by (simp add: map_of_eq_None_iff)
  with False show ?thesis by (simp add: js_map_set_def map_add_def split: option.splits)
qed

lemma js_map_get_delete: "map_of (js_map_delete k m) j = (if j = k then None else map_of m j)"
  by (induction m) (auto simp: js_map_delete_def)

lemma keys_replace: "map fst (map (\<lambda>p. if fst p = k then (fst p, v) else p) m) = map fst m"
  unfolding map_map by (rule map_cong [OF refl]) simp

lemma keys_js_map_set: "set (map fst (js_map_set k v m)) = insert k (set (map fst m))"
  by (cases "k \<in> fst ` set m") (simp_all only: js_map_set_def keys_replace if_True if_False, auto)

lemma distinct_js_map_set: "distinct (map fst m) \<Longrightarrow> distinct (map fst (js_map_set k v m))"
  unfolding js_map_set_def by (cases "k \<in> fst ` set m") (simp_all only: keys_replace if_True if_False, simp)

lemma length_js_map_set_le: "length (js_map_set k v m) \<le> Suc (length m)"
  by (simp add: js_map_set_def)

lemma distinct_js_map_delete: "distinct (map fst m) \<Longrightarrow> distinct (map fst (js_map_delete k m))"
  by (simp add: js_map_delete_def distinct_map_filter)

lemma length_js_map_delete:
  "k \<in> fst ` set m \<Longrightarrow> length (js_map_delete k m) < length m"
  by (auto simp: js_map_delete_def intro!: length_filter_less)

section \<open>Memo tables\<close>

text \<open>Look the key up; on a miss compute, and store what was computed unless it failed.\<close>

definition memo_run ::
  "('c \<Rightarrow> 'k \<Rightarrow> 'v option) \<Rightarrow> ('k \<Rightarrow> 'v \<Rightarrow> 'c \<Rightarrow> 'c) \<Rightarrow> ('k \<Rightarrow> 'e + 'v) \<Rightarrow> 'k \<Rightarrow> 'c \<Rightarrow> 'e + 'v \<times> 'c" where
  "memo_run lookup store compute k c =
     (case lookup c k of
        Some v \<Rightarrow> Inr (v, c)
      | None \<Rightarrow> bindR (compute k) (\<lambda>v. Inr (v, store k v c)))"

locale memo =
  fixes empty :: 'c
    and lookup :: "'c \<Rightarrow> 'k \<Rightarrow> 'v option"
    and store :: "'k \<Rightarrow> 'v \<Rightarrow> 'c \<Rightarrow> 'c"
    and compute :: "'k \<Rightarrow> 'e + 'v"
  assumes lookup_empty: "lookup empty k = None"
    and lookup_store_same: "lookup c k = None \<Longrightarrow> lookup (store k v c) k = Some v"
    and lookup_store_other: "lookup c k = None \<Longrightarrow> j \<noteq> k \<Longrightarrow>
      lookup (store k v c) j = None \<or> lookup (store k v c) j = lookup c j"
begin

definition valid :: "'c \<Rightarrow> bool" where
  "valid c \<longleftrightarrow> (\<forall>k v. lookup c k = Some v \<longrightarrow> compute k = Inr v)"

lemma valid_empty: "valid empty"
  by (simp add: valid_def lookup_empty)

lemma valid_store: "valid c \<Longrightarrow> lookup c k = None \<Longrightarrow> compute k = Inr v \<Longrightarrow> valid (store k v c)"
  unfolding valid_def by (metis lookup_store_other lookup_store_same option.distinct(1) option.inject)

lemma run_value: "valid c \<Longrightarrow> map_sum id fst (memo_run lookup store compute k c) = compute k"
  by (cases "compute k"; cases "lookup c k") (fastforce simp: memo_run_def valid_def)+

lemma run_valid: "valid c \<Longrightarrow> memo_run lookup store compute k c = Inr (v, c') \<Longrightarrow> valid c'"
  by (auto simp: memo_run_def bindR_eq_Inr valid_store split: option.splits)

lemma run_hit: "valid c \<Longrightarrow> memo_run lookup store compute k c = Inr (v, c') \<Longrightarrow>
    memo_run lookup store compute k c' = Inr (v, c')"
  by (auto simp: memo_run_def bindR_eq_Inr lookup_store_same split: option.splits)

end

end
