(* ===== verification/Compile.thy ===== *)
theory Compile
  imports Type_Check Memo
begin

text \<open>
  Compilation of billing expressions (\<^verbatim>\<open>features/pricing/lib/billing-expression/parser.ts\<close>): the
  pricing markers, the validation of fixed-price trees, the request rules of an expression, and
  \<open>compileBillingExpression\<close> with its cache of 128 results.
\<close>

section \<open>Pricing markers and fixed prices\<close>

definition containsPricingMarker :: "ExpressionNode \<Rightarrow> exn + bool" where
  "containsPricingMarker node =
     bindR (expressionDependencies node) (\<lambda>(_, calls).
       Inr (js ''tier'' \<in> set calls \<or> js ''fixed'' \<in> set calls))"

definition zero_num :: jsnum where
  "zero_num = Fin False 0"

definition one_num :: jsnum where
  "one_num = Fin False 1"

definition million :: jsnum where
  "million = Fin False 1000000"

definition fixed_pricing_message :: jsstr where
  "fixed_pricing_message = js ''Use tier(name, fixed(amount)) with a finite, non-negative numeric literal; combine pricing branches only with conditions and request multipliers.''"

text \<open>
  The test of one factor of a product: it is the image count, or a request rule with a multiplier that
  is not negative and a condition free of markers.
\<close>

definition is_image_count :: "ExpressionNode \<Rightarrow> bool" where
  "is_image_count factor = (case factor of Variable x _ _ \<Rightarrow> x = js ''image_count'' | _ \<Rightarrow> False)"

definition is_multiplier :: "RequestRuleSite list \<Rightarrow> ExpressionNode \<Rightarrow> exn + bool" where
  "is_multiplier rules factor =
     (if is_image_count factor then Inr True
      else case find (\<lambda>r. site_node r = factor) rules of
             None \<Rightarrow> Inr False
           | Some rule \<Rightarrow>
               if js_le zero_num (site_multiplier rule)
               then bindR (containsPricingMarker (site_condition rule)) (\<lambda>m. Inr (\<not> m))
               else Inr False)"

text \<open>The last test: \<open>tier(name, price)\<close> with a fixed literal price or a price free of markers.\<close>

definition is_priced_tier :: "ExpressionNode \<Rightarrow> exn + bool" where
  "is_priced_tier node =
     (case node of
        Call f args _ _ \<Rightarrow>
          if f = js ''tier'' then
            (case args of
               a0 # a1 # _ \<Rightarrow>
                 bindR (containsPricingMarker a0) (\<lambda>m.
                   if m then Inr False
                   else
                     (case a1 of
                        Call g gargs _ _ \<Rightarrow>
                          if g = js ''fixed'' then
                            (case gargs of
                               Literal (LNum amount) _ _ _ # _ \<Rightarrow>
                                 Inr (js_le zero_num amount \<and> isFinite (js_mul amount million))
                             | Literal _ _ _ _ # _ \<Rightarrow> Inr False
                             | _ # _ \<Rightarrow> Inr False
                             | [] \<Rightarrow> Inl (HostError (js ''amount is undefined'')))
                          else bindR (containsPricingMarker a1) (\<lambda>m. Inr (\<not> m))
                      | _ \<Rightarrow> bindR (containsPricingMarker a1) (\<lambda>m. Inr (\<not> m))))
             | _ \<Rightarrow> Inl (HostError (js ''argument is undefined'')))
          else Inr False
      | _ \<Rightarrow> Inr False)"

definition reject_pricing :: "ExpressionNode \<Rightarrow> exn + unit" where
  "reject_pricing node = Inl (billing_error Type_code fixed_pricing_message (Some (node_start node)))"

fun validateFixedPricingTree :: "RequestRuleSite list \<Rightarrow> ExpressionNode \<Rightarrow> exn + unit" where
  "validateFixedPricingTree rules (Conditional c y n s e) =
     bindR (containsPricingMarker c) (\<lambda>m.
       if \<not> m then
         bindR (validateFixedPricingTree rules y) (\<lambda>_. validateFixedPricingTree rules n)
       else reject_pricing (Conditional c y n s e))"
| "validateFixedPricingTree rules (Binary f l r s e) =
     (if f = js ''*'' then
        bindR (is_multiplier rules r) (\<lambda>m.
          if m then validateFixedPricingTree rules l
          else
            bindR (is_multiplier rules l) (\<lambda>m.
              if m then validateFixedPricingTree rules r
              else reject_pricing (Binary f l r s e)))
      else reject_pricing (Binary f l r s e))"
| "validateFixedPricingTree rules node =
     bindR (is_priced_tier node) (\<lambda>ok. if ok then Inr () else reject_pricing node)"

section \<open>Request rules\<close>

definition rule_site :: "jsstr \<Rightarrow> ExpressionNode \<Rightarrow> exn + RequestRuleSite option" where
  "rule_site src node =
     (case node of
        Conditional c (Literal (LNum m) _ _ _) (Literal (LNum one) _ _ _) _ _ \<Rightarrow>
          if js_num_eq one one_num then
            bindR (expressionDependencies c) (\<lambda>(_, calls).
              if list_ex (\<lambda>name. name \<in> set ([js ''param'', js ''header''] @ TIME_FUNCTIONS)) calls
              then Inr (Some \<lparr>site_node = node, site_condition = c, site_multiplier = m,
                              site_cond = slice src (node_start c) (node_end c)\<rparr>)
              else Inr None)
          else Inr None
      | _ \<Rightarrow> Inr None)"

definition rule_visitor :: "jsstr \<Rightarrow> ExpressionNode \<Rightarrow> RequestRuleSite list \<Rightarrow> exn + RequestRuleSite list" where
  "rule_visitor src node rules =
     bindR (rule_site src node) (\<lambda>r.
       Inr (case r of None \<Rightarrow> rules | Some site \<Rightarrow> rules @ [site]))"

section \<open>Compilation\<close>

text \<open>The body of the \<open>try\<close> statement.\<close>

definition compile_steps :: "jsstr \<Rightarrow> exn + CompiledBillingExpression" where
  "compile_steps src =
     bindR (parse src) (\<lambda>ast.
     bindR (checkExpressionTypes ast) (\<lambda>_.
     bindR (expressionDependencies ast) (\<lambda>(vars, funs).
     bindR (visitExpression ast (rule_visitor src) []) (\<lambda>rules.
     bindR (if js ''fixed'' \<in> set funs then validateFixedPricingTree rules ast else Inr ()) (\<lambda>_.
     Inr \<lparr>compiled_source = src, compiled_ast = ast, compiled_variables = vars,
           compiled_functions = funs, compiled_rules = rules\<rparr>)))))"

definition compile_source :: "jsstr \<Rightarrow> CompilationResult" where
  "compile_source src =
     (case compile_steps src of Inl e \<Rightarrow> Failed (expressionFailure e) | Inr c \<Rightarrow> Ready c)"

type_synonym compile_cache = "(jsstr, CompilationResult) js_map"

definition cache_store :: "jsstr \<Rightarrow> CompilationResult \<Rightarrow> compile_cache \<Rightarrow> compile_cache" where
  "cache_store src result cache =
     (let cache = (case cache of
                     [] \<Rightarrow> cache
                   | (oldest, _) # _ \<Rightarrow>
                       if 128 \<le> length cache then js_map_delete oldest cache else cache)
      in js_map_set src result cache)"

definition compileBillingExpression :: "jsstr \<Rightarrow> compile_cache \<Rightarrow> CompilationResult \<times> compile_cache" where
  "compileBillingExpression src cache =
     (case map_of cache src of
        Some cached \<Rightarrow> (cached, cache)
      | None \<Rightarrow> (let result = compile_source src in (result, cache_store src result cache)))"

section \<open>The cache is transparent\<close>

text \<open>The order of the calls decides which results are kept, never what a call returns.\<close>

lemma cache_store_get:
  "map_of cache src = None \<Longrightarrow> map_of (cache_store src r cache) src = Some r"
  by (simp add: cache_store_def Let_def js_map_get_set)

lemma cache_store_other:
  "j \<noteq> src \<Longrightarrow> map_of (cache_store src r cache) j = None \<or> map_of (cache_store src r cache) j = map_of cache j"
  by (auto simp: cache_store_def Let_def js_map_get_set js_map_get_delete split: list.splits)

interpretation compiled: memo "[]" map_of cache_store "\<lambda>src. (Inr (compile_source src) :: exn + CompilationResult)"
  by unfold_locales (auto simp: cache_store_get dest: cache_store_other)

lemma compile_memo_run:
  "Inr (compileBillingExpression src cache) =
     memo_run map_of cache_store (\<lambda>src. (Inr (compile_source src) :: exn + CompilationResult)) src cache"
  by (simp add: compileBillingExpression_def memo_run_def Let_def split: option.splits)

definition cache_ok :: "compile_cache \<Rightarrow> bool" where
  "cache_ok cache \<longleftrightarrow> length cache \<le> 128 \<and> distinct (map fst cache) \<and> compiled.valid cache"

lemma compile_cached:
  assumes "cache_ok cache"
  shows "fst (compileBillingExpression src cache) = compile_source src"
proof -
  have "map_sum id fst (Inr (compileBillingExpression src cache) :: exn + _) = Inr (compile_source src)"
    unfolding compile_memo_run using assms by (intro compiled.run_value) (simp add: cache_ok_def)
  then show ?thesis by simp
qed

lemma cache_store_length:
  "length cache \<le> 128 \<Longrightarrow> length (cache_store src r cache) \<le> 128"
proof (cases cache)
  case Nil
  then show ?thesis by (simp add: cache_store_def js_map_set_def)
next
  case (Cons p rest)
  then have "length (js_map_delete (fst p) cache) < length cache"
    by (intro length_js_map_delete) simp
  moreover assume "length cache \<le> 128"
  ultimately show ?thesis
    using Cons length_js_map_set_le [of src r cache] length_js_map_set_le [of src r "js_map_delete (fst p) cache"]
    by (auto simp: cache_store_def Let_def split: prod.splits)
qed

lemma cache_ok_step:
  assumes "cache_ok cache"
  shows "cache_ok (snd (compileBillingExpression src cache))"
proof -
  have "compiled.valid (snd (compileBillingExpression src cache))"
    using assms compiled.run_valid [of cache src "fst (compileBillingExpression src cache)"
        "snd (compileBillingExpression src cache)"]
    by (simp add: cache_ok_def compile_memo_run [symmetric])
  moreover have "distinct (map fst cache) \<Longrightarrow> distinct (map fst (cache_store src r cache))" for r
    by (cases cache) (auto simp: cache_store_def Let_def intro!: distinct_js_map_set distinct_js_map_delete
        simp del: js_map_delete_def)
  ultimately show ?thesis using assms
    by (auto simp: cache_ok_def compileBillingExpression_def Let_def cache_store_length split: option.splits)
qed

lemma cache_ok_empty: "cache_ok []"
  by (simp add: cache_ok_def compiled.valid_empty)

text \<open>A sequence of calls, each starting from the cache the previous one left.\<close>

fun compile_calls :: "jsstr list \<Rightarrow> compile_cache \<Rightarrow> CompilationResult list \<times> compile_cache" where
  "compile_calls [] cache = ([], cache)"
| "compile_calls (src # srcs) cache =
     (let (r, cache) = compileBillingExpression src cache; (rs, cache) = compile_calls srcs cache
      in (r # rs, cache))"

lemma compile_calls_ok:
  "cache_ok cache \<Longrightarrow> fst (compile_calls srcs cache) = map compile_source srcs \<and> cache_ok (snd (compile_calls srcs cache))"
proof (induction srcs arbitrary: cache)
  case Nil
  then show ?case by simp
next
  case (Cons src srcs)
  obtain r c rs c' where "compileBillingExpression src cache = (r, c)" "compile_calls srcs c = (rs, c')"
    by (metis surj_pair)
  then show ?case using Cons compile_cached [of cache src] cache_ok_step [of cache src] Cons.IH [of c] by simp
qed

section \<open>What a compiled expression is\<close>

definition has_marker :: "ExpressionNode \<Rightarrow> bool" where
  "has_marker e \<longleftrightarrow> js ''tier'' \<in> names_in function_names e \<or> js ''fixed'' \<in> names_in function_names e"

lemma containsPricingMarker_eq: "height e \<le> 256 \<Longrightarrow> containsPricingMarker e = Inr (has_marker e)"
  by (simp add: containsPricingMarker_def expressionDependencies_names has_marker_def names_in_def)

lemma rule_visitor_result:
  "foldR (rule_visitor src) ns rules = Inr rules' \<Longrightarrow>
     \<forall>r \<in> set rules'. r \<in> set rules \<or> (\<exists>n \<in> set ns. rule_site src n = Inr (Some r))"
proof (induction ns arbitrary: rules)
  case Nil
  then show ?case by simp
next
  case (Cons n ns)
  obtain site where o: "rule_site src n = Inr site"
    and f: "foldR (rule_visitor src) ns (case site of None \<Rightarrow> rules | Some s \<Rightarrow> rules @ [s]) = Inr rules'"
    using Cons.prems by (auto simp: rule_visitor_def [of src n] bindR_eq_Inr)
  show ?case using Cons.IH [OF f] o by (fastforce split: option.splits)
qed

lemma rule_site_shape:
  assumes "rule_site src n = Inr (Some r)"
  shows "\<exists>c m i a b one j a' b' s e. n = Conditional c (Literal (LNum m) i a b) (Literal (LNum one) j a' b') s e \<and>
     js_num_eq one one_num \<and> r = \<lparr>site_node = n, site_condition = c, site_multiplier = m,
       site_cond = slice src (node_start c) (node_end c)\<rparr>"
  using assms
  by (auto simp: rule_site_def bindR_eq_Inr split: ExpressionNode.splits literal.splits if_splits)

lemma deps_height: "expressionDependencies e = Inr d \<Longrightarrow> height e \<le> 256"
  using expressionDependencies_deep [of e] by (cases "256 < height e") auto

lemma compile_steps_ok:
  assumes "compile_steps src = Inr c"
  shows "compiled_source c = src" "parse src = Inr (compiled_ast c)" "height (compiled_ast c) \<le> 256"
    "\<exists>t. type_of (compiled_ast c) = Inr t"
    "set (compiled_variables c) = names_in variable_names (compiled_ast c)"
    "set (compiled_functions c) = names_in function_names (compiled_ast c)"
    "\<forall>r \<in> set (compiled_rules c). \<exists>n \<in> set (postorder (compiled_ast c)). rule_site src n = Inr (Some r)"
    "js ''fixed'' \<in> names_in function_names (compiled_ast c) \<Longrightarrow>
       validateFixedPricingTree (compiled_rules c) (compiled_ast c) = Inr ()"
proof -
  obtain ast vars funs rules where p: "parse src = Inr ast" "checkExpressionTypes ast = Inr ()"
    "expressionDependencies ast = Inr (vars, funs)" "visitExpression ast (rule_visitor src) [] = Inr rules"
    "(if js ''fixed'' \<in> set funs then validateFixedPricingTree rules ast else Inr ()) = Inr ()"
    "c = \<lparr>compiled_source = src, compiled_ast = ast, compiled_variables = vars,
           compiled_functions = funs, compiled_rules = rules\<rparr>"
    using assms by (auto simp: compile_steps_def bindR_eq_Inr)
  have h: "height ast \<le> 256" using deps_height [OF p(3)] .
  have d: "set vars = names_in variable_names ast" "set funs = names_in function_names ast"
    using p(3) expressionDependencies_names [OF h] by (auto simp: names_in_def)
  have "\<exists>t. type_of ast = Inr t"
    using p(2) checkExpressionTypes_type_of [OF h] by (cases "type_of ast") auto
  moreover have "\<forall>r \<in> set rules. \<exists>n \<in> set (postorder ast). rule_site src n = Inr (Some r)"
    using p(4) rule_visitor_result [of src "postorder ast" "[]" rules] visitExpression_postorder [OF h, of "rule_visitor src" "[]"] by auto
  ultimately show "compiled_source c = src" "parse src = Inr (compiled_ast c)" "height (compiled_ast c) \<le> 256"
    "\<exists>t. type_of (compiled_ast c) = Inr t"
    "set (compiled_variables c) = names_in variable_names (compiled_ast c)"
    "set (compiled_functions c) = names_in function_names (compiled_ast c)"
    "\<forall>r \<in> set (compiled_rules c). \<exists>n \<in> set (postorder (compiled_ast c)). rule_site src n = Inr (Some r)"
    "js ''fixed'' \<in> names_in function_names (compiled_ast c) \<Longrightarrow>
       validateFixedPricingTree (compiled_rules c) (compiled_ast c) = Inr ()"
    using p h d by (auto split: if_splits)
qed

section \<open>The shape of fixed-price expressions\<close>

text \<open>
  What \<open>validateFixedPricingTree\<close> accepts, as a grammar: tiers priced by a literal amount or by an
  expression free of markers, chosen by conditions free of markers and scaled by the image count or by
  request rules.
\<close>

definition multiplier_node :: "RequestRuleSite list \<Rightarrow> ExpressionNode \<Rightarrow> bool" where
  "multiplier_node rules f \<longleftrightarrow> is_image_count f \<or>
     (\<exists>rule. find (\<lambda>r. site_node r = f) rules = Some rule \<and> js_le zero_num (site_multiplier rule) \<and>
        \<not> has_marker (site_condition rule))"

definition fixed_amount :: "ExpressionNode \<Rightarrow> jsnum \<Rightarrow> bool" where
  "fixed_amount p amount \<longleftrightarrow> (\<exists>i a b s e. p = Call (js ''fixed'') [Literal (LNum amount) i a b] s e) \<and>
     js_le zero_num amount \<and> isFinite (js_mul amount million)"

inductive fixed_tree :: "RequestRuleSite list \<Rightarrow> ExpressionNode \<Rightarrow> bool" for rules where
  ft_choice: "\<not> has_marker c \<Longrightarrow> fixed_tree rules y \<Longrightarrow> fixed_tree rules n \<Longrightarrow>
    fixed_tree rules (Conditional c y n s e)"
| ft_scaled: "multiplier_node rules r \<Longrightarrow> fixed_tree rules l \<Longrightarrow> fixed_tree rules (Binary (js ''*'') l r s e)"
| ft_scales: "\<not> multiplier_node rules r \<Longrightarrow> multiplier_node rules l \<Longrightarrow> fixed_tree rules r \<Longrightarrow>
    fixed_tree rules (Binary (js ''*'') l r s e)"
| ft_fixed: "\<not> has_marker name \<Longrightarrow> fixed_amount price amount \<Longrightarrow>
    fixed_tree rules (Call (js ''tier'') [name, price] s e)"
| ft_tier: "\<not> has_marker name \<Longrightarrow> \<not> has_marker price \<Longrightarrow>
    fixed_tree rules (Call (js ''tier'') [name, price] s e)"

inductive_simps fixed_tree_simps:
  "fixed_tree rules (Conditional c y n s e)"
  "fixed_tree rules (Binary f l r s e)"
  "fixed_tree rules (Call f args s e)"
  "fixed_tree rules (Literal v i s e)"
  "fixed_tree rules (Variable x s e)"
  "fixed_tree rules (Unary f x s e)"

lemma height_child: "c \<in> set (children n) \<Longrightarrow> height n \<le> k \<Longrightarrow> height c \<le> k"
  using height_le [of n k] by force

lemma find_SomeD: "find P xs = Some x \<Longrightarrow> x \<in> set xs"
  by (induction xs) (auto split: if_splits)

lemma is_multiplier_eq:
  "\<forall>r \<in> set rules. height (site_condition r) \<le> 256 \<Longrightarrow> is_multiplier rules f = Inr (multiplier_node rules f)"
  by (cases "find (\<lambda>r. site_node r = f) rules")
    (auto simp: is_multiplier_def multiplier_node_def containsPricingMarker_eq dest: find_SomeD)

lemma has_marker_Call: "has_marker (Call f args s e) \<longleftrightarrow> f \<in> {js ''tier'', js ''fixed''} \<or> (\<exists>a \<in> set args. has_marker a)"
  unfolding has_marker_def names_in_def set_postorder [of "Call f args s e"] by auto

lemma is_priced_tier_eq:
  assumes "wf_ast n" "height n \<le> 256"
  shows "is_priced_tier n = Inr (\<exists>name price s e. n = Call (js ''tier'') [name, price] s e \<and> \<not> has_marker name \<and>
    ((\<exists>amount. fixed_amount price amount) \<or> \<not> has_marker price))"
proof (cases "\<exists>args s e. n = Call (js ''tier'') args s e")
  case False
  then show ?thesis by (auto simp: is_priced_tier_def split: ExpressionNode.splits)
next
  case True
  then obtain args s e where n: "n = Call (js ''tier'') args s e" by blast
  then have "length args = 2" using assms(1) by (simp add: node_invariants BILLING_FUNCTIONS_def)
  then obtain a p where args: "args = [a, p]" by (auto simp: length_Suc_conv numeral_2_eq_2)
  have h: "height a \<le> 256" "height p \<le> 256" using assms(2) n args height_child [of _ n 256] by auto
  have wp: "wf_ast p" using assms(1) n args by (simp add: node_invariants)
  show ?thesis
  proof (cases "\<exists>gs s e. p = Call (js ''fixed'') gs s e")
    case True
    then obtain gs s' e' where p: "p = Call (js ''fixed'') gs s' e'" by blast
    then have "length gs = 1" using wp by (simp add: node_invariants BILLING_FUNCTIONS_def)
    then obtain g where g: "gs = [g]" by (auto simp: length_Suc_conv)
    have "has_marker p" using p by (simp add: has_marker_Call)
    then show ?thesis using n args p g h
      by (cases g) (auto simp: is_priced_tier_def containsPricingMarker_eq fixed_amount_def split: literal.splits)
  next
    case False
    then have "is_priced_tier n = Inr (\<not> has_marker a \<and> \<not> has_marker p)"
      using n args h by (cases p) (auto simp: is_priced_tier_def containsPricingMarker_eq)
    then show ?thesis using False n args by (auto simp: fixed_amount_def)
  qed
qed

lemma validateFixedPricingTree_iff:
  assumes "wf_ast n" "height n \<le> 256" "\<forall>r \<in> set rules. height (site_condition r) \<le> 256"
  shows "validateFixedPricingTree rules n = Inr () \<longleftrightarrow> fixed_tree rules n"
  using assms
proof (induction rules n rule: validateFixedPricingTree.induct)
  case (1 rules c y n s e)
  let ?n = "Conditional c y n s e"
  have h: "height c \<le> 256" "height y \<le> 256" "height n \<le> 256"
    using "1.prems"(2) height_child [of _ ?n 256] by auto
  have "wf_ast y" "wf_ast n" using "1.prems"(1) by (auto simp: wf_ast_iff [of ?n])
  then show ?case using 1 h
    by (auto simp: fixed_tree_simps containsPricingMarker_eq reject_pricing_def bindR_eq_Inr)
next
  case (2 rules f l r s e)
  let ?n = "Binary f l r s e"
  have h: "height l \<le> 256" "height r \<le> 256"
    using "2.prems"(2) height_child [of _ ?n 256] by auto
  have "wf_ast l" "wf_ast r" using "2.prems"(1) by (auto simp: wf_ast_iff [of ?n])
  then show ?case using 2 h
    by (auto simp: fixed_tree_simps is_multiplier_eq reject_pricing_def)
qed (auto simp: fixed_tree_simps is_priced_tier_eq reject_pricing_def)

end
