(* ===== verification/Compile_Errors.thy ===== *)
theory Compile_Errors
  imports Compile
begin

text \<open>
  Compilation never fails with an error of the host: every failure of the lexer, the parser, the type
  checker and the validation carries a diagnostic, and none of them asks for a missing context.
\<close>

definition compile_error :: "exn \<Rightarrow> bool" where
  "compile_error e \<longleftrightarrow> (\<exists>d. e = BillingExpressionError d \<and> diag_code d \<noteq> Missing_context)"

lemma compile_error_simps [simp]:
  "compile_error (billing_error c d p) \<longleftrightarrow> c \<noteq> Missing_context"
  "\<not> compile_error (HostError m)"
  by (simp_all add: compile_error_def)

lemma lex_string_body_error: "errs compile_error (lex_string_body q st cur rest v)"
proof (induction q st cur rest v rule: lex_string_body.induct)
  case (1 q st cur v)
  then show ?case by simp
next
  case (2 q st cur char rest v)
  show ?case by (subst lex_string_body.simps) (intro errs_intros; (rule 2; assumption)?; simp)
qed

lemma lex_next_error: "errs compile_error (lex_next src cur cnt)"
  unfolding lex_next_def by (intro errs_intros lex_string_body_error) simp_all

lemma take_lexeme_error: "errs compile_error (take_lexeme src st)"
  unfolding take_lexeme_def by (intro errs_intros lex_next_error) simp_all

lemma expect_lexeme_error: "errs compile_error (expect_lexeme src t st)"
  unfolding expect_lexeme_def by (intro errs_intros take_lexeme_error) simp_all

lemma parser_init_error: "errs compile_error (parser_init src)"
  unfolding parser_init_def by (intro errs_intros lex_next_error) simp_all

lemmas lexeme_errors = take_lexeme_error expect_lexeme_error

lemma parser_error:
  "errs compile_error (expression src m st)"
  "errs compile_error (binary_loop src m l st)"
  "errs compile_error (primary src st)"
  "errs compile_error (call_arguments src as st)"
proof (induction src m st and src m l st and src st and src as st
    rule: expression_binary_loop_primary_call_arguments.induct)
  case (1 src m st)
  show ?case
    by (subst expression.simps, unfold Let_def, intro errs_intros lexeme_errors;
        (rule errs_Inr | (rule 1 [OF refl], (assumption | rule refl | rule sym, assumption)+) | simp))
next
  case (2 src m l st)
  show ?case
    by (subst binary_loop.simps, intro errs_intros lexeme_errors;
        (rule errs_Inr | (rule 2, (assumption | rule refl | rule sym, assumption)+) | simp))
next
  case (3 src st)
  show ?case
    by (subst primary.simps, intro errs_intros lexeme_errors;
        (rule errs_Inr | (rule 3, (assumption | rule refl | rule sym, assumption)+) | simp))
next
  case (4 src as st)
  show ?case
    by (subst call_arguments.simps, intro errs_intros lexeme_errors;
        (rule errs_Inr | (rule 4, (assumption | rule refl | rule sym, assumption)+) | simp))
qed

lemma parse_error: "errs compile_error (parse src)"
  unfolding parse_def by (intro errs_intros parser_init_error parser_error(1)) simp_all

text \<open>The type checker reads arguments that the parser has made sure of.\<close>

lemma requireType_error: "child \<noteq> None \<Longrightarrow> errs compile_error (requireType types child t)"
  unfolding requireType_def by (intro errs_intros) simp_all

lemma arity_cases:
  "map_of BILLING_FUNCTIONS f = Some k \<Longrightarrow>
     k = 2 \<and> f \<in> {js ''tier'', js ''has'', js ''min'', js ''max''} \<or>
     k = 1 \<and> f \<notin> {js ''tier'', js ''has'', js ''min'', js ''max''}"
  by (auto simp: BILLING_FUNCTIONS_def split: if_splits)

lemma call_type_error:
  assumes "map_of BILLING_FUNCTIONS f = Some (length args)"
  shows "errs compile_error (call_type types f args)"
proof -
  have "arg_at args 0 \<noteq> None" "f \<in> {js ''tier'', js ''has''} \<Longrightarrow> arg_at args 1 \<noteq> None"
    using arity_cases [OF assms] by (auto simp: arg_at_def)
  then show ?thesis unfolding call_type_def
    by (intro errs_intros errs_foldR requireType_error) simp_all
qed

lemma node_type_error: "wf_node n \<Longrightarrow> errs compile_error (node_type types n)"
  by (cases n) (simp_all add: node_type_def Let_def call_type_error errs_bind requireType_error)

lemma type_of_error: "wf_ast n \<Longrightarrow> errs compile_error (type_of n)"
proof (induction n rule: type_of.induct)
  case (1 n)
  then show ?case by (subst type_of.simps)
      (auto intro!: errs_bind errs_mapR node_type_error simp: wf_ast_iff [of n])
qed

text \<open>The walk adds the depth limit to what its visitor throws.\<close>

lemma errs_visit_loop:
  assumes "P (billing_error Limit (js ''expression depth'') None)"
  shows "\<forall>x \<in> set stack. \<forall>m \<in> set (postorder (fst x)). \<forall>s. errs P (f m s) \<Longrightarrow> errs P (visit_loop f stack s)"
proof (induction f stack s rule: visit_loop.induct)
  case (1 f s)
  then show ?case by simp
next
  case (2 f n visited d stack s)
  consider "256 < d" | "\<not> 256 < d" "visited" | "\<not> 256 < d" "\<not> visited" by blast
  then show ?case
  proof cases
    case 1
    then show ?thesis using assms by (simp add: visit_loop.simps(2))
  next
    case v: 2
    have "errs P (bindR (f n s) (visit_loop f stack))"
      using "2.prems" "2.IH"(1) [OF v] by (intro errs_bind) auto
    then show ?thesis using v by (simp add: visit_loop.simps(2))
  next
    case 3
    have "errs P (visit_loop f (map (\<lambda>c. (c, False, d + 1)) (children n) @ (n, True, d) # stack) s)"
      using "2.prems" by (intro "2.IH"(2) [OF 3]) (auto simp: set_postorder [of n])
    then show ?thesis using 3 by (simp add: visit_loop.simps(2))
  qed
qed

lemma errs_visitExpression:
  "P (billing_error Limit (js ''expression depth'') None) \<Longrightarrow>
     (\<And>m s. m \<in> set (postorder n) \<Longrightarrow> errs P (f m s)) \<Longrightarrow> errs P (visitExpression n f s)"
  unfolding visitExpression_def by (rule errs_visit_loop) auto

lemma checkExpressionTypes_error: "wf_ast n \<Longrightarrow> errs compile_error (checkExpressionTypes n)"
  unfolding checkExpressionTypes_def type_visitor_def wf_ast_def
  by (intro errs_bind errs_visitExpression node_type_error) auto

lemma expressionDependencies_error: "errs compile_error (expressionDependencies n)"
  unfolding expressionDependencies_def
  by (rule errs_visitExpression) (auto simp: dependency_visitor_def split: prod.splits)

lemma containsPricingMarker_error: "errs compile_error (containsPricingMarker n)"
  unfolding containsPricingMarker_def by (intro errs_intros expressionDependencies_error) simp

lemma rule_site_error: "errs compile_error (rule_site src n)"
  unfolding rule_site_def
  by (auto intro!: errs_intros expressionDependencies_error split: ExpressionNode.splits literal.splits)

lemma is_multiplier_error: "errs compile_error (is_multiplier rules n)"
  unfolding is_multiplier_def by (intro errs_intros containsPricingMarker_error) simp_all

lemma is_priced_tier_error:
  assumes "wf_ast n"
  shows "errs compile_error (is_priced_tier n)"
proof (cases "\<exists>a p s e. n = Call (js ''tier'') [a, p] s e")
  case True
  then obtain a p s e where n: "n = Call (js ''tier'') [a, p] s e" by blast
  then have "wf_ast p" using assms by (simp add: node_invariants)
  then have "p = Call (js ''fixed'') gs s' e' \<Longrightarrow> \<exists>g. gs = [g]" for gs s' e'
    by (cases gs) (auto simp: node_invariants BILLING_FUNCTIONS_def)
  then show ?thesis unfolding n is_priced_tier_def
    by (auto intro!: errs_bind containsPricingMarker_error
        split: ExpressionNode.splits literal.splits list.splits)
next
  case False
  have "length args = 2" if "n = Call (js ''tier'') args s e" for args s e
    using that assms by (simp add: node_invariants BILLING_FUNCTIONS_def)
  with False have "n \<noteq> Call (js ''tier'') args s e" for args s e
    by (auto simp: length_Suc_conv numeral_2_eq_2)
  then show ?thesis by (auto simp: is_priced_tier_def split: ExpressionNode.splits)
qed

lemma reject_pricing_error: "errs compile_error (reject_pricing n)"
  by (simp add: reject_pricing_def)

lemma validateFixedPricingTree_error: "wf_ast n \<Longrightarrow> errs compile_error (validateFixedPricingTree rules n)"
proof (induction rules n rule: validateFixedPricingTree.induct)
  case (1 rules c y n s e)
  then show ?case unfolding validateFixedPricingTree.simps
    by (intro errs_intros containsPricingMarker_error reject_pricing_error) (simp_all add: node_invariants)
next
  case (2 rules f l r s e)
  then show ?case unfolding validateFixedPricingTree.simps
    by (intro errs_intros is_multiplier_error reject_pricing_error) (simp_all add: node_invariants)
qed (unfold validateFixedPricingTree.simps;
    intro errs_intros is_priced_tier_error reject_pricing_error; simp)+

lemma compile_steps_error: "errs compile_error (compile_steps src)"
  unfolding compile_steps_def
  by (intro errs_intros parse_error checkExpressionTypes_error expressionDependencies_error
      errs_visitExpression validateFixedPricingTree_error)
    (auto dest: parse_wf_ast simp: rule_visitor_def intro!: errs_bind rule_site_error)

lemma compile_failure:
  assumes "compile_source src = Failed f"
  shows "\<exists>d. f = \<lparr>failure_status = (if diag_code d = Unsupported \<or> diag_code d = Limit
      then Status_unsupported else Status_invalid), failure_diagnostic = d\<rparr> \<and> diag_code d \<noteq> Missing_context"
proof -
  obtain e where e: "compile_steps src = Inl e" "f = expressionFailure e"
    using assms by (auto simp: compile_source_def split: sum.splits)
  have "compile_error e" using compile_steps_error [of src] e(1) by (simp add: errs_def)
  then show ?thesis using e(2) by (auto simp: compile_error_def expressionFailure_def)
qed

end
