(* ===== verification/Compile_Recent.thy ===== *)
theory Compile_Recent
  imports Compile
begin

text \<open>
  How long the compile cache keeps a result: a result that was just stored survives the next 127
  compilations, whatever their sources are, because only the oldest entry is ever evicted.
\<close>

text \<open>The entry of a source has at most \<open>k\<close> younger entries.\<close>

definition younger :: "jsstr \<Rightarrow> CompilationResult \<Rightarrow> nat \<Rightarrow> compile_cache \<Rightarrow> bool" where
  "younger src r k cache \<longleftrightarrow> (\<exists>older newer. cache = older @ (src, r) # newer \<and> length newer \<le> k)"

lemma younger_append: "younger src r k cache \<Longrightarrow> younger src r (Suc k) (cache @ [p])"
  unfolding younger_def by (metis (no_types, lifting) Suc_le_mono append.assoc append_Cons length_append_singleton)

lemma younger_weaken: "younger src r k cache \<Longrightarrow> younger src r (Suc k) cache"
  unfolding younger_def using le_Suc_eq by blast

lemma delete_head: "distinct (map fst (p # cache)) \<Longrightarrow> js_map_delete (fst p) (p # cache) = cache"
  by (auto simp: js_map_delete_def filter_id_conv split_beta image_iff)

lemma younger_store:
  assumes "younger src r k cache" "k < 127" "length cache \<le> 128" "distinct (map fst cache)" "map_of cache s = None"
  shows "younger src r (Suc k) (cache_store s q cache)"
proof -
  obtain older newer where c: "cache = older @ (src, r) # newer" "length newer \<le> k" using assms(1) by (auto simp: younger_def)
  have new: "s \<notin> fst ` set cache" using assms(5) by (simp add: map_of_eq_None_iff)
  show ?thesis
  proof (cases "length cache < 128")
    case True
    then have "cache_store s q cache = cache @ [(s, q)]"
      using new by (cases cache) (auto simp: cache_store_def js_map_set_def Let_def)
    then show ?thesis using younger_append [OF assms(1)] by simp
  next
    case False
    then obtain p older' where o: "older = p # older'" using c assms(2) by (cases older) auto
    let ?rest = "older' @ (src, r) # newer"
    have d: "js_map_delete (fst p) cache = ?rest" using delete_head [of p ?rest] assms(4) c o by simp
    have "s \<notin> fst ` set ?rest" using new c o by auto
    then have "js_map_set s q ?rest = ?rest @ [(s, q)]" by (simp add: js_map_set_def)
    moreover have "cache_store s q cache = js_map_set s q (js_map_delete (fst p) cache)"
      using False c(1) o by (cases p) (simp add: cache_store_def Let_def)
    ultimately have "cache_store s q cache = ?rest @ [(s, q)]" using d by simp
    moreover have "younger src r k ?rest" using c(2) by (auto simp: younger_def)
    ultimately show ?thesis using younger_append by metis
  qed
qed

lemma younger_call:
  assumes "younger src r k cache" "k < 127" "cache_ok cache"
  shows "younger src r (Suc k) (snd (compileBillingExpression s cache))"
  using assms younger_store [OF assms(1,2)] younger_weaken [OF assms(1)]
  by (auto simp: compileBillingExpression_def cache_ok_def Let_def split: option.splits)

lemma younger_calls:
  "younger src r k cache \<Longrightarrow> k + length others \<le> 127 \<Longrightarrow> cache_ok cache \<Longrightarrow>
     younger src r (k + length others) (snd (compile_calls others cache)) \<and>
     cache_ok (snd (compile_calls others cache))"
proof (induction others arbitrary: k cache)
  case (Cons s others)
  have "younger src r (Suc k) (snd (compileBillingExpression s cache))" using Cons.prems by (intro younger_call) auto
  then show ?case using Cons.IH [of "Suc k"] Cons.prems cache_ok_step by (simp add: split_beta Let_def)
qed simp

lemma younger_lookup: "younger src r k cache \<Longrightarrow> distinct (map fst cache) \<Longrightarrow> map_of cache src = Some r"
  by (auto simp: younger_def)

lemma stored_youngest:
  assumes "cache_ok cache" "map_of cache src = None"
  shows "younger src (compile_source src) 0 (snd (compileBillingExpression src cache))"
proof -
  let ?c = "case cache of [] \<Rightarrow> cache | (oldest, _) # _ \<Rightarrow> if 128 \<le> length cache then js_map_delete oldest cache else cache"
  have "set ?c \<subseteq> set cache" by (auto simp: js_map_delete_def split: list.splits)
  then have "src \<notin> fst ` set ?c" using assms(2) unfolding map_of_eq_None_iff by blast
  then have "cache_store src (compile_source src) cache = ?c @ [(src, compile_source src)]"
    by (simp add: cache_store_def Let_def js_map_set_def)
  then show ?thesis using assms(2) by (auto simp: compileBillingExpression_def younger_def Let_def)
qed

lemma recent_kept:
  assumes "cache_ok cache" "map_of cache src = None" "length others \<le> 127"
  shows "map_of (snd (compile_calls others (snd (compileBillingExpression src cache)))) src
    = Some (compile_source src)"
  using younger_calls [OF stored_youngest [OF assms(1,2)], of others] cache_ok_step [OF assms(1)] assms(3)
  by (intro younger_lookup) (auto simp: cache_ok_def)

end
