(* ===== verification/Parser_Bounds.thy ===== *)
theory Parser_Bounds
  imports Parser_Props
begin

text \<open>
  What bounds the work on an expression: reading it takes at most 10000 lexemes, and every node of the
  tree is paid for by a lexeme of its own, so that a walk over the tree ends after at most as many visits.
\<close>

abbreviation nodes :: "ExpressionNode \<Rightarrow> nat" where
  "nodes e \<equiv> length (postorder e)"

lemma nodes_children: "nodes e = sum_list (map nodes (children e)) + 1"
  by (simp add: postorder.simps [of e] length_concat o_def)

lemma nodes_simps [simp]:
  "nodes (Literal v i a b) = 1" "nodes (Variable x a b) = 1" "nodes (Unary f e a b) = nodes e + 1"
  "nodes (Binary f l r a b) = nodes l + nodes r + 1" "nodes (Conditional c y n a b) = nodes c + nodes y + nodes n + 1"
  "nodes (Call f as a b) = sum_list (map nodes as) + 1" "nodes (respan e a b) = nodes e"
  by (simp_all add: nodes_children [of "Literal v i a b"] nodes_children [of "Variable x a b"] nodes_children [of "Unary f e a b"]
      nodes_children [of "Binary f l r a b"] nodes_children [of "Conditional c y n a b"] nodes_children [of "Call f as a b"]
      nodes_children [of "respan e a b"] nodes_children [of e])

lemma atom_nodes: "atom_node t st n \<Longrightarrow> nodes n = 1"
  by (auto simp: atom_node_def)

lemma parse_nodes:
  "parse_expr src m st e st' \<Longrightarrow> nodes e + p_count st \<le> p_count st'"
  "parse_loop src m l st e st' \<Longrightarrow> nodes e + p_count st \<le> p_count st' + nodes l"
  "parse_prim src st e st' \<Longrightarrow> nodes e + p_count st \<le> p_count st'"
  "parse_args src as st es st' \<Longrightarrow> sum_list (map nodes es) + p_count st \<le> p_count st' + sum_list (map nodes as)"
  by (induction rule: parse_induct) (auto dest!: take_lexeme_count expect_lexeme_count simp: atom_nodes)

lemma parse_limit:
  "parse_expr src m st e st' \<Longrightarrow> p_count st' \<le> 10000"
  "parse_loop src m l st e st' \<Longrightarrow> p_count st \<le> 10000 \<Longrightarrow> p_count st' \<le> 10000"
  "parse_prim src st e st' \<Longrightarrow> p_count st' \<le> 10000"
  "parse_args src as st es st' \<Longrightarrow> p_count st \<le> 10000 \<Longrightarrow> p_count st' \<le> 10000"
  by (induction rule: parse_induct) (auto dest!: take_lexeme_count expect_lexeme_count)

lemma init_count: "parser_init src = Inr st \<Longrightarrow> p_count st = 1"
  by (auto simp: parser_init_def bindR_eq_Inr dest: lex_next_props(1) split: if_splits)

lemma parse_size:
  assumes "parse src = Inr e"
  shows "nodes e < 10000"
proof -
  obtain st st' where p: "parser_init src = Inr st" "parse_expr src 0 st e st'" using assms by (auto simp: parse_iff)
  then show ?thesis using parse_nodes(1) [OF p(2)] parse_limit(1) [OF p(2)] init_count [OF p(1)] by simp
qed

end
