(* ===== verification/JS_Value.thy ===== *)
theory JS_Value
  imports Expr_Types Memo
begin

text \<open>
  Dynamic values of the host language as the runtime meets them (request bodies, task usage, token
  counts), and the calendar fields of a point in time in UTC. An object is the list of its own
  properties in enumeration order.
\<close>

datatype jsval =
    JUndef
  | JNull
  | JBool bool
  | JNum jsnum
  | JStr jsstr
  | JArr "jsval list"
  | JObj "(jsstr \<times> jsval) list"

fun lit_val :: "literal \<Rightarrow> jsval" where
  "lit_val (LStr s) = JStr s"
| "lit_val (LNum x) = JNum x"
| "lit_val (LBool b) = JBool b"
| "lit_val LNull = JNull"

text \<open>\<open>value == null\<close>, and \<open>typeof value === 'object'\<close> for a value that is not \<open>null\<close>.\<close>

fun nullish :: "jsval \<Rightarrow> bool" where
  "nullish JUndef = True"
| "nullish JNull = True"
| "nullish _ = False"

fun is_object :: "jsval \<Rightarrow> bool" where
  "is_object (JArr _) = True"
| "is_object (JObj _) = True"
| "is_object _ = False"

text \<open>\<open>a === b\<close> where at most one side is an object.\<close>

fun strict_eq :: "jsval \<Rightarrow> jsval \<Rightarrow> bool" where
  "strict_eq JUndef JUndef = True"
| "strict_eq JNull JNull = True"
| "strict_eq (JBool a) (JBool b) = (a = b)"
| "strict_eq (JNum a) (JNum b) = js_num_eq a b"
| "strict_eq (JStr a) (JStr b) = (a = b)"
| "strict_eq _ _ = False"

definition array_get :: "jsval list \<Rightarrow> jsnum \<Rightarrow> jsval" where
  "array_get xs x =
     (let i = \<lfloor>num_val x\<rfloor> in if 0 \<le> i \<and> i < int (length xs) then xs ! nat i else JUndef)"

text \<open>Values stay values at every depth.\<close>

lemma size_JArr: "v \<in> set vs \<Longrightarrow> size v < size (JArr vs)"
  by (induction vs) auto

lemma size_JObj: "(k, v) \<in> set es \<Longrightarrow> size v < size (JObj es)"
  by (induction es) auto

section \<open>Time\<close>

text \<open>A time value counts milliseconds since 1970-01-01T00:00:00Z.\<close>

definition utc_hours :: "int \<Rightarrow> int" where
  "utc_hours t = (t div 3600000) mod 24"

definition utc_minutes :: "int \<Rightarrow> int" where
  "utc_minutes t = (t div 60000) mod 60"

definition utc_day :: "int \<Rightarrow> int" where
  "utc_day t = (t div 86400000 + 4) mod 7"

text \<open>
  The month (1 to 12) and the day of the month of a day number, with years that start in March: the day
  of the 400-year era, the year of the era, the day of that year, the month of that year.
\<close>

definition month_and_date :: "int \<Rightarrow> int \<times> int" where
  "month_and_date days =
     (let doe = (days + 719468) mod 146097;
          yoe = (doe - doe div 1460 + doe div 36524 - doe div 146096) div 365;
          doy = doe - (365 * yoe + yoe div 4 - yoe div 100);
          mp = (5 * doy + 2) div 153
      in (if mp < 10 then mp + 3 else mp - 9, doy - (153 * mp + 2) div 5 + 1))"

definition utc_month :: "int \<Rightarrow> int" where
  "utc_month t = fst (month_and_date (t div 86400000)) - 1"

definition utc_date :: "int \<Rightarrow> int" where
  "utc_date t = snd (month_and_date (t div 86400000))"

lemma utc_ranges:
  "0 \<le> utc_hours t \<and> utc_hours t < 24" "0 \<le> utc_minutes t \<and> utc_minutes t < 60" "0 \<le> utc_day t \<and> utc_day t < 7"
  by (simp_all add: utc_hours_def utc_minutes_def utc_day_def)

end
