(* ===== verification/Runtime.thy ===== *)
theory Runtime
  imports Compile JS_Value
begin

text \<open>
  Evaluation of compiled billing expressions
  (\<^verbatim>\<open>features/pricing/lib/billing-expression/runtime.ts\<close>): reading request paths, printing request
  values, the clock in a time zone, the class \<open>BillingRuntime\<close> and the two entry points.

  The object's fields are the record \<open>rt\<close>. Its depth counter is incremented on entry to \<open>evaluate\<close> and
  decremented in a \<open>finally\<close> clause, so it is an argument here. An exception ends the evaluation and
  the object is dropped, so failures carry no state. The methods other than \<open>evaluate\<close> take the
  evaluator of the subexpressions as an argument; \<open>evaluate\<close> ties the knot.
\<close>

section \<open>Request values\<close>

text \<open>The loop that splits a path at its unescaped dots.\<close>

fun path_parts :: "jsstr \<Rightarrow> jsstr \<Rightarrow> jsstr \<Rightarrow> jsstr list \<Rightarrow> exn + jsstr list" where
  "path_parts path [] part parts = Inr (parts @ [part])"
| "path_parts path (char # rest) part parts =
     (if char = 92 then
        (case rest of
           [] \<Rightarrow> Inl (billing_error Unsupported path None)
         | escaped # rest' \<Rightarrow> path_parts path rest' (part @ [escaped]) parts)
      else if char = 46 then path_parts path rest [] (parts @ [part])
      else if char \<in> set (js ''*?[]()|@!'') then Inl (billing_error Unsupported path None)
      else path_parts path rest (part @ [char]) parts)"

definition nullish_to_null :: "jsval \<Rightarrow> jsval" where
  "nullish_to_null v = (if nullish v then JNull else v)"

fun walk_path :: "jsstr \<Rightarrow> jsstr list \<Rightarrow> jsval \<Rightarrow> exn + jsval" where
  "walk_path path [] v = Inr (nullish_to_null v)"
| "walk_path path (key # rest) (JArr xs) =
     (if key = js ''#'' \<and> rest = [] then Inr (JNum (num_of_int (int (length xs))))
      else if key = js ''#'' then Inl (billing_error Unsupported path None)
      else if key = [] \<or> \<not> list_all is_digit key then Inr JNull
      else let index = js_Number key
           in walk_path path rest (if isSafeInteger index then array_get xs index else JUndef))"
| "walk_path path (key # rest) (JObj fs) =
     (case map_of fs key of None \<Rightarrow> Inr JNull | Some v \<Rightarrow> walk_path path rest v)"
| "walk_path path (key # rest) v = Inr JNull"

definition readRequestPath :: "jsval \<Rightarrow> jsstr \<Rightarrow> exn + jsval" where
  "readRequestPath body rawPath =
     (let path = trim rawPath
      in if path = [] then Inr JNull
         else bindR (path_parts path path [] []) (\<lambda>parts. walk_path path parts body))"

definition pad2 :: "jsstr \<Rightarrow> jsstr" where
  "pad2 s = (if length s < 2 then replicate (2 - length s) 48 @ s else s)"

definition number_text :: "jsnum \<Rightarrow> exn + jsstr" where
  "number_text x =
     (case x of
        Fin neg m \<Rightarrow>
          if neg \<and> m = 0 then Inr (js ''-0'')
          else (case to_exponential neg m of
                  (mantissa, ex) \<Rightarrow>
                    if 6 \<le> ex \<or> ex < -4
                    then Inr (mantissa @ 101 # (if ex < 0 then 45 else 43) # pad2 (digits_of \<bar>ex\<bar>))
                    else Inr (num_to_string x))
      | _ \<Rightarrow> Inl (billing_error Number_code (js ''request number'') None))"

function billingString :: "jsval \<Rightarrow> nat \<Rightarrow> exn + jsstr" where
  "billingString v depth =
     (if 128 < depth then Inl (billing_error Limit (js ''request value depth'') None)
      else
        case v of
          JUndef \<Rightarrow> Inr (js ''<nil>'')
        | JNull \<Rightarrow> Inr (js ''<nil>'')
        | JArr items \<Rightarrow>
            bindR (mapR (\<lambda>item. billingString item (depth + 1)) items)
              (\<lambda>texts. Inr (js ''['' @ join (js '' '') texts @ js '']''))
        | JObj entries \<Rightarrow>
            bindR (mapR (\<lambda>(key, item). bindR (billingString item (depth + 1)) (\<lambda>t. Inr (key @ js '':'' @ t)))
                     (sort_key fst entries))
              (\<lambda>texts. Inr (js ''map['' @ join (js '' '') texts @ js '']''))
        | JNum x \<Rightarrow> number_text x
        | JBool b \<Rightarrow> Inr (if b then js ''true'' else js ''false'')
        | JStr s \<Rightarrow> Inr s)"
  by pat_completeness auto
termination
  by (relation "measure (\<lambda>(v, _). size v)") (auto dest: size_JArr size_JObj)

declare billingString.simps [simp del]

section \<open>The clock\<close>

text \<open>
  The host: the current time in milliseconds, lower case, and \<open>Intl.DateTimeFormat\<close> as a function
  from a zone to \<open>None\<close> (the constructor throws) or to the resolved zone and \<open>formatToParts\<close>.
\<close>

record host =
  host_now :: int
  toLowerCase :: "jsstr \<Rightarrow> jsstr"
  date_time_format :: "jsstr \<Rightarrow> (jsstr \<times> (int \<Rightarrow> (jsstr \<times> jsstr) list)) option"

record TimeValues =
  tv_hour :: jsnum
  tv_minute :: jsnum
  tv_weekday :: jsnum
  tv_month :: jsnum
  tv_day :: jsnum

definition time_field :: "jsstr \<Rightarrow> TimeValues \<Rightarrow> jsnum" where
  "time_field name v =
     (if name = js ''hour'' then tv_hour v else if name = js ''minute'' then tv_minute v
      else if name = js ''weekday'' then tv_weekday v else if name = js ''month'' then tv_month v
      else tv_day v)"

definition is_zone_char :: "code_unit \<Rightarrow> bool" where
  "is_zone_char c \<longleftrightarrow> is_word c \<or> c = 43 \<or> c = 45"

text \<open>\<open>^[A-Z][A-Za-z0-9_+-]*(?:\/[A-Z][A-Za-z0-9_+-]*)*$\<close>; \<open>at_start\<close> holds where a segment has to begin.\<close>

fun is_zone_name :: "bool \<Rightarrow> jsstr \<Rightarrow> bool" where
  "is_zone_name at_start [] = (\<not> at_start)"
| "is_zone_name at_start (c # cs) =
     (if at_start then is_upper c \<and> is_zone_name False cs
      else if c = 47 then is_zone_name True cs
      else is_zone_char c \<and> is_zone_name False cs)"

definition utc_values :: "int \<Rightarrow> TimeValues" where
  "utc_values t =
     \<lparr>tv_hour = num_of_int (utc_hours t), tv_minute = num_of_int (utc_minutes t),
      tv_weekday = num_of_int (utc_day t), tv_month = num_of_int (utc_month t + 1),
      tv_day = num_of_int (utc_date t)\<rparr>"

definition WEEKDAY_NAMES :: "jsstr list" where
  "WEEKDAY_NAMES = [js ''Sun'', js ''Mon'', js ''Tue'', js ''Wed'', js ''Thu'', js ''Fri'', js ''Sat'']"

text \<open>\<open>Number(parts.field)\<close>, where a part that is missing is \<open>undefined\<close>.\<close>

definition part_number :: "(jsstr \<rightharpoonup> jsstr) \<Rightarrow> jsstr \<Rightarrow> jsnum" where
  "part_number parts f = (case parts f of None \<Rightarrow> NaN | Some s \<Rightarrow> js_Number s)"

definition zone_values :: "(jsstr \<times> jsstr) list \<Rightarrow> TimeValues" where
  "zone_values formatted =
     (let parts = map_of (rev formatted)
      in \<lparr>tv_hour = part_number parts (js ''hour''), tv_minute = part_number parts (js ''minute''),
          tv_weekday = (case parts (js ''weekday'') of
                          None \<Rightarrow> num_of_int (-1)
                        | Some w \<Rightarrow> (case find_index (\<lambda>n. n = w) WEEKDAY_NAMES of
                                      None \<Rightarrow> num_of_int (-1) | Some i \<Rightarrow> num_of_int (int i))),
          tv_month = part_number parts (js ''month''), tv_day = part_number parts (js ''day'')\<rparr>)"

text \<open>A date is its time value, \<open>None\<close> for an invalid date.\<close>

definition timeInBillingZone :: "host \<Rightarrow> int option \<Rightarrow> jsstr \<Rightarrow> exn + TimeValues" where
  "timeInBillingZone H now zone =
     (case now of
        None \<Rightarrow> Inl (billing_error Type_code (js ''simulation time'') None)
      | Some t \<Rightarrow>
          (let timezone = (if trim zone = [] then js ''UTC'' else trim zone)
           in if timezone = js ''Local'' then
                Inl (billing_error Unsupported (js ''server Local timezone'') None)
              else if \<not> is_zone_name True timezone then Inr (utc_values t)
              else
                (case date_time_format H timezone of
                   None \<Rightarrow> Inr (utc_values t)
                 | Some (resolved, formatToParts) \<Rightarrow>
                     if toLowerCase H resolved = toLowerCase H timezone \<and> resolved \<noteq> timezone
                     then Inr (utc_values t)
                     else Inr (zone_values (formatToParts t)))))"

section \<open>The runtime object\<close>

record RuntimeValue =
  rv_value :: jsval
  rv_integer :: bool

datatype BillingUnit = Unit_token | Unit_request

record RequestContext =
  rq_body :: jsval
  rq_headers :: "(jsstr \<times> jsval) list option"

record BillingSimulationContext =
  cx_imageCount :: "jsnum option"
  cx_tokens :: "(jsstr \<times> jsval) list option"
  cx_request :: "RequestContext option"
  cx_usage :: "(jsstr \<times> jsval) list option"
  cx_now :: "int option option"

record rt =
  rt_rules :: "BillingRequestRule list"
  rt_tier :: jsstr
  rt_unit :: BillingUnit
  rt_fixed :: "jsnum option"
  rt_now :: "int option"
  rt_times :: "(jsstr, TimeValues) js_map"
  rt_headers :: "(jsstr, jsstr) js_map"

definition header_step :: "host \<Rightarrow> jsstr \<times> jsval \<Rightarrow> (jsstr, jsstr) js_map \<Rightarrow> exn + (jsstr, jsstr) js_map" where
  "header_step H entry headers =
     (case entry of
        (name, JStr rawValue) \<Rightarrow>
          (let key = toLowerCase H (trim name); val = trim rawValue
           in Inr (if key \<noteq> [] \<and> val \<noteq> [] then js_map_set key val headers else headers))
      | _ \<Rightarrow> Inl (billing_error Type_code (js ''request header'') None))"

definition request_headers :: "BillingSimulationContext \<Rightarrow> (jsstr \<times> jsval) list" where
  "request_headers X =
     (case cx_request X of
        None \<Rightarrow> []
      | Some r \<Rightarrow> (case rq_headers r of None \<Rightarrow> [] | Some hs \<Rightarrow> hs))"

definition runtime_init :: "host \<Rightarrow> RequestRuleSite list \<Rightarrow> BillingSimulationContext \<Rightarrow> exn + rt" where
  "runtime_init H rules X =
     bindR (foldR (header_step H) (request_headers X) []) (\<lambda>headers.
     Inr \<lparr>rt_rules = map (\<lambda>r. \<lparr>rule_text = site_cond r, rule_multiplier = site_multiplier r,
                             rule_matched = False\<rparr>) rules,
          rt_tier = [], rt_unit = Unit_token, rt_fixed = None,
          rt_now = (case cx_now X of Some now \<Rightarrow> now | None \<Rightarrow> Some (host_now H)),
          rt_times = [], rt_headers = headers\<rparr>)"

text \<open>An evaluator of subexpressions.\<close>

type_synonym evaluator = "ExpressionNode \<Rightarrow> rt \<Rightarrow> exn + RuntimeValue \<times> rt"

definition boolean_of :: "evaluator \<Rightarrow> ExpressionNode \<Rightarrow> rt \<Rightarrow> exn + bool \<times> rt" where
  "boolean_of ev node st =
     bindR (ev node st) (\<lambda>(result, st).
       case rv_value result of
         JBool b \<Rightarrow> Inr (b, st)
       | _ \<Rightarrow> Inl (billing_error Type_code (js ''boolean condition'') (Some (node_start node))))"

definition numeric_of :: "evaluator \<Rightarrow> ExpressionNode \<Rightarrow> rt \<Rightarrow> exn + (jsnum \<times> bool) \<times> rt" where
  "numeric_of ev node st =
     bindR (ev node st) (\<lambda>(result, st).
       case rv_value result of
         JNum x \<Rightarrow> Inr ((x, rv_integer result), st)
       | _ \<Rightarrow> Inl (billing_error Type_code (js ''numeric operand'') (Some (node_start node))))"

definition string_of :: "evaluator \<Rightarrow> ExpressionNode \<Rightarrow> rt \<Rightarrow> exn + jsstr \<times> rt" where
  "string_of ev node st =
     bindR (ev node st) (\<lambda>(result, st).
       case rv_value result of
         JStr s \<Rightarrow> Inr (s, st)
       | _ \<Rightarrow> Inl (billing_error Type_code (js ''string argument'') (Some (node_start node))))"

abbreviation plain :: "jsval \<Rightarrow> RuntimeValue" where
  "plain v \<equiv> \<lparr>rv_value = v, rv_integer = False\<rparr>"

text \<open>The operators that evaluate both operands, applied to their values.\<close>

definition compare_values :: "jsstr \<Rightarrow> jsval \<Rightarrow> jsval \<Rightarrow> bool option" where
  "compare_values operator a b =
     (let lt = (case (a, b) of (JNum x, JNum y) \<Rightarrow> Some (js_lt x y, js_le x y, js_lt y x, js_le y x)
                | (JStr x, JStr y) \<Rightarrow> Some (x < y, x \<le> y, y < x, y \<le> x)
                | _ \<Rightarrow> None)
      in case lt of
           None \<Rightarrow> None
         | Some (l, le, g, ge) \<Rightarrow>
             if operator = js ''<'' then Some l
             else if operator = js ''<='' then Some le
             else if operator = js ''>'' then Some g
             else if operator = js ''>='' then Some ge
             else None)"

definition arithmetic :: "jsstr \<Rightarrow> jsnum \<Rightarrow> jsnum \<Rightarrow> bool \<Rightarrow> nat \<Rightarrow> exn + RuntimeValue" where
  "arithmetic operator a b integer pos =
     (if operator = js ''+'' then Inr \<lparr>rv_value = JNum (js_add a b), rv_integer = integer\<rparr>
      else if operator = js ''-'' then Inr \<lparr>rv_value = JNum (js_sub a b), rv_integer = integer\<rparr>
      else if operator = js ''*'' then Inr \<lparr>rv_value = JNum (js_mul a b), rv_integer = integer\<rparr>
      else if operator = js ''/'' then Inr (plain (JNum (js_div a b)))
      else if operator = js ''%'' then
        (if \<not> integer then Inl (billing_error Type_code (js ''integer modulo'') (Some pos))
         else Inr \<lparr>rv_value = JNum (js_mod a b), rv_integer = True\<rparr>)
      else Inl (billing_error Unsupported operator (Some pos)))"

definition binary_values :: "jsstr \<Rightarrow> RuntimeValue \<Rightarrow> RuntimeValue \<Rightarrow> nat \<Rightarrow> exn + RuntimeValue" where
  "binary_values operator l r pos =
     (let a = rv_value l; b = rv_value r
      in if operator = js ''=='' \<or> operator = js ''!='' then
           (if a \<noteq> JNull \<and> b \<noteq> JNull \<and> (is_object a \<or> is_object b)
            then Inl (billing_error Unsupported (js ''object comparison'') (Some pos))
            else Inr (plain (JBool (if operator = js ''=='' then strict_eq a b else \<not> strict_eq a b))))
         else
           case (a, b, operator = js ''+'') of
             (JStr x, JStr y, True) \<Rightarrow> Inr (plain (JStr (x @ y)))
           | _ \<Rightarrow>
             (case compare_values operator a b of
                Some c \<Rightarrow> Inr (plain (JBool c))
              | None \<Rightarrow>
                  (case (a, b) of
                     (JNum x, JNum y) \<Rightarrow> arithmetic operator x y (rv_integer l \<and> rv_integer r) pos
                   | _ \<Rightarrow> Inl (billing_error Type_code operator (Some pos)))))"

definition binary_of :: "evaluator \<Rightarrow> jsstr \<Rightarrow> ExpressionNode \<Rightarrow> ExpressionNode \<Rightarrow> nat \<Rightarrow> rt \<Rightarrow> exn + RuntimeValue \<times> rt" where
  "binary_of ev operator l r pos st =
     (if operator = js ''&&'' then
        bindR (boolean_of ev l st) (\<lambda>(a, st).
          if a then bindR (boolean_of ev r st) (\<lambda>(b, st). Inr (plain (JBool b), st))
          else Inr (plain (JBool False), st))
      else if operator = js ''||'' then
        bindR (boolean_of ev l st) (\<lambda>(a, st).
          if a then Inr (plain (JBool True), st)
          else bindR (boolean_of ev r st) (\<lambda>(b, st). Inr (plain (JBool b), st)))
      else
        bindR (ev l st) (\<lambda>(a, st).
        bindR (ev r st) (\<lambda>(b, st).
        bindR (binary_values operator a b pos) (\<lambda>v. Inr (v, st)))))"

text \<open>An operation on \<open>args[i]\<close>; reading a field of \<open>undefined\<close> is an error of the host.\<close>

definition with_arg :: "ExpressionNode list \<Rightarrow> nat \<Rightarrow> (ExpressionNode \<Rightarrow> rt \<Rightarrow> exn + 'a) \<Rightarrow> rt \<Rightarrow> exn + 'a" where
  "with_arg args i f st =
     (case arg_at args i of None \<Rightarrow> Inl (HostError (js ''node is undefined'')) | Some a \<Rightarrow> f a st)"

definition missing :: "jsstr \<Rightarrow> nat \<Rightarrow> exn" where
  "missing what pos = billing_error Missing_context what (Some pos)"

definition numeric_arg :: "evaluator \<Rightarrow> ExpressionNode list \<Rightarrow> nat \<Rightarrow> rt \<Rightarrow> exn + jsnum \<times> rt" where
  "numeric_arg ev args i st =
     bindR (with_arg args i (numeric_of ev) st) (\<lambda>((x, _), st). Inr (x, st))"

definition string_arg :: "evaluator \<Rightarrow> ExpressionNode list \<Rightarrow> nat \<Rightarrow> rt \<Rightarrow> exn + jsstr \<times> rt" where
  "string_arg ev args i st = with_arg args i (string_of ev) st"

text \<open>The memo of clock readings.\<close>

definition zone_time :: "host \<Rightarrow> jsstr \<Rightarrow> rt \<Rightarrow> exn + TimeValues \<times> rt" where
  "zone_time H zone st =
     (case map_of (rt_times st) zone of
        Some vals \<Rightarrow> Inr (vals, st)
      | None \<Rightarrow>
          bindR (timeInBillingZone H (rt_now st) zone) (\<lambda>vals.
          Inr (vals, st\<lparr>rt_times := js_map_set zone vals (rt_times st)\<rparr>)))"

definition request_function ::
  "host \<Rightarrow> BillingSimulationContext \<Rightarrow> evaluator \<Rightarrow> jsstr \<Rightarrow> ExpressionNode list \<Rightarrow> nat \<Rightarrow> rt \<Rightarrow> exn + RuntimeValue \<times> rt" where
  "request_function H X ev name args pos st =
     (if name = js ''param'' then
        bindR (string_arg ev args 0 st) (\<lambda>(path, st).
          case cx_request X of
            None \<Rightarrow> Inl (missing (js ''request body'') pos)
          | Some r \<Rightarrow> bindR (readRequestPath (rq_body r) path) (\<lambda>v. Inr (plain v, st)))
      else if name = js ''header'' then
        bindR (string_arg ev args 0 st) (\<lambda>(raw, st).
          let key = toLowerCase H (trim raw)
          in case cx_request X of
               None \<Rightarrow> Inl (missing (js ''request headers'') pos)
             | Some _ \<Rightarrow>
                 Inr (plain (JStr (case map_of (rt_headers st) key of Some v \<Rightarrow> v | None \<Rightarrow> [])), st))
      else if name = js ''u'' then
        bindR (string_arg ev args 0 st) (\<lambda>(key, st).
          case cx_usage X of
            None \<Rightarrow> Inl (missing (js ''task usage'') pos)
          | Some usage \<Rightarrow> Inr (plain (case map_of usage key of Some v \<Rightarrow> v | None \<Rightarrow> JNull), st))
      else
        bindR (with_arg args 0 ev st) (\<lambda>(src, st).
        bindR (string_arg ev args 1 st) (\<lambda>(substring, st).
          if \<not> nullish (rv_value src) \<and> substring \<noteq> []
          then bindR (billingString (rv_value src) 0) (\<lambda>t. Inr (plain (JBool (js_includes t substring)), st))
          else Inr (plain (JBool False), st))))"

definition math_function :: "evaluator \<Rightarrow> jsstr \<Rightarrow> ExpressionNode list \<Rightarrow> rt \<Rightarrow> exn + RuntimeValue \<times> rt" where
  "math_function ev name args st =
     bindR (numeric_arg ev args 0 st) (\<lambda>(x, st).
       if name = js ''min'' \<or> name = js ''max'' then
         bindR (numeric_arg ev args 1 st) (\<lambda>(y, st).
           Inr (plain (JNum (if name = js ''min'' then js_min x y else js_max x y)), st))
       else if name = js ''abs'' then Inr (plain (JNum (js_abs x)), st)
       else if name = js ''floor'' then Inr (plain (JNum (js_floor x)), st)
       else Inr (plain (JNum (js_ceil x)), st))"

definition call_of ::
  "host \<Rightarrow> BillingSimulationContext \<Rightarrow> evaluator \<Rightarrow> jsstr \<Rightarrow> ExpressionNode list \<Rightarrow> nat \<Rightarrow> rt \<Rightarrow> exn + RuntimeValue \<times> rt" where
  "call_of H X ev name args pos st =
     (if name = js ''fixed'' then
        bindR (numeric_arg ev args 0 st) (\<lambda>(amount, st).
        Inr (plain (JNum (js_mul amount million)), st\<lparr>rt_unit := Unit_request, rt_fixed := Some amount\<rparr>))
      else if name = js ''tier'' then
        bindR (string_arg ev args 0 st) (\<lambda>(label, st).
        bindR (numeric_arg ev args 1 st) (\<lambda>(v, st).
        Inr (plain (JNum v), st\<lparr>rt_tier := label\<rparr>)))
      else if name \<in> {js ''param'', js ''header'', js ''u'', js ''has''} then
        request_function H X ev name args pos st
      else if name \<in> {js ''min'', js ''max'', js ''abs'', js ''floor'', js ''ceil''} then
        math_function ev name args st
      else if name \<notin> set TIME_FUNCTIONS then Inl (billing_error Unsupported name None)
      else
        bindR (string_arg ev args 0 st) (\<lambda>(raw, st).
        bindR (zone_time H (trim raw) st) (\<lambda>(vals, st).
        Inr (\<lparr>rv_value = JNum (time_field name vals), rv_integer = True\<rparr>, st))))"

definition context_token :: "BillingSimulationContext \<Rightarrow> jsstr \<Rightarrow> jsval" where
  "context_token X name =
     (case cx_tokens X of
        None \<Rightarrow> JUndef
      | Some ts \<Rightarrow> (case map_of ts name of None \<Rightarrow> JUndef | Some v \<Rightarrow> v))"

definition variable_value :: "BillingSimulationContext \<Rightarrow> jsstr \<Rightarrow> nat \<Rightarrow> exn + RuntimeValue" where
  "variable_value X name pos =
     (if name = js ''image_count'' then
        (let v = (case cx_imageCount X of Some n \<Rightarrow> n | None \<Rightarrow> one_num)
         in if \<not> isInteger v \<or> js_lt v one_num \<or> js_lt (Fin False 128) v
            then Inl (billing_error Number_code (js ''image_count must be between 1 and 128'') (Some pos))
            else Inr (plain (JNum v)))
      else
        (case context_token X name of
           JUndef \<Rightarrow> Inl (missing name pos)
         | JNum x \<Rightarrow>
             if js_lt x zero_num then Inl (billing_error Number_code name (Some pos))
             else Inr (plain (JNum x))
         | _ \<Rightarrow> Inl (billing_error Number_code name (Some pos))))"

text \<open>Marking the rule whose condition held.\<close>

definition mark_rule :: "RequestRuleSite list \<Rightarrow> ExpressionNode \<Rightarrow> bool \<Rightarrow> rt \<Rightarrow> rt" where
  "mark_rule rules node matched st =
     (case find_index (\<lambda>r. site_node r = node) rules of
        None \<Rightarrow> st
      | Some i \<Rightarrow>
          if matched then
            st\<lparr>rt_rules := (rt_rules st)[i := (rt_rules st ! i)\<lparr>rule_matched := True\<rparr>]\<rparr>
          else st)"

definition evaluateNode ::
  "host \<Rightarrow> RequestRuleSite list \<Rightarrow> BillingSimulationContext \<Rightarrow> evaluator \<Rightarrow> ExpressionNode \<Rightarrow> rt \<Rightarrow> exn + RuntimeValue \<times> rt" where
  "evaluateNode H rules X ev node st =
     (case node of
        Literal v integer _ _ \<Rightarrow> Inr (\<lparr>rv_value = lit_val v, rv_integer = integer\<rparr>, st)
      | Variable name pos _ \<Rightarrow> bindR (variable_value X name pos) (\<lambda>v. Inr (v, st))
      | Conditional c y n _ _ \<Rightarrow>
          bindR (boolean_of ev c st) (\<lambda>(condition, st).
            let st = mark_rule rules node condition st in ev (if condition then y else n) st)
      | Unary operator operand _ _ \<Rightarrow>
          (if operator = js ''!'' then
             bindR (boolean_of ev operand st) (\<lambda>(b, st). Inr (plain (JBool (\<not> b)), st))
           else
             bindR (numeric_of ev operand st) (\<lambda>((x, integer), st).
             Inr (\<lparr>rv_value = JNum (if operator = js ''-'' then js_neg x else x), rv_integer = integer\<rparr>, st)))
      | Binary operator l r pos _ \<Rightarrow> binary_of ev operator l r pos st
      | Call name args pos _ \<Rightarrow> call_of H X ev name args pos st)"

definition check_result :: "nat \<Rightarrow> RuntimeValue \<times> rt \<Rightarrow> exn + RuntimeValue \<times> rt" where
  "check_result pos result =
     (case rv_value (fst result) of
        JNum x \<Rightarrow>
          if \<not> isFinite x then Inl (billing_error Number_code (js ''non-finite result'') (Some pos))
          else if rv_integer (fst result) \<and> \<not> isSafeInteger x then
            Inl (billing_error Unsupported (js ''integer precision'') (Some pos))
          else Inr result
      | _ \<Rightarrow> Inr result)"

subsection \<open>Tying the knot\<close>

lemma boolean_of_cong: "ev n = ev' n \<Longrightarrow> boolean_of ev n = boolean_of ev' n"
  and numeric_of_cong: "ev n = ev' n \<Longrightarrow> numeric_of ev n = numeric_of ev' n"
  and string_of_cong: "ev n = ev' n \<Longrightarrow> string_of ev n = string_of ev' n"
  by (simp_all add: boolean_of_def numeric_of_def string_of_def fun_eq_iff)

lemma with_arg_cong: "(\<And>a. a \<in> set args \<Longrightarrow> f a = g a) \<Longrightarrow> with_arg args i f = with_arg args i g"
  by (auto simp: with_arg_def fun_eq_iff split: option.splits dest: arg_at_mem)

lemma call_of_cong:
  assumes "\<And>a. a \<in> set args \<Longrightarrow> ev a = ev' a"
  shows "call_of H X ev name args = call_of H X ev' name args"
proof -
  have n: "numeric_arg ev args = numeric_arg ev' args" and s: "string_arg ev args = string_arg ev' args"
    and a: "with_arg args i ev = with_arg args i ev'" for i
    using assms numeric_of_cong string_of_cong
    by (auto simp: numeric_arg_def string_arg_def fun_eq_iff
        intro!: arg_cong2 [of _ _ _ _ bindR] fun_cong [OF with_arg_cong])
  show ?thesis by (intro ext) (simp only: call_of_def request_function_def math_function_def n s a cong: if_cong)
qed

lemma evaluateNode_cong [fundef_cong]:
  assumes "n = n'" "st = st'" "\<And>c s. c \<in> set (children n') \<Longrightarrow> ev c s = ev' c s"
  shows "evaluateNode H rules X ev n st = evaluateNode H rules X ev' n' st'"
proof -
  have e: "ev c = ev' c" if "c \<in> set (children n')" for c using assms(3) [OF that] by auto
  show ?thesis unfolding assms(1,2)
  proof (cases n')
    case (Call name args s e')
    then show "evaluateNode H rules X ev n' st' = evaluateNode H rules X ev' n' st'"
      using call_of_cong [of args ev ev'] e by (simp add: evaluateNode_def)
  next
    case (Conditional c y n s e')
    then show "evaluateNode H rules X ev n' st' = evaluateNode H rules X ev' n' st'"
      using e boolean_of_cong [of ev c ev'] by (simp add: evaluateNode_def Let_def)
  next
    case (Binary f l r s e')
    then show "evaluateNode H rules X ev n' st' = evaluateNode H rules X ev' n' st'"
      using e boolean_of_cong [of ev l ev'] boolean_of_cong [of ev r ev']
      by (simp add: evaluateNode_def binary_of_def cong: if_cong)
  qed (use e boolean_of_cong [of ev _ ev'] numeric_of_cong [of ev _ ev'] in \<open>simp_all add: evaluateNode_def\<close>)
qed

function evaluate ::
  "host \<Rightarrow> RequestRuleSite list \<Rightarrow> BillingSimulationContext \<Rightarrow> nat \<Rightarrow> ExpressionNode \<Rightarrow> rt \<Rightarrow> exn + RuntimeValue \<times> rt" where
  "evaluate H rules X depth node st =
     (if 256 < depth + 1 then Inl (billing_error Limit (js ''evaluation depth'') None)
      else
        bindR (evaluateNode H rules X (\<lambda>n s. evaluate H rules X (depth + 1) n s) node st)
          (check_result (node_start node)))"
  by pat_completeness auto
termination
  by (relation "measure (\<lambda>(_, _, _, _, node, _). size node)") (auto simp: children_size)

declare evaluate.simps [simp del]

section \<open>Entry points\<close>

definition evaluateBillingCondition :: "host \<Rightarrow> CompiledBillingExpression \<Rightarrow> ExpressionNode \<Rightarrow> int option \<Rightarrow> bool option" where
  "evaluateBillingCondition H compiled node now =
     (let X = \<lparr>cx_imageCount = None, cx_tokens = None, cx_request = None, cx_usage = None, cx_now = Some now\<rparr>
      in case bindR (runtime_init H (compiled_rules compiled) X) (evaluate H (compiled_rules compiled) X 0 node) of
           Inl _ \<Rightarrow> None
         | Inr (result, _) \<Rightarrow> (case rv_value result of JBool b \<Rightarrow> Some b | _ \<Rightarrow> None))"

record BillingSuccess =
  bs_cost :: jsnum
  bs_unit :: BillingUnit
  bs_imageCount :: "jsnum option"
  bs_fixedPrice :: "jsnum option"
  bs_matchedTier :: jsstr
  bs_requestRules :: "BillingRequestRule list"

datatype BillingEvaluationResult = Eval_failure ExpressionFailure | Eval_success BillingSuccess

definition token_check :: "jsstr \<times> jsval \<Rightarrow> unit \<Rightarrow> exn + unit" where
  "token_check entry _ =
     (case entry of
        (name, JNum x) \<Rightarrow>
          if \<not> isFinite x \<or> js_lt x zero_num then Inl (billing_error Number_code name None) else Inr ()
      | (name, _) \<Rightarrow> Inl (billing_error Number_code name None))"

definition evaluation_steps :: "host \<Rightarrow> CompiledBillingExpression \<Rightarrow> BillingSimulationContext \<Rightarrow> exn + BillingSuccess" where
  "evaluation_steps H compiled X =
     bindR (foldR token_check (case cx_tokens X of None \<Rightarrow> [] | Some ts \<Rightarrow> ts) ()) (\<lambda>_.
     bindR (runtime_init H (compiled_rules compiled) X) (\<lambda>st.
     bindR (evaluate H (compiled_rules compiled) X 0 (compiled_ast compiled) st) (\<lambda>(result, st).
       case rv_value result of
         JNum x \<Rightarrow>
           if \<not> isFinite x \<or> js_lt x zero_num
           then Inl (billing_error Number_code (js ''billing result'') None)
           else
             Inr \<lparr>bs_cost = x, bs_unit = rt_unit st,
                   bs_imageCount =
                     (if js ''image_count'' \<in> set (compiled_variables compiled)
                      then Some (case cx_imageCount X of Some n \<Rightarrow> n | None \<Rightarrow> one_num) else None),
                   bs_fixedPrice = rt_fixed st, bs_matchedTier = rt_tier st,
                   bs_requestRules = rt_rules st\<rparr>
       | _ \<Rightarrow> Inl (billing_error Number_code (js ''billing result'') None))))"

definition evaluate_compiled :: "host \<Rightarrow> CompilationResult \<Rightarrow> BillingSimulationContext \<Rightarrow> BillingEvaluationResult" where
  "evaluate_compiled H r X =
     (case r of
        Failed f \<Rightarrow> Eval_failure f
      | Ready compiled \<Rightarrow>
          (case evaluation_steps H compiled X of
             Inl e \<Rightarrow> Eval_failure (expressionFailure e)
           | Inr s \<Rightarrow> Eval_success s))"

text \<open>The call with a source text, which goes through the cache of compiled expressions.\<close>

definition evaluateBillingExpression ::
  "host \<Rightarrow> jsstr \<Rightarrow> BillingSimulationContext \<Rightarrow> compile_cache \<Rightarrow> BillingEvaluationResult \<times> compile_cache" where
  "evaluateBillingExpression H src X cache =
     (let (r, cache) = compileBillingExpression src cache in (evaluate_compiled H r X, cache))"

end
