(* ===== verification/Depth_Gap.thy ===== *)
theory Depth_Gap
  imports Runtime
begin

text \<open>
  The compiler and the evaluator bound the height of a tree differently. The walk of the compiler counts
  the root as depth 0 and refuses depths above 256; the evaluator counts the root as depth 1 and refuses
  depths above 256. A chain of 256 sums is therefore accepted by every walk and refused by the evaluator.
\<close>

fun sum_chain :: "nat \<Rightarrow> ExpressionNode" where
  "sum_chain 0 = Literal (LNum one_num) True 0 1"
| "sum_chain (Suc k) = Binary (js ''+'') (sum_chain k) (Literal (LNum one_num) True (4 * k + 4) (4 * k + 5)) 0 (4 * k + 5)"

lemma height_sum_chain: "height (sum_chain k) = k"
  by (induction k) auto

lemma deep_sum_refused:
  "256 \<le> d + k \<Longrightarrow> evaluate H rules X d (sum_chain k) st = Inl (billing_error Limit (js ''evaluation depth'') None)"
proof (induction k arbitrary: d st)
  case 0
  then show ?case by (subst evaluate.simps) simp
next
  case (Suc k)
  show ?case
  proof (cases "256 < d + 1")
    case True
    then show ?thesis by (subst evaluate.simps) simp
  next
    case False
    have "evaluate H rules X (d + 1) (sum_chain k) st = Inl (billing_error Limit (js ''evaluation depth'') None)" for st
      using Suc by simp
    then show ?thesis using False by (subst evaluate.simps) (simp add: evaluateNode_def binary_of_def)
  qed
qed

lemma depth_gap:
  "(\<exists>r. expressionDependencies (sum_chain 256) = Inr r) \<and>
   evaluate H rules X 0 (sum_chain 256) st = Inl (billing_error Limit (js ''evaluation depth'') None)"
  using expressionDependencies_names [of "sum_chain 256"] deep_sum_refused [of 0 256] by (simp add: height_sum_chain)

end
