(* ===== verification/Structure.thy ===== *)
theory Structure
  imports JS_Numeral
begin

text \<open>
  The structural helpers on source text (\<^verbatim>\<open>features/pricing/lib/billing-expression/structure.ts\<close>):
  splitting a text at an operator outside brackets and quotes, and removing enclosing parentheses. The
  loops run over the characters that are left; the text since the last cut is an accumulator.
\<close>

definition bracket_depth :: "code_unit \<Rightarrow> int \<Rightarrow> int" where
  "bracket_depth c d =
     (if c \<in> set (js ''([{'') then d + 1 else if c \<in> set (js '')]}'') then d - 1 else d)"

text \<open>
  The loop of \<open>splitExpressionAtTopLevel\<close>. The result is the list of untrimmed parts, or \<open>None\<close> where a
  conditional stands at the top level. The operator is not empty.
\<close>

function split_loop :: "jsstr \<Rightarrow> jsstr \<Rightarrow> jsstr \<Rightarrow> int \<Rightarrow> code_unit option \<Rightarrow> jsstr list \<Rightarrow> jsstr list option" where
  "split_loop operator [] cur depth quote parts = Some (parts @ [cur])"
| "split_loop operator (char # rest) cur depth quote parts =
     (case quote of
        Some q \<Rightarrow>
          if char = 92 then
            (case rest of
               [] \<Rightarrow> Some (parts @ [cur @ [char]])
             | escaped # rest' \<Rightarrow> split_loop operator rest' (cur @ [char, escaped]) depth quote parts)
          else split_loop operator rest (cur @ [char]) depth (if char = q then None else quote) parts
      | None \<Rightarrow>
          if char = 34 \<or> char = 39 then split_loop operator rest (cur @ [char]) depth (Some char) parts
          else
            let depth = bracket_depth char depth
            in if depth \<noteq> 0 then split_loop operator rest (cur @ [char]) depth None parts
               else if char = 63 then None
               else if starts_with (char # rest) operator
               then split_loop operator (drop (length operator - 1) rest) [] depth None (parts @ [cur])
               else split_loop operator rest (cur @ [char]) depth None parts)"
  by pat_completeness auto
termination
  by (relation "measure (\<lambda>(_, rest, _). length rest)") auto

definition splitExpressionAtTopLevel :: "jsstr \<Rightarrow> jsstr \<Rightarrow> jsstr list" where
  "splitExpressionAtTopLevel src operator =
     (case split_loop operator src [] 0 None [] of
        None \<Rightarrow> [trim src]
      | Some raws \<Rightarrow> filter (\<lambda>s. s \<noteq> []) (map trim raws))"

text \<open>The scan of \<open>unwrapExpressionParens\<close>: whether the bracket depth first returns to zero at the last character.\<close>

function closes_at_end :: "jsstr \<Rightarrow> int \<Rightarrow> code_unit option \<Rightarrow> bool" where
  "closes_at_end [] depth quote = False"
| "closes_at_end (char # rest) depth quote =
     (case quote of
        Some q \<Rightarrow>
          if char = 92 then (case rest of [] \<Rightarrow> False | _ # rest' \<Rightarrow> closes_at_end rest' depth quote)
          else closes_at_end rest depth (if char = q then None else quote)
      | None \<Rightarrow>
          if char = 34 \<or> char = 39 then closes_at_end rest depth (Some char)
          else
            let depth = (if char = 40 then depth + 1 else if char = 41 then depth - 1 else depth)
            in if depth = 0 then rest = [] else closes_at_end rest depth None)"
  by pat_completeness auto
termination
  by (relation "measure (\<lambda>(rest, _). length rest)") auto

lemma length_trim: "length (trim s) \<le> length s"
  using trim_decomp [of s] by (metis length_append add.commute le_add2 trans_le_add1)

function unwrap_loop :: "jsstr \<Rightarrow> jsstr" where
  "unwrap_loop e =
     (if starts_with e (js ''('') \<and> ends_with e (js '')'') \<and> closes_at_end e 0 None
      then unwrap_loop (trim (slice e 1 (length e - 1)))
      else e)"
  by pat_completeness auto
termination
proof (relation "measure length", goal_cases)
  case 1
  then show ?case by simp
next
  case (2 e)
  then have "e \<noteq> []" by (auto simp: starts_with_def)
  then show ?case using length_trim [of "slice e 1 (length e - 1)"]
    by (cases e) (auto simp: slice_def)
qed

declare unwrap_loop.simps [simp del]

definition unwrapExpressionParens :: "jsstr \<Rightarrow> jsstr" where
  "unwrapExpressionParens src = unwrap_loop (trim src)"

section \<open>Nothing is lost\<close>

lemma join_snoc: "join sep (xs @ [x]) = (if xs = [] then x else join sep xs @ sep @ x)"
  by (induction sep xs rule: join.induct) auto

lemma join_merge: "join sep (xs @ [x, y]) = join sep (xs @ [x @ sep @ y])"
  using join_snoc [of sep "xs @ [x]" y] by (simp add: join_snoc)

lemma split_loop_join:
  "operator \<noteq> [] \<Longrightarrow> split_loop operator rest cur depth quote parts = Some raws \<Longrightarrow>
     join operator raws = join operator (parts @ [cur @ rest])"
proof (induction operator rest cur depth quote parts rule: split_loop.induct)
  case (1 operator cur depth quote parts)
  then show ?case by simp
next
  case (2 operator char rest cur depth quote parts)
  show ?case
  proof (cases quote)
    case (Some q)
    then show ?thesis using 2 by (cases rest) (auto split: if_splits)
  next
    case None
    show ?thesis
    proof (cases "\<not> (char = 34 \<or> char = 39) \<and> bracket_depth char depth = 0 \<and> char \<noteq> 63 \<and> starts_with (char # rest) operator")
      case True
      then have s: "char # rest = operator @ drop (length operator - 1) rest"
        using \<open>operator \<noteq> []\<close> by (cases operator) (auto simp: starts_with_iff)
      have "join operator raws = join operator ((parts @ [cur]) @ [[] @ drop (length operator - 1) rest])"
        using 2 None True by (simp add: Let_def)
      then show ?thesis using join_merge [of operator parts cur "drop (length operator - 1) rest"] s by simp
    next
      case False
      then show ?thesis using 2 None by (auto simp: Let_def split: if_splits)
    qed
  qed
qed

text \<open>
  The parts are the trimmed, non-empty pieces of a way to write the source as pieces joined by the
  operator; a source with a conditional at the top level is returned whole.
\<close>

lemma split_lossless:
  assumes "operator \<noteq> []"
  shows "\<exists>raws. join operator raws = src \<and>
    (splitExpressionAtTopLevel src operator = filter (\<lambda>s. s \<noteq> []) (map trim raws) \<or>
     splitExpressionAtTopLevel src operator = [trim src])"
proof (cases "split_loop operator src [] 0 None []")
  case None
  then show ?thesis by (intro exI [of _ "[src]"]) (simp add: splitExpressionAtTopLevel_def)
next
  case (Some raws)
  then show ?thesis using split_loop_join [OF assms Some]
    by (intro exI [of _ raws]) (simp add: splitExpressionAtTopLevel_def)
qed

inductive wraps :: "jsstr \<Rightarrow> jsstr \<Rightarrow> bool" where
  wraps_none: "wraps e e"
| wraps_parens: "wraps (trim body) e \<Longrightarrow> wraps (40 # body @ [41]) e"

lemma unwrap_loop_wraps: "wraps e (unwrap_loop e)"
proof (induction e rule: unwrap_loop.induct)
  case (1 e)
  show ?case
  proof (cases "starts_with e (js ''('') \<and> ends_with e (js '')'') \<and> closes_at_end e 0 None")
    case True
    then obtain t where t: "e = 40 # t" by (auto simp: starts_with_iff)
    have "t \<noteq> []" using True t by (auto simp: closes_at_end.simps(2))
    then obtain body z where b: "t = body @ [z]" by (metis rev_exhaust)
    have "z = 41" using True t b by (auto simp: ends_with_def starts_with_def)
    then have "wraps (40 # body @ [41]) (unwrap_loop (trim body))"
      using 1 True t b by (intro wraps_parens) (simp add: slice_def)
    then show ?thesis using True t b \<open>z = 41\<close> by (subst unwrap_loop.simps) (simp add: slice_def)
  next
    case False
    then show ?thesis by (subst unwrap_loop.simps) (simp only: if_False wraps_none)
  qed
qed

lemma unwrap_loop_stop: "unwrap_loop (unwrap_loop e) = unwrap_loop e"
proof (induction e rule: unwrap_loop.induct)
  case (1 e)
  show ?case
  proof (cases "starts_with e (js ''('') \<and> ends_with e (js '')'') \<and> closes_at_end e 0 None")
    case True
    then have "unwrap_loop e = unwrap_loop (trim (slice e 1 (length e - 1)))" by (subst unwrap_loop.simps) simp
    then show ?thesis using 1 True by simp
  next
    case False
    then have "unwrap_loop e = e" by (subst unwrap_loop.simps) (simp only: if_False)
    then show ?thesis by simp
  qed
qed

lemma unwrap_loop_trimmed: "trim e = e \<Longrightarrow> trim (unwrap_loop e) = unwrap_loop e"
proof (induction e rule: unwrap_loop.induct)
  case (1 e)
  then show ?case
    by (cases "starts_with e (js ''('') \<and> ends_with e (js '')'') \<and> closes_at_end e 0 None")
      (simp_all add: unwrap_loop.simps [of e])
qed

lemma unwrap_idem: "unwrapExpressionParens (unwrapExpressionParens src) = unwrapExpressionParens src"
  by (simp add: unwrapExpressionParens_def unwrap_loop_trimmed unwrap_loop_stop)

end
