(* ===== verification/JS_JSON.thy ===== *)
theory JS_JSON
  imports Lexer
begin

text \<open>
  Text as the standard library writes and cuts it: \<open>JSON.stringify\<close> of a string, and \<open>slice\<close> with any
  integer bounds. A text in JSON quotes is read back by the lexer of billing expressions.
\<close>

section \<open>Quoting\<close>

definition hex_digit :: "int \<Rightarrow> code_unit" where
  "hex_digit d = (if d < 10 then 48 + d else 87 + d)"

definition unicode_escape :: "code_unit \<Rightarrow> jsstr" where
  "unicode_escape c = [92, 117, hex_digit (c div 4096 mod 16), hex_digit (c div 256 mod 16),
     hex_digit (c div 16 mod 16), hex_digit (c mod 16)]"

text \<open>The characters with an escape of one letter.\<close>

definition json_escapes :: "(code_unit \<times> code_unit) list" where
  "json_escapes = [(8, 98), (9, 116), (10, 110), (12, 102), (13, 114), (34, 34), (92, 92)]"

definition is_high :: "code_unit \<Rightarrow> bool" where
  "is_high c \<longleftrightarrow> 55296 \<le> c \<and> c \<le> 56319"

definition is_low :: "code_unit \<Rightarrow> bool" where
  "is_low c \<longleftrightarrow> 56320 \<le> c \<and> c \<le> 57343"

text \<open>A surrogate that is not part of a pair is escaped; a pair is copied.\<close>

fun json_body :: "jsstr \<Rightarrow> jsstr" where
  "json_body [] = []"
| "json_body [c] =
     (case map_of json_escapes c of
        Some e \<Rightarrow> [92, e]
      | None \<Rightarrow> if c < 32 \<or> is_high c \<or> is_low c then unicode_escape c else [c])"
| "json_body (c # d # cs) =
     (case map_of json_escapes c of
        Some e \<Rightarrow> [92, e] @ json_body (d # cs)
      | None \<Rightarrow>
          if is_high c \<and> is_low d then [c, d] @ json_body cs
          else if c < 32 \<or> is_high c \<or> is_low c then unicode_escape c @ json_body (d # cs)
          else c # json_body (d # cs))"

definition json_string :: "jsstr \<Rightarrow> jsstr" where
  "json_string s = 34 # json_body s @ [34]"

section \<open>Slices\<close>

text \<open>\<open>s.slice(a, b)\<close> and \<open>s.slice(a)\<close>: negative bounds count from the end, bounds outside are clipped.\<close>

definition slice_bound :: "jsstr \<Rightarrow> int \<Rightarrow> nat" where
  "slice_bound s a = (if a < 0 then nat (int (length s) + a) else min (nat a) (length s))"

definition js_slice :: "jsstr \<Rightarrow> int \<Rightarrow> int \<Rightarrow> jsstr" where
  "js_slice s a b = slice s (slice_bound s a) (slice_bound s b)"

definition js_slice_from :: "jsstr \<Rightarrow> int \<Rightarrow> jsstr" where
  "js_slice_from s a = drop (slice_bound s a) s"

lemma js_slice_nat: "a \<le> length s \<Longrightarrow> b \<le> length s \<Longrightarrow> js_slice s (int a) (int b) = slice s a b"
  by (simp add: js_slice_def slice_bound_def min_def)

lemma js_slice_from_nat: "js_slice_from s (int a) = drop a s"
  by (simp add: js_slice_from_def slice_bound_def min_def)

section \<open>Quoted text is read back\<close>

definition code_units :: "jsstr \<Rightarrow> bool" where
  "code_units s \<longleftrightarrow> list_all (\<lambda>c. 0 \<le> c \<and> c < 65536) s"

lemma hex_digit_ok: "0 \<le> d \<Longrightarrow> d < 16 \<Longrightarrow> is_hex (hex_digit d) \<and> hex_val (hex_digit d) = d"
  by (auto simp: hex_digit_def is_hex_def hex_val_def is_digit_def)

lemma lex_unicode:
  assumes "list_all is_hex [a, b, c, d]" "q \<noteq> 92"
  shows "lex_string_body q start cursor (92 # 117 # a # b # c # d # rest) v
    = lex_string_body q start (cursor + 6) rest (v @ [parse_hex [a, b, c, d]])"
  using assms by (subst lex_string_body.simps) (simp add: string_escapes_def Let_def ac_simps)

lemma parse_hex_digits:
  assumes "0 \<le> c" "c < 65536"
  shows "parse_hex [hex_digit (c div 4096 mod 16), hex_digit (c div 256 mod 16), hex_digit (c div 16 mod 16),
    hex_digit (c mod 16)] = c"
proof -
  have h: "hex_val (hex_digit (k mod 16)) = k mod 16" for k using hex_digit_ok [of "k mod 16"] by simp
  define a b e where d: "a = c div 16" "b = a div 16" "e = b div 16"
  have q: "c div 16 = a" "c div 256 = b" "c div 4096 = e" unfolding d by simp_all
  have "0 \<le> e" "e < 16" using assms q(3) by auto
  then have "e mod 16 = e" by simp
  moreover have "e * 16 + b mod 16 = b" "b * 16 + a mod 16 = a" "a * 16 + c mod 16 = c" unfolding d by simp_all
  ultimately have "((c div 4096 mod 16 * 16 + c div 256 mod 16) * 16 + c div 16 mod 16) * 16 + c mod 16 = c"
    by (simp only: q)
  then show ?thesis unfolding parse_hex_def foldl.simps h mult_zero_left add_0_left .
qed

lemma unicode_escape_ok:
  assumes "0 \<le> c" "c < 65536"
  shows "lex_string_body 34 start cursor (unicode_escape c @ rest) v
    = lex_string_body 34 start (cursor + 6) rest (v @ [c])"
proof -
  have "is_hex (hex_digit (k mod 16))" for k using hex_digit_ok [of "k mod 16"] by simp
  then show ?thesis
    unfolding unicode_escape_def append_Cons append_Nil by (subst lex_unicode) (simp_all add: parse_hex_digits [OF assms])
qed

lemma length_unicode_escape [simp]: "length (unicode_escape c) = 6"
  by (simp add: unicode_escape_def)

lemma json_escape_ok:
  "map_of json_escapes c = Some e \<Longrightarrow>
     lex_string_body 34 start cursor ([92, e] @ rest) v = lex_string_body 34 start (cursor + 2) rest (v @ [c])"
  by (auto simp: json_escapes_def string_escapes_def split: if_splits)

lemma plain_ok:
  "map_of json_escapes c = None \<Longrightarrow>
     lex_string_body 34 start cursor (c # rest) v = lex_string_body 34 start (cursor + 1) rest (v @ [c])"
  by (auto simp: json_escapes_def split: if_splits)

declare lex_string_body.simps(2) [simp del]

lemma high_plain: "is_high c \<Longrightarrow> map_of json_escapes c = None" and low_plain: "is_low c \<Longrightarrow> map_of json_escapes c = None"
  by (auto simp: is_high_def is_low_def json_escapes_def)

lemma lex_json_body:
  "code_units s \<Longrightarrow> lex_string_body 34 start cursor (json_body s @ 34 # rest) v
     = Inr (v @ s, cursor + length (json_body s) + 1)"
proof (induction s arbitrary: cursor v rule: json_body.induct)
  case 1
  then show ?case by (simp add: lex_string_body.simps(2))
next
  case (2 c)
  then show ?case
    using json_escape_ok [of c] plain_ok [of c] unicode_escape_ok [of c]
    by (cases "map_of json_escapes c") (auto simp: code_units_def lex_string_body.simps(2) [of 34 _ _ 34])
next
  case (3 c d cs)
  have cu: "0 \<le> c" "c < 65536" "code_units (d # cs)" "code_units cs" using "3.prems" by (simp_all add: code_units_def)
  show ?case
  proof (cases "map_of json_escapes c")
    case (Some e)
    then show ?thesis using "3.IH"(4) [OF Some cu(3)] json_escape_ok [OF Some, of start cursor "json_body (d # cs) @ 34 # rest"]
      by simp
  next
    case None
    consider (pair) "is_high c \<and> is_low d" | (esc) "\<not> (is_high c \<and> is_low d)" "c < 32 \<or> is_high c \<or> is_low c"
      | (copy) "\<not> (is_high c \<and> is_low d)" "\<not> (c < 32 \<or> is_high c \<or> is_low c)" by blast
    then show ?thesis
    proof cases
      case pair
      then show ?thesis
        using "3.IH"(1) [OF None pair cu(4)] plain_ok [OF None, of start cursor "d # json_body cs @ 34 # rest"]
          plain_ok [OF low_plain [of d], of start "cursor + 1" "json_body cs @ 34 # rest"] None
        by simp
    next
      case esc
      then show ?thesis
        using "3.IH"(2) [OF None esc(1) esc(2) cu(3)] None
          unicode_escape_ok [OF cu(1,2), of start cursor "json_body (d # cs) @ 34 # rest"]
        by auto
    next
      case copy
      then show ?thesis
        using "3.IH"(3) [OF None copy(1) copy(2) cu(3)] None
          plain_ok [OF None, of start cursor "json_body (d # cs) @ 34 # rest"]
        by auto
    qed
  qed
qed

end
