(* ===== verification/JS_Parse_JSON.thy ===== *)
theory JS_Parse_JSON
  imports JS_Value JS_JSON
begin

text \<open>
  \<open>JSON.parse\<close> on a text, as a recursive descent with a bound on the nesting, and \<open>String(value)\<close> of what it
  returns. Every nested value starts at a later character, so a bound of one more than the length of the
  text is never reached.
\<close>

section \<open>Reading\<close>

definition json_space :: "jsstr \<Rightarrow> jsstr" where
  "json_space s = dropWhile (\<lambda>c. c \<in> {9, 10, 13, 32}) s"

text \<open>The characters after an opening quote: the value and the text after the closing quote.\<close>

function json_chars :: "jsstr \<Rightarrow> jsstr \<Rightarrow> (jsstr \<times> jsstr) option" where
  "json_chars [] v = None"
| "json_chars (c # cs) v =
     (if c = 34 then Some (v, cs)
      else if c < 32 then None
      else if c \<noteq> 92 then json_chars cs (v @ [c])
      else
        (case cs of
           [] \<Rightarrow> None
         | x # rest \<Rightarrow>
             if x = 117 then
               (if length (take 4 rest) = 4 \<and> list_all is_hex (take 4 rest)
                then json_chars (drop 4 rest) (v @ [parse_hex (take 4 rest)]) else None)
             else
               (case map_of [(34, 34), (92, 92), (47, 47), (98, 8), (102, 12), (110, 10), (114, 13), (116, 9)] x of
                  Some y \<Rightarrow> json_chars rest (v @ [y]) | None \<Rightarrow> None)))"
  by pat_completeness auto
termination
  by (relation "measure (\<lambda>(cs, v). length cs)") auto

declare json_chars.simps(2) [simp del]

definition json_integer :: "jsstr \<Rightarrow> jsstr" where
  "json_integer s = (case s of c # _ \<Rightarrow> if c = 48 then [48] else takeWhile is_digit s | [] \<Rightarrow> [])"

definition json_fraction :: "jsstr \<Rightarrow> jsstr" where
  "json_fraction s =
     (case s of
        c # cs \<Rightarrow> if c = 46 \<and> takeWhile is_digit cs \<noteq> [] then 46 # takeWhile is_digit cs else []
      | [] \<Rightarrow> [])"

text \<open>The longest number at the start of the text; empty when there is none.\<close>

definition json_number :: "jsstr \<Rightarrow> jsstr" where
  "json_number s =
     (let sign = (case s of c # _ \<Rightarrow> if c = 45 then [45] else [] | [] \<Rightarrow> []);
          i = json_integer (drop (length sign) s);
          f = json_fraction (drop (length (sign @ i)) s);
          e = exponent_prefix (drop (length (sign @ i @ f)) s)
      in if i = [] then [] else sign @ i @ f @ e)"

definition json_word :: "jsstr \<Rightarrow> (jsval \<times> jsstr) option" where
  "json_word s =
     (if starts_with s (js ''true'') then Some (JBool True, drop 4 s)
      else if starts_with s (js ''false'') then Some (JBool False, drop 5 s)
      else if starts_with s (js ''null'') then Some (JNull, drop 4 s)
      else if json_number s \<noteq> [] then Some (JNum (js_Number (json_number s)), drop (length (json_number s)) s)
      else None)"

text \<open>A later member with the same key replaces the value of an earlier one.\<close>

definition set_member :: "(jsstr \<times> jsval) list \<Rightarrow> jsstr \<Rightarrow> jsval \<Rightarrow> (jsstr \<times> jsval) list" where
  "set_member es k v =
     (if map_of es k = None then es @ [(k, v)] else map (\<lambda>(k', v'). if k' = k then (k, v) else (k', v')) es)"

text \<open>
  A value, the elements of an array after the first bracket or a comma, and the members of an object. The
  flag says whether the list may end here.
\<close>

fun json_value :: "nat \<Rightarrow> jsstr \<Rightarrow> (jsval \<times> jsstr) option"
  and json_elements :: "nat \<Rightarrow> bool \<Rightarrow> jsval list \<Rightarrow> jsstr \<Rightarrow> (jsval \<times> jsstr) option"
  and json_members :: "nat \<Rightarrow> bool \<Rightarrow> (jsstr \<times> jsval) list \<Rightarrow> jsstr \<Rightarrow> (jsval \<times> jsstr) option" where
  "json_value 0 s = None"
| "json_value (Suc fuel) s =
     (case json_space s of
        [] \<Rightarrow> None
      | c # cs \<Rightarrow>
          if c = 34 then map_option (\<lambda>(v, rest). (JStr v, rest)) (json_chars cs [])
          else if c = 91 then json_elements fuel True [] cs
          else if c = 123 then json_members fuel True [] cs
          else json_word (c # cs))"
| "json_elements 0 may_end vs s = None"
| "json_elements (Suc fuel) may_end vs s =
     (case json_space s of
        [] \<Rightarrow> None
      | c # cs \<Rightarrow>
          if c = 93 \<and> may_end then Some (JArr vs, cs)
          else
            (case json_value fuel (c # cs) of
               None \<Rightarrow> None
             | Some (v, rest) \<Rightarrow>
                 (case json_space rest of
                    [] \<Rightarrow> None
                  | d # ds \<Rightarrow>
                      if d = 93 then Some (JArr (vs @ [v]), ds)
                      else if d = 44 then json_elements fuel False (vs @ [v]) ds else None)))"
| "json_members 0 may_end es s = None"
| "json_members (Suc fuel) may_end es s =
     (case json_space s of
        [] \<Rightarrow> None
      | c # cs \<Rightarrow>
          if c = 125 \<and> may_end then Some (JObj es, cs)
          else if c \<noteq> 34 then None
          else
            (case json_chars cs [] of
               None \<Rightarrow> None
             | Some (k, rest) \<Rightarrow>
                 (case json_space rest of
                    [] \<Rightarrow> None
                  | d # ds \<Rightarrow>
                      if d \<noteq> 58 then None
                      else
                        (case json_value fuel ds of
                           None \<Rightarrow> None
                         | Some (v, rest) \<Rightarrow>
                             (case json_space rest of
                                [] \<Rightarrow> None
                              | d # ds \<Rightarrow>
                                  if d = 125 then Some (JObj (set_member es k v), ds)
                                  else if d = 44 then json_members fuel False (set_member es k v) ds
                                  else None)))))"

text \<open>\<open>JSON.parse(text)\<close>; \<open>None\<close> where it throws.\<close>

definition JSON_parse :: "jsstr \<Rightarrow> jsval option" where
  "JSON_parse s =
     (case json_value (2 * length s + 2) s of
        Some (v, rest) \<Rightarrow> if json_space rest = [] then Some v else None
      | None \<Rightarrow> None)"

section \<open>Values as text\<close>

text \<open>
  \<open>String(value)\<close>. An array joins its elements, null and undefined as empty texts. An object without an
  own \<open>toString\<close> is the same text for all; one with such a member, which is no function, cannot be converted.
\<close>

fun js_String :: "jsval \<Rightarrow> exn + jsstr" where
  "js_String JUndef = Inr (js ''undefined'')"
| "js_String JNull = Inr (js ''null'')"
| "js_String (JBool b) = Inr (if b then js ''true'' else js ''false'')"
| "js_String (JNum x) = Inr (num_to_string x)"
| "js_String (JStr s) = Inr s"
| "js_String (JArr vs) =
     bindR (mapR (\<lambda>v. if nullish v then Inr [] else js_String v) vs) (\<lambda>ts. Inr (join (js '','') ts))"
| "js_String (JObj es) =
     (if map_of es (js ''toString'') \<noteq> None then Inl (HostError (js ''Cannot convert object to primitive value''))
      else Inr (js ''[object Object]''))"

section \<open>Quoted text\<close>

lemma json_chars_hex:
  assumes "list_all is_hex [a, b, c, d]"
  shows "json_chars (92 # 117 # a # b # c # d # rest) v = json_chars rest (v @ [parse_hex [a, b, c, d]])"
  using assms by (subst json_chars.simps) simp

lemma json_chars_unicode:
  assumes "0 \<le> c" "c < 65536"
  shows "json_chars (unicode_escape c @ rest) v = json_chars rest (v @ [c])"
proof -
  have "is_hex (hex_digit (k mod 16))" for k using hex_digit_ok [of "k mod 16"] by simp
  then show ?thesis
    unfolding unicode_escape_def append_Cons append_Nil by (subst json_chars_hex) (simp_all add: parse_hex_digits [OF assms])
qed

lemma json_chars_escape:
  "map_of json_escapes c = Some e \<Longrightarrow> json_chars ([92, e] @ rest) v = json_chars rest (v @ [c])"
  by (auto simp: json_escapes_def json_chars.simps(2) split: if_splits)

lemma json_chars_plain:
  "map_of json_escapes c = None \<Longrightarrow> \<not> c < 32 \<Longrightarrow> json_chars (c # rest) v = json_chars rest (v @ [c])"
  by (auto simp: json_escapes_def json_chars.simps(2) split: if_splits)

lemma surrogate_ge: "is_high c \<Longrightarrow> \<not> c < 32" "is_low c \<Longrightarrow> \<not> c < 32"
  by (auto simp: is_high_def is_low_def)

lemma json_chars_body:
  "code_units s \<Longrightarrow> json_chars (json_body s @ 34 # rest) v = Some (v @ s, rest)"
proof (induction s arbitrary: v rule: json_body.induct)
  case 1
  then show ?case by (simp add: json_chars.simps(2))
next
  case (2 c)
  then show ?case
    using json_chars_escape [of c] json_chars_plain [of c] json_chars_unicode [of c]
    by (cases "map_of json_escapes c") (auto simp: code_units_def json_chars.simps(2) [of 34])
next
  case (3 c d cs)
  have cu: "0 \<le> c" "c < 65536" "code_units (d # cs)" "code_units cs" using "3.prems" by (simp_all add: code_units_def)
  show ?case
  proof (cases "map_of json_escapes c")
    case (Some e)
    then show ?thesis using "3.IH"(4) [OF Some cu(3)] json_chars_escape [OF Some, of "json_body (d # cs) @ 34 # rest"] by simp
  next
    case None
    consider (pair) "is_high c \<and> is_low d" | (esc) "\<not> (is_high c \<and> is_low d)" "c < 32 \<or> is_high c \<or> is_low c"
      | (copy) "\<not> (is_high c \<and> is_low d)" "\<not> (c < 32 \<or> is_high c \<or> is_low c)" by blast
    then show ?thesis
    proof cases
      case pair
      then show ?thesis
        using "3.IH"(1) [OF None pair cu(4)] json_chars_plain [OF None, of "d # json_body cs @ 34 # rest"]
          json_chars_plain [OF low_plain [of d], of "json_body cs @ 34 # rest"] None surrogate_ge
        by simp
    next
      case esc
      then show ?thesis
        using "3.IH"(2) [OF None esc(1) esc(2) cu(3)] None json_chars_unicode [OF cu(1,2), of "json_body (d # cs) @ 34 # rest"]
        by auto
    next
      case copy
      then show ?thesis
        using "3.IH"(3) [OF None copy(1) copy(2) cu(3)] None json_chars_plain [OF None, of "json_body (d # cs) @ 34 # rest"]
        by auto
    qed
  qed
qed

text \<open>\<open>JSON.parse(JSON.stringify(s))\<close> is \<open>s\<close>.\<close>

lemma JSON_parse_string: "code_units s \<Longrightarrow> JSON_parse (json_string s) = Some (JStr s)"
  using json_chars_body [of s "[]" "[]"] by (simp add: JSON_parse_def json_string_def json_space_def)

end
