(* ===== verification/Request_Rules.thy ===== *)
theory Request_Rules
  imports Structure JS_Parse_JSON "HOL-Library.Monad_Syntax"
begin

text \<open>
  Request rules (\<^verbatim>\<open>features/pricing/lib/billing-expr.ts\<close>, the request rule parser and the rule editor):
  factors \<open>(condition ? multiplier : 1)\<close> on the body, the headers and the time of a request, read from
  text by regular expressions and built from the rows of the editor. A regular expression is a function
  that consumes the text from the left; each pattern of the source has at most one match.
\<close>

section \<open>Rules\<close>

definition NUMERIC_LITERAL :: "jsstr \<Rightarrow> bool" where
  "NUMERIC_LITERAL s =
     (let t = (case s of c # cs \<Rightarrow> if c = 45 then cs else s | [] \<Rightarrow> [])
      in t \<noteq> [] \<and> match_number t = t)"

definition TIME_FUNCS :: "jsstr list" where
  "TIME_FUNCS = [js ''hour'', js ''minute'', js ''weekday'', js ''month'', js ''day'']"

definition MATCH_EQ :: jsstr where "MATCH_EQ = js ''eq''"
definition MATCH_CONTAINS :: jsstr where "MATCH_CONTAINS = js ''contains''"
definition MATCH_GT :: jsstr where "MATCH_GT = js ''gt''"
definition MATCH_GTE :: jsstr where "MATCH_GTE = js ''gte''"
definition MATCH_LT :: jsstr where "MATCH_LT = js ''lt''"
definition MATCH_LTE :: jsstr where "MATCH_LTE = js ''lte''"
definition MATCH_EXISTS :: jsstr where "MATCH_EXISTS = js ''exists''"
definition MATCH_RANGE :: jsstr where "MATCH_RANGE = js ''range''"

lemmas match_defs = MATCH_EQ_def MATCH_CONTAINS_def MATCH_GT_def MATCH_GTE_def MATCH_LT_def MATCH_LTE_def
  MATCH_EXISTS_def MATCH_RANGE_def

record ParamHeaderCondition =
  ph_header :: bool
  ph_path :: jsstr
  ph_mode :: jsstr
  ph_value :: jsstr

record TimeCondition =
  ti_timeFunc :: jsstr
  ti_timezone :: jsstr
  ti_mode :: jsstr
  ti_value :: jsstr
  ti_rangeStart :: jsstr
  ti_rangeEnd :: jsstr

datatype RequestCondition = Time TimeCondition | ParamHeader ParamHeaderCondition

record RequestRuleGroup =
  rg_conditions :: "RequestCondition list"
  rg_multiplier :: jsstr
  rg_conditionText :: "jsstr option"
  rg_matched :: "bool option"

section \<open>Patterns\<close>

text \<open>A literal text, a run of characters that are no quotes, and a run of characters of a number.\<close>

definition eat :: "jsstr \<Rightarrow> jsstr \<Rightarrow> jsstr option" where
  "eat t s = (if starts_with s t then Some (drop (length t) s) else None)"

definition eat_unquoted :: "jsstr \<Rightarrow> (jsstr \<times> jsstr) option" where
  "eat_unquoted s =
     (let v = takeWhile (\<lambda>c. c \<noteq> 34) s in if v = [] then None else Some (v, drop (length v) s))"

definition number_char :: "code_unit \<Rightarrow> bool" where
  "number_char c \<longleftrightarrow> is_digit c \<or> c \<in> {46, 101, 69, 43, 45}"

definition eat_number :: "jsstr \<Rightarrow> (jsstr \<times> jsstr) option" where
  "eat_number s = (let v = takeWhile number_char s in if v = [] then None else Some (v, drop (length v) s))"

text \<open>The first of several literal texts that occurs at the start.\<close>

fun eat_one :: "jsstr list \<Rightarrow> jsstr \<Rightarrow> (jsstr \<times> jsstr) option" where
  "eat_one [] s = None"
| "eat_one (t # ts) s = (case eat t s of Some rest \<Rightarrow> Some (t, rest) | None \<Rightarrow> eat_one ts s)"

definition at_end :: "jsstr \<Rightarrow> unit option" where
  "at_end s = (if s = [] then Some () else None)"

text \<open>\<open>name("text")\<close> for one of the names.\<close>

definition eat_call :: "jsstr list \<Rightarrow> jsstr \<Rightarrow> (jsstr \<times> jsstr \<times> jsstr) option" where
  "eat_call names s =
     do { (f, s) \<leftarrow> eat_one names s;
          s \<leftarrow> eat [40, 34] s;
          (v, s) \<leftarrow> eat_unquoted s;
          s \<leftarrow> eat [34, 41] s;
          Some (f, v, s) }"

text \<open>\<open>"(?:[^"\\]|\\.)*"\<close>: a quoted text with its quotes.\<close>

fun quoted_body :: "jsstr \<Rightarrow> jsstr option" where
  "quoted_body [] = None"
| "quoted_body (c # cs) =
     (if c = 34 then Some [34]
      else if c \<noteq> 92 then map_option (\<lambda>t. c # t) (quoted_body cs)
      else
        (case cs of
           [] \<Rightarrow> None
         | d # ds \<Rightarrow> if d \<in> {10, 13, 8232, 8233} then None else map_option (\<lambda>t. c # d # t) (quoted_body ds)))"

definition eat_quoted :: "jsstr \<Rightarrow> (jsstr \<times> jsstr) option" where
  "eat_quoted s =
     do { s' \<leftarrow> eat [34] s;
          t \<leftarrow> quoted_body s';
          Some (34 # t, drop (length t) s') }"

section \<open>Reading conditions\<close>

definition parseExprLiteral :: "jsstr \<Rightarrow> jsval option" where
  "parseExprLiteral raw =
     (let t = trim raw
      in if t = js ''true'' \<or> t = js ''false'' then Some (JStr t)
         else if NUMERIC_LITERAL t then Some (JStr t)
         else (case JSON_parse t of Some JNull \<Rightarrow> None | Some v \<Rightarrow> Some v | None \<Rightarrow> None))"

definition TIME_FUNC_RANGES :: "(jsstr \<times> int \<times> int) list" where
  "TIME_FUNC_RANGES = [(js ''hour'', 0, 23), (js ''minute'', 0, 59), (js ''weekday'', 0, 6), (js ''month'', 1, 12),
     (js ''day'', 1, 31)]"

definition isTimeValueInRange :: "jsstr \<Rightarrow> jsstr \<Rightarrow> bool" where
  "isTimeValueInRange timeFunc s =
     (NUMERIC_LITERAL s \<and>
      (let x = js_Number s
       in isInteger x \<and>
          (case map_of TIME_FUNC_RANGES timeFunc of
             Some (lo, hi) \<Rightarrow> js_le (num_of_int lo) x \<and> js_le x (num_of_int hi)
           | None \<Rightarrow> False)))"

text \<open>\<open>fn("tz") >= a && fn("tz") < b\<close>, with \<open>&&\<close> or \<open>||\<close>, up to the end or a closing parenthesis at the end.\<close>

definition range_pattern :: "jsstr \<Rightarrow> jsstr \<Rightarrow> (jsstr \<times> jsstr \<times> jsstr \<times> jsstr) option" where
  "range_pattern closing s =
     do { (f, z, s) \<leftarrow> eat_call TIME_FUNCS s;
          s \<leftarrow> eat (js '' >= '') s;
          (a, s) \<leftarrow> eat_number s;
          (_, s) \<leftarrow> eat_one [js '' && '', js '' || ''] s;
          s \<leftarrow> eat (f @ [40, 34] @ z @ [34, 41] @ js '' < '') s;
          (b, s) \<leftarrow> eat_number s;
          s \<leftarrow> eat closing s;
          _ \<leftarrow> at_end s;
          Some (f, z, a, b) }"

definition scalar_pattern :: "jsstr \<Rightarrow> (jsstr \<times> jsstr \<times> jsstr \<times> jsstr) option" where
  "scalar_pattern s =
     do { (f, z, s) \<leftarrow> eat_call TIME_FUNCS s;
          (op, s) \<leftarrow> eat_one [js '' == '', js '' >= '', js '' < ''] s;
          (v, s) \<leftarrow> eat_number s;
          _ \<leftarrow> at_end s;
          Some (f, z, op, v) }"

definition whole_range :: "jsstr \<Rightarrow> (jsstr \<times> jsstr \<times> jsstr \<times> jsstr) option" where
  "whole_range expr =
     (case range_pattern [] expr of
        Some m \<Rightarrow> Some m
      | None \<Rightarrow> do { s \<leftarrow> eat (js ''('') expr; range_pattern (js '')'') s })"

definition tryParseTimeCondition :: "jsstr \<Rightarrow> TimeCondition option" where
  "tryParseTimeCondition expr =
     (case whole_range expr of
        Some (f, z, a, b) \<Rightarrow>
          if isTimeValueInRange f a \<and> isTimeValueInRange f b
          then Some \<lparr>ti_timeFunc = f, ti_timezone = z, ti_mode = MATCH_RANGE, ti_value = [], ti_rangeStart = a,
                     ti_rangeEnd = b\<rparr>
          else None
      | None \<Rightarrow>
          (case scalar_pattern expr of
             Some (f, z, op, v) \<Rightarrow>
               if isTimeValueInRange f v
               then Some \<lparr>ti_timeFunc = f, ti_timezone = z,
                      ti_mode = (if op = js '' == '' then MATCH_EQ else if op = js '' >= '' then MATCH_GTE else MATCH_LT),
                      ti_value = v, ti_rangeStart = [], ti_rangeEnd = []\<rparr>
               else None
           | None \<Rightarrow> None))"

text \<open>The patterns on headers and parameters, in the order in which they are tried.\<close>

definition exists_pattern :: "jsstr \<Rightarrow> jsstr \<Rightarrow> jsstr \<Rightarrow> jsstr option" where
  "exists_pattern name ending expr =
     do { (_, p, s) \<leftarrow> eat_call [name] expr; s \<leftarrow> eat ending s; _ \<leftarrow> at_end s; Some p }"

definition header_contains :: "jsstr \<Rightarrow> (jsstr \<times> jsstr) option" where
  "header_contains expr =
     do { s \<leftarrow> eat (js ''has('') expr;
          (_, p, s) \<leftarrow> eat_call [js ''header''] s;
          s \<leftarrow> eat (js '', '') s;
          (q, s) \<leftarrow> eat_quoted s;
          s \<leftarrow> eat (js '')'') s;
          _ \<leftarrow> at_end s;
          Some (p, q) }"

definition param_contains :: "jsstr \<Rightarrow> (jsstr \<times> jsstr) option" where
  "param_contains expr =
     do { (_, p, s) \<leftarrow> eat_call [js ''param''] expr;
          s \<leftarrow> eat (js '' != nil && has('') s;
          (_, p', s) \<leftarrow> eat_call [js ''param''] s;
          s \<leftarrow> eat (js '', '') s;
          (q, s) \<leftarrow> eat_quoted s;
          s \<leftarrow> eat (js '')'') s;
          _ \<leftarrow> at_end s;
          if p = p' then Some (p, q) else None }"

definition param_compare :: "jsstr \<Rightarrow> (jsstr \<times> jsstr \<times> jsstr) option" where
  "param_compare expr =
     do { (_, p, s) \<leftarrow> eat_call [js ''param''] expr;
          s \<leftarrow> eat (js '' != nil && '') s;
          (_, p', s) \<leftarrow> eat_call [js ''param''] s;
          (op, s) \<leftarrow> eat_one [js '' > '', js '' >= '', js '' < '', js '' <= ''] s;
          (v, s) \<leftarrow> eat_number s;
          _ \<leftarrow> at_end s;
          if p = p' then Some (p, op, v) else None }"

definition equals_pattern :: "jsstr \<Rightarrow> (jsstr \<times> jsstr \<times> jsstr) option" where
  "equals_pattern expr =
     do { (f, p, s) \<leftarrow> eat_call [js ''param'', js ''header''] expr;
          s \<leftarrow> eat (js '' == '') s;
          if s \<noteq> [] \<and> list_all (\<lambda>c. c \<notin> {10, 13, 8232, 8233}) s then Some (f, p, s) else None }"

definition compare_mode :: "jsstr \<Rightarrow> jsstr" where
  "compare_mode op =
     (if op = js '' > '' then MATCH_GT else if op = js '' >= '' then MATCH_GTE
      else if op = js '' < '' then MATCH_LT else MATCH_LTE)"

text \<open>\<open>JSON.parse\<close> outside a \<open>try\<close>: a quoted text that is no JSON text raises.\<close>

definition parse_quoted :: "jsstr \<Rightarrow> exn + jsstr" where
  "parse_quoted q = (case JSON_parse q of Some (JStr s) \<Rightarrow> Inr s | _ \<Rightarrow> Inl (HostError (js ''JSON.parse'')))"

definition ph_condition :: "bool \<Rightarrow> jsstr \<Rightarrow> jsstr \<Rightarrow> jsstr \<Rightarrow> RequestCondition" where
  "ph_condition header path mode v =
     ParamHeader \<lparr>ph_header = header, ph_path = path, ph_mode = mode, ph_value = v\<rparr>"

definition tryParseRequestCondition :: "jsstr \<Rightarrow> exn + RequestCondition option" where
  "tryParseRequestCondition expr =
     (case tryParseTimeCondition expr of
        Some tc \<Rightarrow> Inr (Some (Time tc))
      | None \<Rightarrow>
     (case exists_pattern (js ''header'') [32, 33, 61, 32, 34, 34] expr of
        Some p \<Rightarrow> Inr (Some (ph_condition True p MATCH_EXISTS []))
      | None \<Rightarrow>
     (case exists_pattern (js ''param'') (js '' != nil'') expr of
        Some p \<Rightarrow> Inr (Some (ph_condition False p MATCH_EXISTS []))
      | None \<Rightarrow>
     (case header_contains expr of
        Some (p, q) \<Rightarrow> bindR (parse_quoted q) (\<lambda>v. Inr (Some (ph_condition True p MATCH_CONTAINS v)))
      | None \<Rightarrow>
     (case param_contains expr of
        Some (p, q) \<Rightarrow> bindR (parse_quoted q) (\<lambda>v. Inr (Some (ph_condition False p MATCH_CONTAINS v)))
      | None \<Rightarrow>
     (case param_compare expr of
        Some (p, op, v) \<Rightarrow> Inr (Some (ph_condition False p (compare_mode op) v))
      | None \<Rightarrow>
     (case equals_pattern expr of
        Some (f, p, raw) \<Rightarrow>
          (case parseExprLiteral raw of
             None \<Rightarrow> Inr None
           | Some v \<Rightarrow> bindR (js_String v) (\<lambda>t. Inr (Some (ph_condition (f = js ''header'') p MATCH_EQ t))))
      | None \<Rightarrow> Inr None)))))))"

definition tryParseTimeRangePair :: "jsstr \<Rightarrow> jsstr \<Rightarrow> TimeCondition option" where
  "tryParseTimeRangePair lower upper =
     (case (tryParseTimeCondition lower, tryParseTimeCondition upper) of
        (Some a, Some b) \<Rightarrow>
          if ti_timeFunc a = ti_timeFunc b \<and> ti_timezone a = ti_timezone b \<and> ti_mode a = MATCH_GTE \<and> ti_mode b = MATCH_LT
          then Some \<lparr>ti_timeFunc = ti_timeFunc a, ti_timezone = ti_timezone a, ti_mode = MATCH_RANGE, ti_value = [],
                     ti_rangeStart = ti_value a, ti_rangeEnd = ti_value b\<rparr>
          else None
      | _ \<Rightarrow> None)"

text \<open>The loop over the parts of a conjunction; \<open>None\<close> where a part is no condition.\<close>

fun parse_parts :: "jsstr list \<Rightarrow> exn + RequestCondition list option" where
  "parse_parts [] = Inr (Some [])"
| "parse_parts [part] =
     bindR (tryParseRequestCondition (trim part)) (\<lambda>c. Inr (map_option (\<lambda>c. [c]) c))"
| "parse_parts (part # next # parts) =
     (case (if trim next \<noteq> [] then tryParseTimeRangePair (trim part) (trim next) else None) of
        Some merged \<Rightarrow> bindR (parse_parts parts) (\<lambda>cs. Inr (map_option (\<lambda>cs. Time merged # cs) cs))
      | None \<Rightarrow>
          bindR (tryParseRequestCondition (trim part)) (\<lambda>c.
            case c of
              None \<Rightarrow> Inr None
            | Some c \<Rightarrow> bindR (parse_parts (next # parts)) (\<lambda>cs. Inr (map_option (\<lambda>cs. c # cs) cs))))"

definition tryParseRequestConditions :: "jsstr \<Rightarrow> exn + RequestCondition list option" where
  "tryParseRequestConditions s =
     (case tryParseTimeCondition (trim s) of
        Some tc \<Rightarrow> Inr (Some [Time tc])
      | None \<Rightarrow>
          bindR (parse_parts (splitExpressionAtTopLevel s (js ''&&''))) (\<lambda>cs.
            Inr (case cs of Some [] \<Rightarrow> None | _ \<Rightarrow> cs)))"

text \<open>\<open>^\((.+) \? ([\d.eE+-]+) : 1\)$\<close>: the number is the run of its characters before the end.\<close>

definition factor_pattern :: "jsstr \<Rightarrow> (jsstr \<times> jsstr) option" where
  "factor_pattern part =
     do { s \<leftarrow> eat (js ''('') part;
          r \<leftarrow> eat (rev (js '' : 1)'')) (rev s);
          (m, r) \<leftarrow> eat_number r;
          r \<leftarrow> eat (rev (js '' ? '')) r;
          if r = [] then None else Some (rev r, rev m) }"

definition tryParseRuleGroupFactor :: "jsstr \<Rightarrow> exn + RequestRuleGroup option" where
  "tryParseRuleGroupFactor part =
     (case factor_pattern part of
        None \<Rightarrow> Inr None
      | Some (c, m) \<Rightarrow>
          bindR (tryParseRequestConditions c) (\<lambda>cs.
            Inr (map_option (\<lambda>cs. \<lparr>rg_conditions = cs, rg_multiplier = m, rg_conditionText = None,
                                  rg_matched = None\<rparr>) cs)))"

definition rule_group_of :: "BillingRequestRule \<Rightarrow> exn + RequestRuleGroup" where
  "rule_group_of rule =
     (let conditionText = trim (rule_text rule)
      in bindR (tryParseRequestConditions conditionText) (\<lambda>cs.
           Inr \<lparr>rg_conditions = (case cs of Some cs \<Rightarrow> cs | None \<Rightarrow> []),
                rg_multiplier = num_to_string (rule_multiplier rule), rg_conditionText = Some conditionText,
                rg_matched = Some (rule_matched rule)\<rparr>))"

definition requestRuleGroupsFromTrace :: "BillingRequestRule list \<Rightarrow> exn + RequestRuleGroup list" where
  "requestRuleGroupsFromTrace rules = mapR rule_group_of rules"

fun parse_factors :: "jsstr list \<Rightarrow> exn + RequestRuleGroup list option" where
  "parse_factors [] = Inr (Some [])"
| "parse_factors (part # parts) =
     bindR (tryParseRuleGroupFactor part) (\<lambda>g.
       case g of
         None \<Rightarrow> Inr None
       | Some g \<Rightarrow> bindR (parse_factors parts) (\<lambda>gs. Inr (map_option (\<lambda>gs. g # gs) gs)))"

definition tryParseRequestRuleExpr :: "jsstr \<Rightarrow> exn + RequestRuleGroup list option" where
  "tryParseRequestRuleExpr expr =
     (if trim expr = [] then Inr (Some [])
      else parse_factors (splitExpressionAtTopLevel (trim expr) (js ''*'')))"

end
