(* ===== verification/Rule_Editor.thy ===== *)
theory Rule_Editor
  imports Request_Rules
begin

text \<open>
  The request rule editor (\<^verbatim>\<open>features/pricing/lib/billing-expr.ts\<close>, from the empty constructors on): rows
  with missing or unknown fields are normalized, and rows are written as the text the rule parser reads.
\<close>

section \<open>Rows\<close>

definition createEmptyCondition :: ParamHeaderCondition where
  "createEmptyCondition = \<lparr>ph_header = False, ph_path = [], ph_mode = MATCH_EQ, ph_value = []\<rparr>"

definition createEmptyTimeCondition :: TimeCondition where
  "createEmptyTimeCondition = \<lparr>ti_timeFunc = js ''hour'', ti_timezone = js ''Asia/Shanghai'', ti_mode = MATCH_GTE,
     ti_value = [], ti_rangeStart = [], ti_rangeEnd = []\<rparr>"

definition plain_group :: "RequestCondition list \<Rightarrow> jsstr \<Rightarrow> RequestRuleGroup" where
  "plain_group cs m = \<lparr>rg_conditions = cs, rg_multiplier = m, rg_conditionText = None, rg_matched = None\<rparr>"

definition createEmptyRuleGroup :: RequestRuleGroup where
  "createEmptyRuleGroup = plain_group [ParamHeader createEmptyCondition] []"

definition createEmptyTimeRuleGroup :: RequestRuleGroup where
  "createEmptyTimeRuleGroup = plain_group [Time createEmptyTimeCondition] []"

datatype source = Source_param | Source_header | Source_time

record MatchOption =
  mo_value :: jsstr
  mo_labelKey :: jsstr

definition match_option :: "jsstr \<Rightarrow> string \<Rightarrow> MatchOption" where
  "match_option v k = \<lparr>mo_value = v, mo_labelKey = js k\<rparr>"

definition getRequestRuleMatchOptions :: "source \<Rightarrow> MatchOption list" where
  "getRequestRuleMatchOptions src =
     (if src = Source_time then
        [match_option MATCH_EQ ''Equals'', match_option MATCH_GTE ''Greater than or equal'',
         match_option MATCH_LT ''Less than'', match_option MATCH_RANGE ''Overnight range'']
      else
        (let base = [match_option MATCH_EQ ''Equals'', match_option MATCH_CONTAINS ''Contains'',
                     match_option MATCH_EXISTS ''Exists'']
         in if src = Source_header then base
            else base @ [match_option MATCH_GT ''Greater than'', match_option MATCH_GTE ''Greater than or equal'',
                         match_option MATCH_LT ''Less than'', match_option MATCH_LTE ''Less than or equal'']))"

text \<open>A row whose fields may be missing. The source is missing where it is none of the three.\<close>

record PartialCondition =
  pc_source :: "source option"
  pc_timeFunc :: "jsstr option"
  pc_timezone :: "jsstr option"
  pc_path :: "jsstr option"
  pc_mode :: "jsstr option"
  pc_value :: "jsstr option"
  pc_rangeStart :: "jsstr option"
  pc_rangeEnd :: "jsstr option"

definition isTimeFunc :: "jsstr option \<Rightarrow> bool" where
  "isTimeFunc v = (case v of Some f \<Rightarrow> f \<in> set TIME_FUNCS | None \<Rightarrow> False)"

definition text_or_empty :: "jsstr option \<Rightarrow> jsstr" where
  "text_or_empty v = (case v of Some s \<Rightarrow> s | None \<Rightarrow> [])"

definition mode_or :: "source \<Rightarrow> jsstr option \<Rightarrow> jsstr \<Rightarrow> jsstr" where
  "mode_or src mode fallback =
     (case mode of
        Some m \<Rightarrow> if list_ex (\<lambda>item. mo_value item = m) (getRequestRuleMatchOptions src) then m else fallback
      | None \<Rightarrow> fallback)"

definition normalizeCondition :: "PartialCondition \<Rightarrow> RequestCondition" where
  "normalizeCondition c =
     (case (case pc_source c of Some Source_time \<Rightarrow> Source_time | Some Source_header \<Rightarrow> Source_header | _ \<Rightarrow> Source_param) of
        Source_time \<Rightarrow>
          Time \<lparr>ti_timeFunc = (if isTimeFunc (pc_timeFunc c) then text_or_empty (pc_timeFunc c) else js ''hour''),
                ti_timezone = (if text_or_empty (pc_timezone c) = [] then js ''Asia/Shanghai''
                               else text_or_empty (pc_timezone c)),
                ti_mode = mode_or Source_time (pc_mode c) MATCH_GTE,
                ti_value = text_or_empty (pc_value c),
                ti_rangeStart = text_or_empty (pc_rangeStart c),
                ti_rangeEnd = text_or_empty (pc_rangeEnd c)\<rparr>
      | src \<Rightarrow>
          ParamHeader \<lparr>ph_header = (src = Source_header), ph_path = text_or_empty (pc_path c),
                       ph_mode = mode_or src (pc_mode c) MATCH_EQ, ph_value = text_or_empty (pc_value c)\<rparr>)"

text \<open>A complete row as such a row.\<close>

definition partial_of :: "RequestCondition \<Rightarrow> PartialCondition" where
  "partial_of c =
     (case c of
        Time t \<Rightarrow>
          \<lparr>pc_source = Some Source_time, pc_timeFunc = Some (ti_timeFunc t), pc_timezone = Some (ti_timezone t),
           pc_path = None, pc_mode = Some (ti_mode t), pc_value = Some (ti_value t),
           pc_rangeStart = Some (ti_rangeStart t), pc_rangeEnd = Some (ti_rangeEnd t)\<rparr>
      | ParamHeader p \<Rightarrow>
          \<lparr>pc_source = Some (if ph_header p then Source_header else Source_param), pc_timeFunc = None,
           pc_timezone = None, pc_path = Some (ph_path p), pc_mode = Some (ph_mode p), pc_value = Some (ph_value p),
           pc_rangeStart = None, pc_rangeEnd = None\<rparr>)"

section \<open>Writing rules\<close>

definition buildExprLiteral :: "jsstr \<Rightarrow> jsstr \<Rightarrow> jsstr" where
  "buildExprLiteral mode v =
     (let t = trim v
      in if mode = MATCH_CONTAINS then json_string t
         else if t = js ''true'' \<or> t = js ''false'' then t
         else if NUMERIC_LITERAL t then t
         else json_string t)"

definition build_time :: "TimeCondition \<Rightarrow> jsstr" where
  "build_time n =
     (let fn = ti_timeFunc n @ js ''('' @ json_string (ti_timezone n) @ js '')''
      in if ti_mode n = MATCH_RANGE then
           (let s = trim (ti_rangeStart n); e = trim (ti_rangeEnd n)
            in if \<not> isTimeValueInRange (ti_timeFunc n) s \<or> \<not> isTimeValueInRange (ti_timeFunc n) e then []
               else if js_lt (js_Number e) (js_Number s)
               then fn @ js '' >= '' @ s @ js '' || '' @ fn @ js '' < '' @ e
               else fn @ js '' >= '' @ s @ js '' && '' @ fn @ js '' < '' @ e)
         else
           (let v = trim (ti_value n)
            in if \<not> isTimeValueInRange (ti_timeFunc n) v then []
               else fn @ js '' '' @ (if ti_mode n = MATCH_GTE then js ''>='' else if ti_mode n = MATCH_LT then js ''<''
                                     else js ''=='') @ js '' '' @ v))"

definition buildTimeConditionExpr :: "TimeCondition \<Rightarrow> jsstr" where
  "buildTimeConditionExpr cond =
     (case normalizeCondition (partial_of (Time cond)) of Time n \<Rightarrow> build_time n | ParamHeader _ \<Rightarrow> [])"

definition compare_operator :: "jsstr \<Rightarrow> jsstr option" where
  "compare_operator mode =
     map_of [(MATCH_GT, js ''>''), (MATCH_GTE, js ''>=''), (MATCH_LT, js ''<''), (MATCH_LTE, js ''<='')] mode"

definition build_param_header :: "ParamHeaderCondition \<Rightarrow> jsstr" where
  "build_param_header n =
     (let path = trim (ph_path n)
      in if path = [] then []
         else
           (let sourceExpr = (if ph_header n then js ''header('' else js ''param('') @ json_string path @ js '')'';
                literal = buildExprLiteral (ph_mode n) (ph_value n)
            in if ph_mode n = MATCH_EXISTS then
                 (if ph_header n then sourceExpr @ [32, 33, 61, 32, 34, 34] else sourceExpr @ js '' != nil'')
               else if ph_mode n = MATCH_CONTAINS then
                 (if ph_header n then js ''has('' @ sourceExpr @ js '', '' @ literal @ js '')''
                  else sourceExpr @ js '' != nil && has('' @ sourceExpr @ js '', '' @ literal @ js '')'')
               else
                 (case compare_operator (ph_mode n) of
                    Some op \<Rightarrow>
                      (let numText = trim (ph_value n)
                       in if \<not> NUMERIC_LITERAL numText then []
                          else sourceExpr @ js '' != nil && '' @ sourceExpr @ js '' '' @ op @ js '' '' @ numText)
                  | None \<Rightarrow> sourceExpr @ js '' == '' @ literal)))"

definition buildRequestConditionExpr :: "RequestCondition \<Rightarrow> jsstr" where
  "buildRequestConditionExpr cond =
     (case cond of
        Time t \<Rightarrow> buildTimeConditionExpr t
      | ParamHeader p \<Rightarrow>
          (case normalizeCondition (partial_of cond) of ParamHeader n \<Rightarrow> build_param_header n | Time _ \<Rightarrow> []))"

definition buildRuleGroupFactor :: "RequestRuleGroup \<Rightarrow> jsstr" where
  "buildRuleGroupFactor g =
     (let multiplier = trim (rg_multiplier g);
          condExprs = filter (\<lambda>s. s \<noteq> []) (map buildRequestConditionExpr (rg_conditions g))
      in if \<not> NUMERIC_LITERAL multiplier then []
         else if condExprs = [] then []
         else
           (let combined = (if length condExprs = 1 then hd condExprs
                  else join (js '' && '') (map (\<lambda>e. if js_includes e (js '' || '') then js ''('' @ e @ js '')'' else e) condExprs))
            in js ''('' @ combined @ js '' ? '' @ multiplier @ js '' : 1)''))"

definition buildRequestRuleExpr :: "RequestRuleGroup list \<Rightarrow> jsstr" where
  "buildRequestRuleExpr groups =
     join (js '' * '') (filter (\<lambda>s. s \<noteq> []) (map buildRuleGroupFactor groups))"

end
