(* ===== verification/Rule_Props.thy ===== *)
theory Rule_Props
  imports Rule_Editor
begin

text \<open>
  What the rule editor writes the rule parser reads: a row on the time of day is read back as that row,
  and a list of rules of one such row each is read back rule by rule. Normalizing a row twice changes
  nothing, and its mode is always one the editor offers.
\<close>

section \<open>Patterns on written text\<close>

lemma eat_append [simp]: "eat t (t @ s) = Some s"
  by (simp add: eat_def starts_with_def)

lemma eat_Some: "eat t s = Some r \<longleftrightarrow> s = t @ r"
  by (auto simp: eat_def starts_with_iff)

lemma eat_unquoted_append: "z \<noteq> [] \<Longrightarrow> 34 \<notin> set z \<Longrightarrow> eat_unquoted (z @ 34 # s) = Some (z, 34 # s)"
  by (auto simp: eat_unquoted_def takeWhile_append Let_def)

lemma eat_number_append:
  assumes "v \<noteq> []" "list_all number_char v" "s = [] \<or> \<not> number_char (hd s)"
  shows "eat_number (v @ s) = Some (v, s)"
proof -
  have "takeWhile number_char (v @ s) = v"
    using assms(2,3) by (induction v) (auto simp: takeWhile_eq_Nil_iff)
  then show ?thesis using assms(1) by (simp add: eat_number_def)
qed

lemma number_chars_match: "list_all number_char (match_number s)"
proof -
  have d: "list_all number_char (takeWhile is_digit t)" for t
    by (auto simp: list_all_iff number_char_def dest: set_takeWhileD)
  have "list_all number_char (mantissa_prefix s)"
    by (auto simp: mantissa_prefix_def Let_def d number_char_def [of 46] split: option.splits)
  moreover have "list_all number_char (exponent_prefix t)" for t
    by (auto simp: exponent_prefix_def sign_prefix_def Let_def d number_char_def split: list.splits)
  ultimately show ?thesis by (simp add: match_number_def Let_def)
qed

lemma numeric_chars:
  assumes "NUMERIC_LITERAL s"
  shows "s \<noteq> []" "list_all number_char s"
proof -
  show "s \<noteq> []" using assms by (auto simp: NUMERIC_LITERAL_def)
  obtain t where t: "match_number t = t" "s = t \<or> s = 45 # t"
    using assms by (cases s) (auto simp: NUMERIC_LITERAL_def Let_def split: if_splits)
  then show "list_all number_char s"
    using number_chars_match [of t] by (auto simp: number_char_def [of 45])
qed

text \<open>Zone names without quotes, backslashes, control characters and surrogates are quoted as they are.\<close>

definition plain_text :: "jsstr \<Rightarrow> bool" where
  "plain_text s \<longleftrightarrow> list_all (\<lambda>c. 32 \<le> c \<and> c \<noteq> 34 \<and> c \<noteq> 92 \<and> \<not> is_high c \<and> \<not> is_low c) s"

lemma plain_unescaped: "32 \<le> c \<Longrightarrow> c \<noteq> 34 \<Longrightarrow> c \<noteq> 92 \<Longrightarrow> map_of json_escapes c = None"
  by (simp add: json_escapes_def)

lemma json_body_Cons:
  assumes "32 \<le> c" "c \<noteq> 34" "c \<noteq> 92" "\<not> is_high c" "\<not> is_low c"
  shows "json_body (c # s) = c # json_body s"
  using plain_unescaped [OF assms(1-3)] assms by (cases s) simp_all

lemma json_body_plain: "plain_text s \<Longrightarrow> json_body s = s"
proof (induction s)
  case (Cons c s)
  then have c: "32 \<le> c" "c \<noteq> 34" "c \<noteq> 92" "\<not> is_high c" "\<not> is_low c" and s: "plain_text s"
    unfolding plain_text_def list.pred_inject by blast+
  show ?case unfolding json_body_Cons [OF c] Cons.IH [OF s] ..
qed simp

lemma plain_no_quote: "plain_text s \<Longrightarrow> 34 \<notin> set s \<and> 92 \<notin> set s"
  by (auto simp: plain_text_def list_all_iff)

lemma eat_one_time_func: "f \<in> set TIME_FUNCS \<Longrightarrow> eat_one TIME_FUNCS (f @ 40 # s) = Some (f, 40 # s)"
  unfolding TIME_FUNCS_def list.set insert_iff empty_iff
  by (elim disjE; (hypsubst | erule FalseE); simp add: eat_def starts_with_def)

text \<open>The call that a row on the time starts with.\<close>

definition time_call :: "jsstr \<Rightarrow> jsstr \<Rightarrow> jsstr" where
  "time_call f z = f @ [40, 34] @ z @ [34, 41]"

lemma eat_time_call:
  assumes "f \<in> set TIME_FUNCS" "z \<noteq> []" "plain_text z"
  shows "eat_call TIME_FUNCS (time_call f z @ s) = Some (f, z, s)"
proof -
  have "eat [40, 34] (40 # 34 # z @ 34 # 41 # s) = Some (z @ 34 # 41 # s)" using eat_append [of "[40, 34]"] by simp
  moreover have "eat_unquoted (z @ 34 # 41 # s) = Some (z, 34 # 41 # s)"
    using assms(2) plain_no_quote [OF assms(3)] by (intro eat_unquoted_append) simp_all
  moreover have "eat [34, 41] (34 # 41 # s) = Some s" using eat_append [of "[34, 41]"] by simp
  ultimately show ?thesis using eat_one_time_func [OF assms(1)] by (simp add: eat_call_def time_call_def)
qed

section \<open>Rows on the time\<close>

text \<open>A row as the parser returns it: texts without blanks around them, and no unused bounds or value.\<close>

definition stored :: "TimeCondition \<Rightarrow> TimeCondition" where
  "stored n =
     (if ti_mode n = MATCH_RANGE
      then n\<lparr>ti_value := [], ti_rangeStart := trim (ti_rangeStart n), ti_rangeEnd := trim (ti_rangeEnd n)\<rparr>
      else n\<lparr>ti_value := trim (ti_value n), ti_rangeStart := [], ti_rangeEnd := []\<rparr>)"

definition row_ok :: "TimeCondition \<Rightarrow> bool" where
  "row_ok n \<longleftrightarrow> ti_timeFunc n \<in> set TIME_FUNCS \<and> ti_timezone n \<noteq> [] \<and> plain_text (ti_timezone n) \<and>
     ti_mode n \<in> {MATCH_EQ, MATCH_GTE, MATCH_LT, MATCH_RANGE}"

lemma range_value_chars: "isTimeValueInRange f v \<Longrightarrow> v \<noteq> [] \<and> list_all number_char v"
  using numeric_chars by (simp add: isTimeValueInRange_def)

lemma build_time_text:
  assumes "row_ok n" "build_time n \<noteq> []"
  shows "ti_mode n = MATCH_RANGE \<Longrightarrow> \<exists>op \<in> {js '' && '', js '' || ''}. build_time n =
      time_call (ti_timeFunc n) (ti_timezone n) @ js '' >= '' @ trim (ti_rangeStart n) @ op @
      time_call (ti_timeFunc n) (ti_timezone n) @ js '' < '' @ trim (ti_rangeEnd n)"
    "ti_mode n \<noteq> MATCH_RANGE \<Longrightarrow> build_time n = time_call (ti_timeFunc n) (ti_timezone n) @
      (if ti_mode n = MATCH_GTE then js '' >= '' else if ti_mode n = MATCH_LT then js '' < '' else js '' == '') @ trim (ti_value n)"
    "ti_mode n = MATCH_RANGE \<Longrightarrow> isTimeValueInRange (ti_timeFunc n) (trim (ti_rangeStart n)) \<and>
      isTimeValueInRange (ti_timeFunc n) (trim (ti_rangeEnd n))"
    "ti_mode n \<noteq> MATCH_RANGE \<Longrightarrow> isTimeValueInRange (ti_timeFunc n) (trim (ti_value n))"
proof -
  have "json_string (ti_timezone n) = 34 # ti_timezone n @ [34]"
    using assms(1) by (simp add: row_ok_def json_string_def json_body_plain)
  then have fn: "ti_timeFunc n @ js ''('' @ json_string (ti_timezone n) @ js '')'' = time_call (ti_timeFunc n) (ti_timezone n)"
    by (simp add: time_call_def)
  show "ti_mode n = MATCH_RANGE \<Longrightarrow> \<exists>op \<in> {js '' && '', js '' || ''}. build_time n =
      time_call (ti_timeFunc n) (ti_timezone n) @ js '' >= '' @ trim (ti_rangeStart n) @ op @
      time_call (ti_timeFunc n) (ti_timezone n) @ js '' < '' @ trim (ti_rangeEnd n)"
    using assms(2) unfolding build_time_def fn Let_def by (auto split: if_splits)
  show "ti_mode n \<noteq> MATCH_RANGE \<Longrightarrow> build_time n = time_call (ti_timeFunc n) (ti_timezone n) @
      (if ti_mode n = MATCH_GTE then js '' >= '' else if ti_mode n = MATCH_LT then js '' < '' else js '' == '') @ trim (ti_value n)"
    using assms(2) unfolding build_time_def fn Let_def by (auto split: if_splits)
  show "ti_mode n = MATCH_RANGE \<Longrightarrow> isTimeValueInRange (ti_timeFunc n) (trim (ti_rangeStart n)) \<and>
      isTimeValueInRange (ti_timeFunc n) (trim (ti_rangeEnd n))"
    "ti_mode n \<noteq> MATCH_RANGE \<Longrightarrow> isTimeValueInRange (ti_timeFunc n) (trim (ti_value n))"
    using assms(2) by (auto simp: build_time_def Let_def split: if_splits)
qed

lemma time_call_head: "f \<in> set TIME_FUNCS \<Longrightarrow> eat [40] (time_call f z @ s) = None"
  by (auto simp: TIME_FUNCS_def time_call_def eat_def starts_with_def)

lemma parse_range_text:
  assumes "f \<in> set TIME_FUNCS" "z \<noteq> []" "plain_text z" "op \<in> {js '' && '', js '' || ''}"
    "isTimeValueInRange f a" "isTimeValueInRange f b"
  shows "tryParseTimeCondition (time_call f z @ js '' >= '' @ a @ op @ time_call f z @ js '' < '' @ b)
    = Some \<lparr>ti_timeFunc = f, ti_timezone = z, ti_mode = MATCH_RANGE, ti_value = [], ti_rangeStart = a, ti_rangeEnd = b\<rparr>"
proof -
  note a = range_value_chars [OF assms(5)] and b = range_value_chars [OF assms(6)]
  let ?tail = "time_call f z @ js '' < '' @ b"
  have "eat_number (a @ op @ ?tail) = Some (a, op @ ?tail)"
    using a assms(4) by (intro eat_number_append) (auto simp: number_char_def is_digit_def)
  moreover have "eat_one [js '' && '', js '' || ''] (op @ ?tail) = Some (op, ?tail)"
    using assms(4) by (auto simp: eat_def starts_with_def)
  moreover have "eat (f @ [40, 34] @ z @ [34, 41] @ js '' < '') ?tail = Some b"
    using eat_append [of "f @ [40, 34] @ z @ [34, 41] @ js '' < ''" b] by (simp add: time_call_def)
  moreover have "eat_number b = Some (b, [])" using eat_number_append [of b "[]"] b by simp
  ultimately have "range_pattern [] (time_call f z @ js '' >= '' @ a @ op @ ?tail) = Some (f, z, a, b)"
    using eat_time_call [OF assms(1-3)] eat_append [of "js '' >= ''"] eat_append [of "[]" "[]"]
    by (simp add: range_pattern_def at_end_def)
  then show ?thesis using assms(5,6) by (simp add: tryParseTimeCondition_def whole_range_def)
qed

lemma parse_scalar_text:
  assumes "f \<in> set TIME_FUNCS" "z \<noteq> []" "plain_text z" "op \<in> {js '' == '', js '' >= '', js '' < ''}" "isTimeValueInRange f v"
  shows "tryParseTimeCondition (time_call f z @ op @ v)
    = Some \<lparr>ti_timeFunc = f, ti_timezone = z,
        ti_mode = (if op = js '' == '' then MATCH_EQ else if op = js '' >= '' then MATCH_GTE else MATCH_LT),
        ti_value = v, ti_rangeStart = [], ti_rangeEnd = []\<rparr>"
proof -
  note v = range_value_chars [OF assms(5)]
  have num: "eat_number v = Some (v, [])" using eat_number_append [of v "[]"] v by simp
  have "range_pattern [] (time_call f z @ op @ v) = None"
    using assms(4) eat_time_call [OF assms(1-3)] num by (auto simp: range_pattern_def eat_def starts_with_def split: bind_splits)
  then have "whole_range (time_call f z @ op @ v) = None"
    using time_call_head [OF assms(1)] by (simp add: whole_range_def)
  moreover have "eat_one [js '' == '', js '' >= '', js '' < ''] (op @ v) = Some (op, v)"
    using assms(4) by (auto simp: eat_def starts_with_def)
  then have "scalar_pattern (time_call f z @ op @ v) = Some (f, z, op, v)"
    using eat_time_call [OF assms(1-3)] num by (simp add: scalar_pattern_def at_end_def)
  ultimately show ?thesis using assms(5) by (simp add: tryParseTimeCondition_def)
qed

lemma build_time_parse:
  assumes "row_ok n" "build_time n \<noteq> []"
  shows "tryParseTimeCondition (build_time n) = Some (stored n)"
proof (cases "ti_mode n = MATCH_RANGE")
  case True
  then show ?thesis
    using build_time_text(1,3) [OF assms] assms(1) parse_range_text by (fastforce simp: row_ok_def stored_def)
next
  case False
  let ?op = "if ti_mode n = MATCH_GTE then js '' >= '' else if ti_mode n = MATCH_LT then js '' < '' else js '' == ''"
  have "tryParseTimeCondition (time_call (ti_timeFunc n) (ti_timezone n) @ ?op @ trim (ti_value n)) = Some (stored n)"
    using assms(1) False build_time_text(4) [OF assms False]
    by (subst parse_scalar_text) (auto simp: row_ok_def stored_def match_defs)
  then show ?thesis using build_time_text(2) [OF assms False] by simp
qed

end
