(* ===== verification/Rule_Roundtrip.thy ===== *)
theory Rule_Roundtrip
  imports Rule_Props
begin

text \<open>
  Whole rule texts: a list of rules on the time of day, written by the editor as a product of factors, is
  read back rule by rule. The scan that splits at an operator passes over the inside of brackets; texts
  with that property are closed under concatenation, bracketing and quoting. Normalizing a row twice
  changes nothing, and its mode is always one the editor offers.
\<close>

section \<open>Normal rows\<close>

lemma mode_or_offered:
  "fallback \<in> mo_value ` set (getRequestRuleMatchOptions src) \<Longrightarrow>
     mode_or src mode fallback \<in> mo_value ` set (getRequestRuleMatchOptions src)"
  by (auto simp: mode_or_def list_ex_iff split: option.splits)

lemma mode_or_idem: "mode_or src (Some (mode_or src mode fallback)) fallback = mode_or src mode fallback"
  by (auto simp: mode_or_def split: option.splits)

lemma eq_offered: "MATCH_EQ \<in> mo_value ` set (getRequestRuleMatchOptions src)"
  by (cases src) (simp_all add: getRequestRuleMatchOptions_def match_option_def Let_def)

lemma gte_offered: "MATCH_GTE \<in> mo_value ` set (getRequestRuleMatchOptions Source_time)"
  by (simp add: getRequestRuleMatchOptions_def match_option_def)

lemma text_or_empty_Some [simp]: "text_or_empty (Some s) = s"
  by (simp add: text_or_empty_def)

lemma isTimeFunc_hour [simp]: "isTimeFunc (Some (js ''hour''))"
  by (simp add: isTimeFunc_def TIME_FUNCS_def)

lemma isTimeFunc_text: "isTimeFunc f \<Longrightarrow> isTimeFunc (Some (text_or_empty f))"
  by (auto simp: isTimeFunc_def split: option.splits)

lemma normalize_idem: "normalizeCondition (partial_of (normalizeCondition c)) = normalizeCondition c"
proof (cases "pc_source c")
  case None
  then show ?thesis by (simp add: normalizeCondition_def partial_of_def mode_or_idem)
next
  case (Some src)
  then show ?thesis
    by (cases src) (simp_all add: normalizeCondition_def partial_of_def mode_or_idem isTimeFunc_text)
qed

definition row_source :: "RequestCondition \<Rightarrow> source" where
  "row_source c = (case c of Time _ \<Rightarrow> Source_time | ParamHeader p \<Rightarrow> if ph_header p then Source_header else Source_param)"

definition row_mode :: "RequestCondition \<Rightarrow> jsstr" where
  "row_mode c = (case c of Time t \<Rightarrow> ti_mode t | ParamHeader p \<Rightarrow> ph_mode p)"

lemma normalize_offers:
  "row_mode (normalizeCondition c) \<in> mo_value ` set (getRequestRuleMatchOptions (row_source (normalizeCondition c)))"
  using mode_or_offered eq_offered gte_offered
  by (auto simp: row_mode_def row_source_def normalizeCondition_def split: option.splits source.splits)

text \<open>The normal form of a row on the time.\<close>

definition normal_time :: "TimeCondition \<Rightarrow> TimeCondition" where
  "normal_time t = (case normalizeCondition (partial_of (Time t)) of Time n \<Rightarrow> n | ParamHeader _ \<Rightarrow> t)"

lemma build_normal: "buildTimeConditionExpr t = build_time (normal_time t)"
  by (simp add: buildTimeConditionExpr_def normal_time_def normalizeCondition_def partial_of_def)

lemma plain_shanghai: "plain_text (js ''Asia/Shanghai'')"
  by (simp add: plain_text_def is_high_def is_low_def)

lemma normal_time_ok:
  assumes "plain_text (ti_timezone t)"
  shows "row_ok (normal_time t)"
proof -
  have "mode_or Source_time (Some (ti_mode t)) MATCH_GTE \<in> mo_value ` set (getRequestRuleMatchOptions Source_time)"
    by (rule mode_or_offered [OF gte_offered])
  then have "mode_or Source_time (Some (ti_mode t)) MATCH_GTE \<in> {MATCH_EQ, MATCH_GTE, MATCH_LT, MATCH_RANGE}"
    by (simp add: getRequestRuleMatchOptions_def match_option_def)
  moreover have "js ''hour'' \<in> set TIME_FUNCS" by (simp add: TIME_FUNCS_def)
  ultimately show ?thesis using assms plain_shanghai
    by (simp add: row_ok_def normal_time_def normalizeCondition_def partial_of_def isTimeFunc_def)
qed

section \<open>Texts that the scan passes over inside brackets\<close>

definition skipped :: "jsstr \<Rightarrow> bool" where
  "skipped s \<longleftrightarrow> (\<forall>op r cur d parts. 0 < d \<longrightarrow>
     split_loop op (s @ r) cur d None parts = split_loop op r (cur @ s) d None parts)"

lemma skipped_Nil [simp]: "skipped []"
  by (simp add: skipped_def)

lemma skipped_append: "skipped s \<Longrightarrow> skipped t \<Longrightarrow> skipped (s @ t)"
  by (simp add: skipped_def)

definition flat_char :: "code_unit \<Rightarrow> bool" where
  "flat_char c \<longleftrightarrow> c \<notin> {34, 39} \<union> set (js ''([{'') \<union> set (js '')]}'')"

lemma skipped_char: "flat_char c \<Longrightarrow> skipped [c]"
  by (simp add: skipped_def flat_char_def bracket_depth_def)

lemma skipped_flat: "list_all flat_char s \<Longrightarrow> skipped s"
proof (induction s)
  case (Cons c s)
  then show ?case using skipped_append [OF skipped_char, of c s] by simp
qed simp

lemma skipped_parens: "skipped s \<Longrightarrow> skipped (40 # s @ [41])"
  by (simp add: skipped_def bracket_depth_def)

lemma split_quoted:
  "plain_text z \<Longrightarrow> split_loop op (z @ 34 # r) cur d (Some 34) parts = split_loop op r (cur @ z @ [34]) d None parts"
proof (induction z arbitrary: cur)
  case (Cons c z)
  then show ?case by (simp add: plain_text_def)
qed simp

lemma skipped_quoted: "plain_text z \<Longrightarrow> skipped (34 # z @ [34])"
  by (simp add: skipped_def split_quoted)

lemma flat_time_func: "f \<in> set TIME_FUNCS \<Longrightarrow> list_all flat_char f"
  unfolding TIME_FUNCS_def list.set insert_iff empty_iff
  by (elim disjE; (hypsubst | erule FalseE); simp add: flat_char_def)

lemma skipped_time_call: "f \<in> set TIME_FUNCS \<Longrightarrow> plain_text z \<Longrightarrow> skipped (time_call f z)"
  using skipped_append [OF skipped_flat [OF flat_time_func] skipped_parens [OF skipped_quoted]]
  by (simp add: time_call_def)

lemma number_char_flat: "number_char c \<Longrightarrow> flat_char c"
  by (auto simp: number_char_def is_digit_def flat_char_def)

lemma skipped_number: "list_all number_char v \<Longrightarrow> skipped v"
  using number_char_flat by (intro skipped_flat) (auto simp: list_all_iff)

lemma skipped_build_time:
  assumes "row_ok n" "build_time n \<noteq> []"
  shows "skipped (build_time n)"
proof -
  have call: "skipped (time_call (ti_timeFunc n) (ti_timezone n))"
    using assms(1) by (intro skipped_time_call) (simp_all add: row_ok_def)
  have ops: "skipped (js '' >= '')" "skipped (js '' < '')" "skipped (js '' == '')" "skipped (js '' && '')" "skipped (js '' || '')"
    by (rule skipped_flat, simp add: flat_char_def)+
  show ?thesis
  proof (cases "ti_mode n = MATCH_RANGE")
    case True
    then obtain op where "op \<in> {js '' && '', js '' || ''}" and t: "build_time n =
      time_call (ti_timeFunc n) (ti_timezone n) @ js '' >= '' @ trim (ti_rangeStart n) @ op @
      time_call (ti_timeFunc n) (ti_timezone n) @ js '' < '' @ trim (ti_rangeEnd n)"
      using build_time_text(1) [OF assms] by blast
    then have "skipped op" using ops by blast
    moreover have "skipped (trim (ti_rangeStart n))" "skipped (trim (ti_rangeEnd n))"
      using build_time_text(3) [OF assms True] range_value_chars skipped_number by blast+
    ultimately show ?thesis unfolding t by (intro skipped_append call ops)
  next
    case False
    have "skipped (trim (ti_value n))"
      using build_time_text(4) [OF assms False] range_value_chars skipped_number by blast
    then show ?thesis unfolding build_time_text(2) [OF assms False] using ops
      by (intro skipped_append call) simp_all
  qed
qed

section \<open>Factors\<close>

lemma time_call_hd: "f \<in> set TIME_FUNCS \<Longrightarrow> \<not> is_space (hd (time_call f z @ s))"
  unfolding TIME_FUNCS_def list.set insert_iff empty_iff
  by (elim disjE; (hypsubst | erule FalseE); simp add: time_call_def is_space_def)

lemma number_last: "v \<noteq> [] \<Longrightarrow> list_all number_char v \<Longrightarrow> \<not> is_space (last (s @ v))"
  by (cases v rule: rev_cases) (auto simp: number_char_def is_digit_def is_space_def)

lemma trim_build_time:
  assumes "row_ok n" "build_time n \<noteq> []"
  shows "trim (build_time n) = build_time n"
proof (rule trim_id, intro disjI2 conjI)
  have f: "ti_timeFunc n \<in> set TIME_FUNCS" using assms(1) by (simp add: row_ok_def)
  show "\<not> is_space (hd (build_time n))"
    using build_time_text(1,2) [OF assms] time_call_hd [OF f] by (cases "ti_mode n = MATCH_RANGE") auto
  show "\<not> is_space (last (build_time n))"
  proof (cases "ti_mode n = MATCH_RANGE")
    case True
    then show ?thesis
      using build_time_text(1) [OF assms True] build_time_text(3) [OF assms True] range_value_chars number_last
      by (metis append_assoc)
  next
    case False
    then show ?thesis
      using build_time_text(2) [OF assms False] build_time_text(4) [OF assms False] range_value_chars number_last
      by (metis append_assoc)
  qed
qed

definition factor_text :: "jsstr \<Rightarrow> jsstr \<Rightarrow> jsstr" where
  "factor_text c m = js ''('' @ c @ js '' ? '' @ m @ js '' : 1)''"

lemma factor_pattern_text:
  assumes "c \<noteq> []" "m \<noteq> []" "list_all number_char m"
  shows "factor_pattern (factor_text c m) = Some (c, m)"
proof -
  let ?r = "rev (js '' ? '') @ rev c"
  have "eat (js ''('') (factor_text c m) = Some (c @ js '' ? '' @ m @ js '' : 1)'')"
    unfolding factor_text_def by (rule eat_append)
  moreover have "eat (rev (js '' : 1)'')) (rev (c @ js '' ? '' @ m @ js '' : 1)'')) = Some (rev m @ ?r)"
    using eat_append [of "rev (js '' : 1)'')" "rev m @ ?r"] by simp
  moreover have "eat_number (rev m @ ?r) = Some (rev m, ?r)"
    using assms(2,3) by (intro eat_number_append) (simp_all add: list_all_iff number_char_def is_digit_def)
  moreover have "eat (rev (js '' ? '')) ?r = Some (rev c)" by (rule eat_append)
  ultimately show ?thesis using assms(1) by (simp add: factor_pattern_def del: rev_append)
qed

text \<open>A text in brackets that the scan passes over.\<close>

definition is_factor :: "jsstr \<Rightarrow> bool" where
  "is_factor t \<longleftrightarrow> (\<exists>s. t = 40 # s @ [41] \<and> skipped s)"

lemma split_factor:
  assumes "is_factor t"
  shows "split_loop (js ''*'') (t @ r) cur 0 None parts = split_loop (js ''*'') r (cur @ t) 0 None parts"
proof -
  obtain s where s: "skipped s" and t: "t = 40 # s @ [41]" using assms by (auto simp: is_factor_def)
  have "split_loop (js ''*'') (40 # s @ 41 # r) cur 0 None parts
      = split_loop (js ''*'') (s @ 41 # r) (cur @ [40]) 1 None parts"
    by (simp add: bracket_depth_def)
  also have "\<dots> = split_loop (js ''*'') (41 # r) ((cur @ [40]) @ s) 1 None parts"
    using s unfolding skipped_def by (metis zero_less_one)
  also have "\<dots> = split_loop (js ''*'') r (((cur @ [40]) @ s) @ [41]) 0 None parts"
    by (simp add: bracket_depth_def starts_with_def)
  finally show ?thesis unfolding t by simp
qed

lemma factor_text_factor:
  assumes "skipped c" "list_all number_char m"
  shows "is_factor (factor_text c m)"
proof -
  let ?s = "c @ js '' ? '' @ m @ js '' : 1''"
  have "skipped (js '' ? '')" "skipped (js '' : 1'')" by (rule skipped_flat, simp add: flat_char_def)+
  then have "skipped ?s" using assms skipped_number by (intro skipped_append)
  moreover have "factor_text c m = 40 # ?s @ [41]" by (simp add: factor_text_def)
  ultimately show ?thesis unfolding is_factor_def by blast
qed

lemma factor_ends: "is_factor t \<Longrightarrow> t \<noteq> [] \<and> \<not> is_space (hd t) \<and> \<not> is_space (last t)"
  by (auto simp: is_factor_def is_space_def)

lemma trim_blanks: "s \<noteq> [] \<Longrightarrow> \<not> is_space (hd s) \<Longrightarrow> \<not> is_space (last s) \<Longrightarrow> list_all is_space u \<Longrightarrow> list_all is_space v \<Longrightarrow>
   trim (u @ s @ v) = s"
proof -
  assume s: "s \<noteq> []" "\<not> is_space (hd s)" "\<not> is_space (last s)" and uv: "list_all is_space u" "list_all is_space v"
  have "trim_start (u @ s @ v) = s @ v"
    using s uv(1) by (cases s) (auto simp: trim_start_def list_all_iff dropWhile_append)
  moreover have "trim_end (s @ v) = s"
    using s uv(2) by (cases s rule: rev_cases) (auto simp: trim_end_def list_all_iff dropWhile_append)
  ultimately show ?thesis by (simp add: trim_def)
qed

lemma split_factors:
  "t \<noteq> [] \<Longrightarrow> list_all is_factor t \<Longrightarrow> list_all is_space cur \<Longrightarrow>
   \<exists>raws. split_loop (js ''*'') (join (js '' * '') t) cur 0 None parts = Some (parts @ raws) \<and>
     filter (\<lambda>s. s \<noteq> []) (map trim raws) = t"
proof (induction "js '' * ''" t arbitrary: cur parts rule: join.induct)
  case (2 x)
  then have "trim (cur @ x) = x" using trim_blanks [of x cur "[]"] factor_ends [of x] by simp
  moreover have "split_loop (js ''*'') x cur 0 None parts = Some (parts @ [cur @ x])"
    using 2 split_factor [of x "[]"] by simp
  ultimately show ?case using factor_ends [of x] 2 by (intro exI [of _ "[cur @ x]"]) simp
next
  case (3 x y zs)
  let ?j = "join (js '' * '') (y # zs)"
  have space: "list_all is_space [32]" by (simp add: is_space_def)
  obtain raws where raws: "split_loop (js ''*'') ?j [32] 0 None (parts @ [cur @ x @ [32]]) = Some ((parts @ [cur @ x @ [32]]) @ raws)"
    "filter (\<lambda>s. s \<noteq> []) (map trim raws) = y # zs"
    using 3(1) [OF _ _ space, of "parts @ [cur @ x @ [32]]"] 3(3) by auto
  have "split_loop (js ''*'') (x @ js '' * '' @ ?j) cur 0 None parts = split_loop (js ''*'') (js '' * '' @ ?j) (cur @ x) 0 None parts"
    using 3(3) split_factor by simp
  also have "\<dots> = split_loop (js ''*'') ?j [32] 0 None (parts @ [cur @ x @ [32]])"
    by (simp add: bracket_depth_def starts_with_def)
  finally have "split_loop (js ''*'') (join (js '' * '') (x # y # zs)) cur 0 None parts = Some (parts @ ((cur @ x @ [32]) # raws))"
    using raws(1) by simp
  moreover have "trim (cur @ x @ [32]) = x" using trim_blanks [OF _ _ _ 3(4) space] factor_ends [of x] 3(3) by simp
  ultimately show ?case using raws(2) factor_ends [of x] 3(3) by (intro exI [of _ "(cur @ x @ [32]) # raws"]) simp
qed simp

lemma join_ends:
  "t \<noteq> [] \<Longrightarrow> list_all is_factor t \<Longrightarrow> join sep t \<noteq> [] \<and> \<not> is_space (hd (join sep t)) \<and> \<not> is_space (last (join sep t))"
proof (induction sep t rule: join.induct)
  case (2 sep x)
  then show ?case using factor_ends by simp
next
  case (3 sep x y zs)
  then show ?case using factor_ends [of x] by simp
qed simp

lemma split_rules:
  assumes "list_all is_factor t"
  shows "t \<noteq> [] \<Longrightarrow> splitExpressionAtTopLevel (trim (join (js '' * '') t)) (js ''*'') = t"
    "trim (join (js '' * '') t) = [] \<longleftrightarrow> t = []"
proof -
  show "trim (join (js '' * '') t) = [] \<longleftrightarrow> t = []"
    using trim_id join_ends [OF _ assms] by (cases "t = []") (simp_all add: trim_def trim_start_def trim_end_def)
  assume t: "t \<noteq> []"
  obtain raws where "split_loop (js ''*'') (join (js '' * '') t) [] 0 None [] = Some raws"
    "filter (\<lambda>s. s \<noteq> []) (map trim raws) = t"
    using split_factors [OF t assms, of "[]" "[]"] by auto
  then show "splitExpressionAtTopLevel (trim (join (js '' * '') t)) (js ''*'') = t"
    using trim_id join_ends [OF t assms] by (simp add: splitExpressionAtTopLevel_def)
qed

section \<open>Rules on the time of day\<close>

definition time_rule :: "RequestRuleGroup \<Rightarrow> bool" where
  "time_rule g \<longleftrightarrow> (case rg_conditions g of [Time t] \<Rightarrow> plain_text (ti_timezone t) | _ \<Rightarrow> False)"

text \<open>A rule as it is read back: normal rows, trimmed texts.\<close>

definition stored_rule :: "RequestRuleGroup \<Rightarrow> RequestRuleGroup" where
  "stored_rule g =
     plain_group (map (\<lambda>c. case c of Time t \<Rightarrow> Time (stored (normal_time t)) | ParamHeader _ \<Rightarrow> c) (rg_conditions g))
       (trim (rg_multiplier g))"

lemma time_rule_factor:
  assumes "time_rule g" "buildRuleGroupFactor g \<noteq> []"
  shows "is_factor (buildRuleGroupFactor g)"
    "tryParseRuleGroupFactor (buildRuleGroupFactor g) = Inr (Some (stored_rule g))"
proof -
  obtain t where g: "rg_conditions g = [Time t]" and z: "plain_text (ti_timezone t)"
    using assms(1) unfolding time_rule_def
    by (cases "rg_conditions g"; cases "hd (rg_conditions g)"; cases "tl (rg_conditions g)") auto
  let ?c = "build_time (normal_time t)" and ?m = "trim (rg_multiplier g)"
  have b: "buildRuleGroupFactor g = factor_text ?c ?m" "?c \<noteq> []" "NUMERIC_LITERAL ?m"
    using assms(2) by (auto simp: buildRuleGroupFactor_def g buildRequestConditionExpr_def build_normal factor_text_def
        Let_def split: if_splits)
  note ok = normal_time_ok [OF z]
  show "is_factor (buildRuleGroupFactor g)"
    unfolding b(1) by (rule factor_text_factor [OF skipped_build_time [OF ok b(2)] numeric_chars(2) [OF b(3)]])
  have "tryParseRequestConditions ?c = Inr (Some [Time (stored (normal_time t))])"
    using build_time_parse [OF ok b(2)] trim_build_time [OF ok b(2)] by (simp add: tryParseRequestConditions_def)
  then show "tryParseRuleGroupFactor (buildRuleGroupFactor g) = Inr (Some (stored_rule g))"
    using factor_pattern_text [OF b(2) numeric_chars [OF b(3)]] b(1)
    by (simp add: tryParseRuleGroupFactor_def stored_rule_def g plain_group_def)
qed

lemma parse_factors_all:
  "list_all (\<lambda>g. tryParseRuleGroupFactor (f g) = Inr (Some (h g))) gs \<Longrightarrow> parse_factors (map f gs) = Inr (Some (map h gs))"
  by (induction gs) auto

lemma time_rules_roundtrip:
  assumes "list_all time_rule gs"
  shows "tryParseRequestRuleExpr (buildRequestRuleExpr gs)
    = Inr (Some (map stored_rule (filter (\<lambda>g. buildRuleGroupFactor g \<noteq> []) gs)))"
proof -
  let ?gs = "filter (\<lambda>g. buildRuleGroupFactor g \<noteq> []) gs"
  let ?t = "map buildRuleGroupFactor ?gs"
  have t: "buildRequestRuleExpr gs = join (js '' * '') ?t"
    by (simp add: buildRequestRuleExpr_def filter_map o_def)
  have f: "list_all is_factor ?t" using assms time_rule_factor(1) by (auto simp: list_all_iff)
  have "parse_factors ?t = Inr (Some (map stored_rule ?gs))"
    using assms time_rule_factor(2) by (intro parse_factors_all) (auto simp: list_all_iff)
  then show ?thesis unfolding t tryParseRequestRuleExpr_def
    using split_rules [OF f] by (cases "?t = []") (simp_all del: filter_empty_conv)
qed

section \<open>Rules that are written and not read\<close>

text \<open>
  A row on a parameter with a comparison or a search is written as a conjunction with a check for
  presence. The parser splits the condition at the conjunction before it tries the patterns for such rows,
  so it reads neither, whereas the same search on a header is read.
\<close>

definition row_rule :: "bool \<Rightarrow> jsstr \<Rightarrow> jsstr \<Rightarrow> RequestRuleGroup" where
  "row_rule header mode v =
     plain_group [ParamHeader \<lparr>ph_header = header, ph_path = js ''x'', ph_mode = mode, ph_value = v\<rparr>] (js ''2'')"

lemma param_contains_not_read:
  "buildRequestRuleExpr [row_rule False MATCH_CONTAINS (js ''v'')]
     = js ''(param('' @ [34, 120, 34] @ js '') != nil && has(param('' @ [34, 120, 34] @ js ''), '' @ [34, 118, 34] @ js '') ? 2 : 1)''"
  "tryParseRequestRuleExpr (buildRequestRuleExpr [row_rule False MATCH_CONTAINS (js ''v'')]) = Inr None"
  by code_simp+

lemma param_greater_not_read:
  "tryParseRequestRuleExpr (buildRequestRuleExpr [row_rule False MATCH_GT (js ''5'')]) = Inr None"
  by code_simp

lemma header_contains_read:
  "tryParseRequestRuleExpr (buildRequestRuleExpr [row_rule True MATCH_CONTAINS (js ''v'')])
     = Inr (Some [row_rule True MATCH_CONTAINS (js ''v'')])"
  by code_simp

text \<open>A range that the text writes as a disjunction is read as the same row as the conjunction of its bounds.\<close>

lemma range_operator_lost:
  "tryParseTimeCondition (time_call (js ''hour'') (js ''UTC'') @ js '' >= 9 || '' @ time_call (js ''hour'') (js ''UTC'') @ js '' < 12'')
     = tryParseTimeCondition (time_call (js ''hour'') (js ''UTC'') @ js '' >= 9 && '' @ time_call (js ''hour'') (js ''UTC'') @ js '' < 12'')"
  by code_simp

end
