(* ===== verification/Rule_Gap.thy ===== *)
theory Rule_Gap
  imports Rule_Roundtrip
begin

text \<open>
  Rules that the editor writes and cannot read: a comparison on a request parameter is written as a
  conjunction with a check for presence, and the parser splits the condition at the conjunction before it
  tries the pattern for such rows.
\<close>

section \<open>Passing over text outside brackets\<close>

definition passed :: "jsstr \<Rightarrow> bool" where
  "passed s \<longleftrightarrow> (\<forall>r cur parts. split_loop (js ''&&'') (s @ r) cur 0 None parts = split_loop (js ''&&'') r (cur @ s) 0 None parts)"

lemma passed_append: "passed s \<Longrightarrow> passed t \<Longrightarrow> passed (s @ t)"
  by (simp add: passed_def)

lemma passed_char: "flat_char c \<Longrightarrow> c \<noteq> 63 \<Longrightarrow> c \<noteq> 38 \<Longrightarrow> passed [c]"
  by (simp add: passed_def flat_char_def bracket_depth_def starts_with_def)

lemma passed_flat: "list_all (\<lambda>c. flat_char c \<and> c \<noteq> 63 \<and> c \<noteq> 38) s \<Longrightarrow> passed s"
proof (induction s)
  case (Cons c s)
  then show ?case using passed_append [OF passed_char, of c s] by simp
qed (simp add: passed_def)

lemma passed_parens:
  assumes "skipped s"
  shows "passed (40 # s @ [41])"
  unfolding passed_def
proof (intro allI)
  fix r cur parts
  have "split_loop (js ''&&'') (s @ 41 # r) (cur @ [40]) 1 None parts = split_loop (js ''&&'') (41 # r) ((cur @ [40]) @ s) 1 None parts"
    using assms unfolding skipped_def by (metis zero_less_one)
  then show "split_loop (js ''&&'') ((40 # s @ [41]) @ r) cur 0 None parts = split_loop (js ''&&'') r (cur @ 40 # s @ [41]) 0 None parts"
    by (simp add: bracket_depth_def starts_with_def)
qed

section \<open>Comparisons on parameters\<close>

definition param_call :: "jsstr \<Rightarrow> jsstr" where
  "param_call p = js ''param('' @ [34] @ p @ [34] @ js '')''"

lemma param_call_parts: "param_call p = js ''param'' @ 40 # (34 # p @ [34]) @ [41]"
  by (simp add: param_call_def)

lemma passed_param: "plain_text p \<Longrightarrow> passed (param_call p)"
  unfolding param_call_parts
  by (intro passed_append passed_flat passed_parens skipped_quoted) (simp_all add: flat_char_def)

lemma skipped_param: "plain_text p \<Longrightarrow> skipped (param_call p)"
  unfolding param_call_parts
  by (intro skipped_append skipped_flat skipped_parens skipped_quoted) (simp_all add: flat_char_def)

lemma eat_param_call:
  assumes "p \<noteq> []" "plain_text p" "js ''param'' \<in> set names" "set names \<subseteq> {js ''param'', js ''header''}"
  shows "eat_call names (param_call p @ s) = Some (js ''param'', p, s)"
proof -
  have "eat_one names (js ''param'' @ 40 # t) = Some (js ''param'', 40 # t)" for t
    using assms(3,4) by (induction names) (auto simp: eat_def starts_with_def)
  moreover have "eat [40, 34] (40 # 34 # p @ 34 # 41 # s) = Some (p @ 34 # 41 # s)" using eat_append [of "[40, 34]"] by simp
  moreover have "eat_unquoted (p @ 34 # 41 # s) = Some (p, 34 # 41 # s)"
    using assms(1) plain_no_quote [OF assms(2)] by (intro eat_unquoted_append) simp_all
  moreover have "eat [34, 41] (34 # 41 # s) = Some s" using eat_append [of "[34, 41]"] by simp
  ultimately show ?thesis by (simp add: eat_call_def param_call_def)
qed

lemma param_not_time: "tryParseTimeCondition (param_call p @ s) = None"
proof -
  have "eat_one TIME_FUNCS (param_call p @ s) = None"
    by (simp add: TIME_FUNCS_def param_call_def eat_def starts_with_def)
  then have c: "eat_call TIME_FUNCS (param_call p @ s) = None" by (simp add: eat_call_def)
  moreover have "eat (js ''('') (param_call p @ s) = None" by (simp add: param_call_def eat_def starts_with_def)
  ultimately show ?thesis
    by (simp add: tryParseTimeCondition_def whole_range_def range_pattern_def scalar_pattern_def)
qed

lemma param_not_header: "eat_call [js ''header''] (param_call p @ s) = None" "eat (js ''has('') (param_call p @ s) = None"
  by (simp_all add: eat_call_def param_call_def eat_def starts_with_def)

lemma param_exists_read:
  assumes "p \<noteq> []" "plain_text p"
  shows "tryParseRequestCondition (param_call p @ js '' != nil'') = Inr (Some (ph_condition False p MATCH_EXISTS []))"
proof -
  have "eat_call [js ''param''] (param_call p @ js '' != nil'') = Some (js ''param'', p, js '' != nil'')"
    using assms by (intro eat_param_call) simp_all
  then have "exists_pattern (js ''param'') (js '' != nil'') (param_call p @ js '' != nil'') = Some p"
    using eat_append [of "js '' != nil''" "[]"] by (simp add: exists_pattern_def at_end_def)
  moreover have "exists_pattern (js ''header'') e (param_call p @ js '' != nil'') = None" for e
    unfolding exists_pattern_def param_not_header(1) by simp
  ultimately show ?thesis by (simp add: tryParseRequestCondition_def param_not_time)
qed

lemma param_compare_alone:
  assumes "p \<noteq> []" "plain_text p" "op \<in> {js '' > '', js '' >= '', js '' < '', js '' <= ''}"
  shows "tryParseRequestCondition (param_call p @ op @ v) = Inr None"
proof -
  have c: "eat_call [js ''param''] (param_call p @ op @ v) = Some (js ''param'', p, op @ v)"
    "eat_call [js ''param'', js ''header''] (param_call p @ op @ v) = Some (js ''param'', p, op @ v)"
    using assms(1,2) by (intro eat_param_call; simp)+
  have e: "eat (js '' != nil'') (op @ v) = None" "eat (js '' != nil && has('') (op @ v) = None" "eat (js '' != nil && '') (op @ v) = None"
    "eat (js '' == '') (op @ v) = None"
    using assms(3) by (auto simp: eat_def starts_with_def)
  show ?thesis
    unfolding tryParseRequestCondition_def param_not_time exists_pattern_def param_not_header header_contains_def
      param_contains_def param_compare_def equals_pattern_def c
    by (simp only: Option.bind.simps prod.case option.case e)
qed

lemma split_conjunction:
  assumes "passed a" "passed b"
  shows "splitExpressionAtTopLevel (a @ js '' && '' @ b) (js ''&&'') = filter (\<lambda>s. s \<noteq> []) [trim (a @ [32]), trim (32 # b)]"
proof -
  have "split_loop (js ''&&'') (a @ js '' && '' @ b) [] 0 None [] = split_loop (js ''&&'') (js '' && '' @ b) a 0 None []"
    using assms(1) unfolding passed_def by (metis append_Nil)
  also have "\<dots> = split_loop (js ''&&'') (b @ []) [32] 0 None [a @ [32]]"
    by (simp add: bracket_depth_def starts_with_def)
  also have "\<dots> = split_loop (js ''&&'') [] ([32] @ b) 0 None [a @ [32]]" using assms(2) unfolding passed_def by blast
  finally show ?thesis by (simp add: splitExpressionAtTopLevel_def)
qed

text \<open>A rule with one comparison on a parameter, as the editor holds it.\<close>

definition compare_rule :: "jsstr \<Rightarrow> jsstr \<Rightarrow> jsstr \<Rightarrow> jsstr \<Rightarrow> RequestRuleGroup" where
  "compare_rule p mode v m = plain_group [ParamHeader \<lparr>ph_header = False, ph_path = p, ph_mode = mode, ph_value = v\<rparr>] m"

definition compare_modes :: "jsstr list" where
  "compare_modes = [MATCH_GT, MATCH_GTE, MATCH_LT, MATCH_LTE]"

lemma compare_mode_text:
  assumes "mode \<in> set compare_modes"
  shows "\<exists>op. compare_operator mode = Some op \<and> js '' '' @ op @ js '' '' \<in> {js '' > '', js '' >= '', js '' < '', js '' <= ''}"
    "mode_or Source_param (Some mode) MATCH_EQ = mode" "mode \<notin> {MATCH_EXISTS, MATCH_CONTAINS}"
  using assms by (auto simp: compare_modes_def compare_operator_def match_defs mode_or_def getRequestRuleMatchOptions_def
      match_option_def Let_def)

lemma compare_rule_text:
  assumes "trim p = p" "p \<noteq> []" "plain_text p" "mode \<in> set compare_modes" "NUMERIC_LITERAL (trim v)" "NUMERIC_LITERAL (trim m)"
  shows "\<exists>op \<in> {js '' > '', js '' >= '', js '' < '', js '' <= ''}. buildRuleGroupFactor (compare_rule p mode v m)
    = factor_text ((param_call p @ js '' != nil'') @ js '' && '' @ param_call p @ op @ trim v) (trim m)"
proof -
  obtain op where op: "compare_operator mode = Some op" "js '' '' @ op @ js '' '' \<in> {js '' > '', js '' >= '', js '' < '', js '' <= ''}"
    using compare_mode_text(1) [OF assms(4)] by blast
  let ?n = "\<lparr>ph_header = False, ph_path = p, ph_mode = mode, ph_value = v\<rparr>"
  have src: "js ''param('' @ json_string p @ js '')'' = param_call p"
    using assms(3) by (simp add: json_string_def json_body_plain param_call_def)
  have "build_param_header ?n = param_call p @ js '' != nil && '' @ param_call p @ js '' '' @ op @ js '' '' @ trim v"
    using assms(1,2,5) op(1) compare_mode_text(3) [OF assms(4)] src by (simp add: build_param_header_def Let_def)
  moreover have "normalizeCondition (partial_of (ParamHeader ?n)) = ParamHeader ?n"
    using compare_mode_text(2) [OF assms(4)] by (simp add: normalizeCondition_def partial_of_def)
  ultimately have "buildRuleGroupFactor (compare_rule p mode v m)
      = factor_text ((param_call p @ js '' != nil'') @ js '' && '' @ param_call p @ (js '' '' @ op @ js '' '') @ trim v) (trim m)"
    using assms(6) by (simp add: buildRuleGroupFactor_def compare_rule_def plain_group_def buildRequestConditionExpr_def
        factor_text_def param_call_def)
  then show ?thesis using op(2) by blast
qed

lemma compare_condition_not_read:
  assumes "p \<noteq> []" "plain_text p" "op \<in> {js '' > '', js '' >= '', js '' < '', js '' <= ''}" "NUMERIC_LITERAL v"
  shows "tryParseRequestConditions ((param_call p @ js '' != nil'') @ js '' && '' @ param_call p @ op @ v) = Inr None"
proof -
  let ?a = "param_call p @ js '' != nil''" and ?b = "param_call p @ op @ v"
  note v = numeric_chars [OF assms(4)]
  have ends: "?a \<noteq> []" "\<not> is_space (hd ?a)" "\<not> is_space (last ?a)" "?b \<noteq> []" "\<not> is_space (hd ?b)" "\<not> is_space (last ?b)"
    using number_last [OF v, of "param_call p @ op"] by (simp_all add: param_call_def is_space_def)
  have blank: "list_all is_space [32]" by (simp add: is_space_def)
  have parts: "trim (?a @ [32]) = ?a" "trim (32 # ?b) = ?b" "trim ?a = ?a" "trim ?b = ?b"
    using trim_blanks [OF ends(1-3) _ blank, of "[]"] trim_blanks [OF ends(4-6) blank, of "[]"]
      trim_blanks [OF ends(1-3), of "[]" "[]"] trim_blanks [OF ends(4-6), of "[]" "[]"] by simp_all
  have pa: "passed (js '' != nil'')" "passed op" using assms(3) by (auto intro!: passed_flat simp: flat_char_def)
  have "passed v" using v(2) by (intro passed_flat) (auto simp: list_all_iff number_char_def is_digit_def flat_char_def)
  then have sp: "splitExpressionAtTopLevel (?a @ js '' && '' @ ?b) (js ''&&'') = [?a, ?b]"
    using split_conjunction [of ?a ?b] parts ends passed_param [OF assms(2)] pa by (simp add: passed_append)
  have "trim (?a @ js '' && '' @ ?b) = ?a @ js '' && '' @ ?b"
    using ends by (intro trim_id) (simp add: param_call_def)
  then have "tryParseTimeCondition (trim (?a @ js '' && '' @ ?b)) = None"
    using param_not_time [of p "js '' != nil'' @ js '' && '' @ ?b"] by simp
  moreover have "tryParseTimeRangePair ?a ?b = None" by (simp add: tryParseTimeRangePair_def param_not_time del: append_assoc)
  then have "parse_parts [?a, ?b] = Inr None"
    using parts param_exists_read [OF assms(1,2)] param_compare_alone [OF assms(1-3)] ends(4)
    by (simp del: append_assoc)
  ultimately show ?thesis unfolding tryParseRequestConditions_def sp by simp
qed

lemma compare_rule_not_read:
  assumes "trim p = p" "p \<noteq> []" "plain_text p" "mode \<in> set compare_modes" "NUMERIC_LITERAL (trim v)" "NUMERIC_LITERAL (trim m)"
  shows "buildRequestRuleExpr [compare_rule p mode v m] \<noteq> []"
    "tryParseRequestRuleExpr (buildRequestRuleExpr [compare_rule p mode v m]) = Inr None"
proof -
  obtain op where op: "op \<in> {js '' > '', js '' >= '', js '' < '', js '' <= ''}" and t: "buildRuleGroupFactor (compare_rule p mode v m)
      = factor_text ((param_call p @ js '' != nil'') @ js '' && '' @ param_call p @ op @ trim v) (trim m)"
    using compare_rule_text [OF assms] by blast
  let ?c = "(param_call p @ js '' != nil'') @ js '' && '' @ param_call p @ op @ trim v"
  have "skipped (js '' != nil'')" "skipped (js '' && '')" "skipped op"
    using op by (auto intro!: skipped_flat simp: flat_char_def)
  then have "skipped ?c" using skipped_param [OF assms(3)] skipped_number [OF numeric_chars(2) [OF assms(5)]]
    by (intro skipped_append)
  then have f: "is_factor (factor_text ?c (trim m))" using numeric_chars(2) [OF assms(6)] by (rule factor_text_factor)
  have b: "buildRequestRuleExpr [compare_rule p mode v m] = factor_text ?c (trim m)"
    using t factor_ends [OF f] by (simp add: buildRequestRuleExpr_def)
  then show "buildRequestRuleExpr [compare_rule p mode v m] \<noteq> []" using factor_ends [OF f] by simp
  have "tryParseRuleGroupFactor (factor_text ?c (trim m)) = Inr None"
    using factor_pattern_text [OF _ numeric_chars [OF assms(6)], of ?c] compare_condition_not_read [OF assms(2,3) op assms(5)]
    by (simp add: tryParseRuleGroupFactor_def param_call_def)
  then show "tryParseRequestRuleExpr (buildRequestRuleExpr [compare_rule p mode v m]) = Inr None"
    unfolding b tryParseRequestRuleExpr_def using split_rules [of "[factor_text ?c (trim m)]"] f by simp
qed

end
