(* ===== verification/Runtime_Sound.thy ===== *)
theory Runtime_Sound
  imports Runtime_Props Compile_Errors
begin

text \<open>
  Safety of evaluation. A compiled expression never fails with an error of the host; its value depends
  on the dependencies that compilation declares, and on nothing else of the context; a validated
  fixed-price expression reports the amount of the tier it chose.
\<close>

section \<open>Evaluation fails with diagnostics only\<close>

definition billing_exn :: "exn \<Rightarrow> bool" where
  "billing_exn e \<longleftrightarrow> (\<exists>d. e = BillingExpressionError d)"

lemma billing_exn_simps [simp]: "billing_exn (BillingExpressionError d)" "\<not> billing_exn (HostError m)"
  by (simp_all add: billing_exn_def)

lemma path_parts_error: "errs billing_exn (path_parts path rest part parts)"
  by (induction path rest part parts rule: path_parts.induct) (auto split: list.splits)

lemma walk_path_error: "errs billing_exn (walk_path path parts v)"
  by (induction path parts v rule: walk_path.induct) (auto simp: Let_def split: option.splits)

lemma readRequestPath_error: "errs billing_exn (readRequestPath body path)"
  unfolding readRequestPath_def by (intro errs_intros path_parts_error walk_path_error) simp

lemma number_text_error: "errs billing_exn (number_text x)"
  by (auto simp: number_text_def split: jsnum.splits prod.splits)

lemma billingString_error: "errs billing_exn (billingString v depth)"
proof (induction v depth rule: billingString.induct)
  case (1 v depth)
  show ?case
  proof (cases "128 < depth")
    case True
    then show ?thesis by (simp add: billingString.simps [of v depth])
  next
    case False
    show ?thesis
    proof (cases v)
      case (JArr xs)
      show ?thesis using False 1(1) [OF False JArr] unfolding JArr
        by (subst billingString.simps) (auto intro!: errs_bind errs_mapR)
    next
      case (JObj es)
      show ?thesis using False 1(2) [OF False JObj _ refl] unfolding JObj
        by (subst billingString.simps) (auto intro!: errs_bind errs_mapR)
    qed (use False in \<open>(subst billingString.simps, simp add: number_text_error)+\<close>)
  qed
qed

lemma timeInBillingZone_error: "errs billing_exn (timeInBillingZone H now zone)"
  unfolding timeInBillingZone_def by (intro errs_intros) simp_all

lemma zone_time_error: "errs billing_exn (zone_time H zone st)"
  unfolding zone_time_def by (intro errs_intros timeInBillingZone_error) simp_all

lemma errs_jsval:
  "errs P x \<Longrightarrow> errs P y \<Longrightarrow> (\<And>b. errs P (fb b)) \<Longrightarrow> (\<And>n. errs P (fn n)) \<Longrightarrow> (\<And>s. errs P (fs s)) \<Longrightarrow>
     (\<And>a. errs P (fa a)) \<Longrightarrow> (\<And>es. errs P (fo es)) \<Longrightarrow>
     errs P (case v of JUndef \<Rightarrow> x | JNull \<Rightarrow> y | JBool b \<Rightarrow> fb b | JNum n \<Rightarrow> fn n | JStr s \<Rightarrow> fs s
                | JArr a \<Rightarrow> fa a | JObj es \<Rightarrow> fo es)"
  by (cases v) simp_all

lemma variable_value_error: "errs billing_exn (variable_value X name pos)"
  unfolding variable_value_def missing_def by (intro errs_intros errs_jsval) simp_all

lemma arithmetic_error: "errs billing_exn (arithmetic f a b i pos)"
  by (simp add: arithmetic_def)

lemma binary_values_error: "errs billing_exn (binary_values f l r pos)"
  unfolding binary_values_def
  by (auto simp: Let_def arithmetic_error intro!: errs_if errs_option errs_prod errs_jsval split: bool.splits)

lemma errs_typed:
  assumes "\<And>s. errs billing_exn (ev n s)"
  shows "errs billing_exn (boolean_of ev n st)" "errs billing_exn (numeric_of ev n st)"
    "errs billing_exn (string_of ev n st)"
  unfolding boolean_of_def numeric_of_def string_of_def
  by (intro errs_bind errs_prod errs_jsval assms; simp)+

lemma errs_args:
  assumes "\<And>a s. a \<in> set args \<Longrightarrow> errs billing_exn (ev a s)" "i < length args"
  shows "errs billing_exn (numeric_arg ev args i st)" "errs billing_exn (string_arg ev args i st)"
    "errs billing_exn (with_arg args i ev st)"
proof -
  have "errs billing_exn (ev (args ! i) s)" for s using assms by simp
  then show "errs billing_exn (numeric_arg ev args i st)" "errs billing_exn (string_arg ev args i st)"
    "errs billing_exn (with_arg args i ev st)"
    using assms(2) errs_typed [of ev "args ! i"]
    by (auto simp: numeric_arg_def string_arg_def with_arg_def arg_at_def intro!: errs_bind)
qed

lemma call_error:
  assumes ev: "\<And>a s. a \<in> set args \<Longrightarrow> errs billing_exn (ev a s)"
    and arity: "map_of BILLING_FUNCTIONS name = Some (length args)"
  shows "errs billing_exn (call_of H X ev name args pos st)"
proof -
  have len: "0 < length args" "name \<in> {js ''tier'', js ''has'', js ''min'', js ''max''} \<Longrightarrow> 1 < length args"
    using arity_cases [OF arity] by auto
  note a0 = errs_args [OF ev len(1)] and a1 = errs_args [OF ev len(2)]
  have known: "name \<notin> {js ''param'', js ''header'', js ''u''} \<Longrightarrow>
      name \<in> {js ''param'', js ''header'', js ''u'', js ''has''} \<Longrightarrow> name \<in> {js ''tier'', js ''has'', js ''min'', js ''max''}"
    "name = js ''min'' \<or> name = js ''max'' \<Longrightarrow> name \<in> {js ''tier'', js ''has'', js ''min'', js ''max''}"
    "name = js ''tier'' \<Longrightarrow> name \<in> {js ''tier'', js ''has'', js ''min'', js ''max''}"
    by auto
  have "errs billing_exn (request_function H X ev name args pos st)"
    if "name \<in> {js ''param'', js ''header'', js ''u'', js ''has''}"
    unfolding request_function_def missing_def
    by (intro errs_intros a0 a1 readRequestPath_error billingString_error)
      (use that known in simp_all)
  moreover have "errs billing_exn (math_function ev name args st)"
    unfolding math_function_def by (intro errs_intros a0 a1 known(2)) simp_all
  ultimately show ?thesis unfolding call_of_def
    by (intro errs_intros a0 a1 zone_time_error) (use known in simp_all)
qed

lemma evaluateNode_error:
  assumes ev: "\<And>c s. c \<in> set (children n) \<Longrightarrow> errs billing_exn (ev c s)" and "wf_node n"
  shows "errs billing_exn (evaluateNode H rules X ev n st)"
proof (cases n)
  case (Call f args a b)
  then show ?thesis using ev assms(2) call_error [of args ev f] by (simp add: evaluateNode_def)
next
  case (Binary f l r a b)
  have "errs billing_exn (binary_of ev f l r a st)"
    unfolding binary_of_def using ev Binary by (intro errs_intros errs_typed binary_values_error) simp_all
  then show ?thesis using Binary by (simp add: evaluateNode_def)
qed (use ev in \<open>auto simp: evaluateNode_def Let_def intro!: errs_bind errs_typed variable_value_error\<close>)

lemma evaluate_error: "wf_ast n \<Longrightarrow> errs billing_exn (evaluate H rules X d n st)"
proof (induction n arbitrary: d st rule: node_count.induct)
  case (1 n)
  have "errs billing_exn (evaluateNode H rules X (evaluate H rules X (d + 1)) n st)"
    using 1 by (intro evaluateNode_error) (auto simp: wf_ast_iff [of n])
  then show ?case
    by (subst evaluate.simps) (auto simp: check_result_def intro!: errs_bind errs_jsval)
qed

section \<open>The declared dependencies are all the dependencies\<close>

definition agree_on :: "jsstr set \<Rightarrow> jsstr set \<Rightarrow> BillingSimulationContext \<Rightarrow> BillingSimulationContext \<Rightarrow> bool" where
  "agree_on vars funs X Y \<longleftrightarrow>
     (js ''image_count'' \<in> vars \<longrightarrow> cx_imageCount X = cx_imageCount Y) \<and>
     (\<forall>x \<in> vars - {js ''image_count''}. context_token X x = context_token Y x) \<and>
     (js ''param'' \<in> funs \<or> js ''header'' \<in> funs \<longrightarrow> cx_request X = cx_request Y) \<and>
     (js ''u'' \<in> funs \<longrightarrow> cx_usage X = cx_usage Y)"

lemma agree_on_mono: "agree_on V F X Y \<Longrightarrow> V' \<subseteq> V \<Longrightarrow> F' \<subseteq> F \<Longrightarrow> agree_on V' F' X Y"
  unfolding agree_on_def by blast

lemma variable_value_agree: "agree_on {x} {} X Y \<Longrightarrow> variable_value X x pos = variable_value Y x pos"
  by (cases "x = js ''image_count''") (simp_all add: variable_value_def agree_on_def)

lemma call_of_agree:
  assumes "agree_on {} {f} X Y"
  shows "call_of H X ev f args pos st = call_of H Y ev f args pos st"
proof -
  have r: "f = js ''param'' \<or> f = js ''header'' \<Longrightarrow> cx_request X = cx_request Y"
    and u: "f = js ''u'' \<Longrightarrow> cx_usage X = cx_usage Y"
    using assms by (auto simp: agree_on_def)
  have "request_function H X ev f args pos st = request_function H Y ev f args pos st"
    unfolding request_function_def by (intro if_cong refl) (simp_all add: r u)
  then show ?thesis by (simp add: call_of_def)
qed

lemma evaluateNode_agree:
  "agree_on (set (variable_names n)) (set (function_names n)) X Y \<Longrightarrow>
     evaluateNode H rules X ev n st = evaluateNode H rules Y ev n st"
  by (cases n) (simp_all add: evaluateNode_def variable_value_agree call_of_agree agree_on_mono [of _ _ X Y])

lemma evaluate_agree:
  "agree_on (names_in variable_names n) (names_in function_names n) X Y \<Longrightarrow>
     evaluate H rules X d n st = evaluate H rules Y d n st"
proof (induction n arbitrary: d st rule: node_count.induct)
  case (1 n)
  have sub: "names_in f c \<subseteq> names_in f n" "set (f n) \<subseteq> names_in f n" if "c \<in> set (children n)" for f c
    using that by (auto simp: names_in_def set_postorder [of n])
  have top: "set (f n) \<subseteq> names_in f n" for f by (force simp: names_in_def)
  have IH: "evaluate H rules X (d + 1) c s = evaluate H rules Y (d + 1) c s" if "c \<in> set (children n)" for c s
    using "1.IH" [OF that] agree_on_mono [OF "1.prems" sub(1) [OF that] sub(1) [OF that]] by simp
  have "evaluateNode H rules X (evaluate H rules X (d + 1)) n st
      = evaluateNode H rules X (evaluate H rules Y (d + 1)) n st"
    by (rule evaluateNode_cong) (simp_all add: IH [simplified])
  also have "\<dots> = evaluateNode H rules Y (evaluate H rules Y (d + 1)) n st"
    by (rule evaluateNode_agree) (rule agree_on_mono [OF "1.prems" top top])
  finally show ?case by (simp add: evaluate.simps [of H rules X d n st] evaluate.simps [of H rules Y d n st])
qed

section \<open>Fixed prices\<close>

lemma typed_iff:
  "boolean_of ev n st = Inr (b, st') \<longleftrightarrow> (\<exists>r. ev n st = Inr (r, st') \<and> rv_value r = JBool b)"
  "numeric_of ev n st = Inr ((x, i), st') \<longleftrightarrow>
     (\<exists>r. ev n st = Inr (r, st') \<and> rv_value r = JNum x \<and> rv_integer r = i)"
  "string_of ev n st = Inr (s, st') \<longleftrightarrow> (\<exists>r. ev n st = Inr (r, st') \<and> rv_value r = JStr s)"
  by (cases "ev n st"; auto simp: boolean_of_def numeric_of_def string_of_def split: jsval.splits)+

lemma arg_iff:
  "numeric_arg ev args i st = Inr (x, st') \<longleftrightarrow>
     (\<exists>a r. arg_at args i = Some a \<and> ev a st = Inr (r, st') \<and> rv_value r = JNum x)"
  "string_arg ev args i st = Inr (s, st') \<longleftrightarrow>
     (\<exists>a r. arg_at args i = Some a \<and> ev a st = Inr (r, st') \<and> rv_value r = JStr s)"
  by (auto simp: numeric_arg_def string_arg_def with_arg_def bindR_eq_Inr typed_iff split: option.splits)

definition priced :: "ExpressionNode \<Rightarrow> rt \<Rightarrow> bool" where
  "priced n st \<longleftrightarrow>
     (rt_unit st = Unit_token \<and> rt_fixed st = None) \<or>
     (rt_unit st = Unit_request \<and> (\<exists>p \<in> set (postorder n). \<exists>amount. fixed_amount p amount \<and> rt_fixed st = Some amount))"

lemma rule_site_quiet:
  "rule_site src n = Inr (Some r) \<Longrightarrow> \<not> has_marker (site_condition r) \<Longrightarrow> site_node r = n \<and> \<not> has_marker n"
  by (drule rule_site_shape)
    (auto simp: has_marker_def names_in_def set_postorder [of "Conditional c y m s e" for c y m s e]
      set_postorder [of "Literal v i s e" for v i s e])

lemma multiplier_quiet:
  assumes "multiplier_node rules f" "\<forall>r \<in> set rules. \<exists>src n. rule_site src n = Inr (Some r)"
  shows "\<not> has_marker f"
proof (cases "is_image_count f")
  case True
  then show ?thesis
    by (cases f) (auto simp: is_image_count_def has_marker_def names_in_def
        set_postorder [of "Variable x a b" for x a b])
next
  case False
  then obtain r where r: "find (\<lambda>r. site_node r = f) rules = Some r" "\<not> has_marker (site_condition r)"
    using assms(1) by (auto simp: multiplier_node_def)
  then have "r \<in> set rules" "site_node r = f" by (auto simp: find_Some_iff)
  then show ?thesis using assms(2) r(2) rule_site_quiet by metis
qed

lemma evaluate_step:
  assumes "evaluate H rules X d n st = Inr (v, st')"
  shows "evaluateNode H rules X (evaluate H rules X (d + 1)) n st = Inr (v, st')" "d < 256"
  using assms by (subst (asm) evaluate.simps, auto simp: bindR_eq_Inr dest: check_result_same split: if_splits)+

lemma priced_same: "same_price st st' \<Longrightarrow> priced n st \<Longrightarrow> priced n st'"
  by (auto simp: same_price_def priced_def)

lemma priced_sub: "priced c st \<Longrightarrow> c \<in> set (children n) \<Longrightarrow> priced n st"
  by (auto simp: priced_def set_postorder [of n])

lemma binary_times_states:
  assumes "evaluate H rules X d (Binary (js ''*'') l r s e) st = Inr (v, st')"
  obtains a st1 b where "evaluate H rules X (d + 1) l st = Inr (a, st1)" "evaluate H rules X (d + 1) r st1 = Inr (b, st')"
  using evaluate_step(1) [OF assms] that
  by (auto simp: evaluateNode_def binary_of_def bindR_eq_Inr elim!: bindR_pairE)

lemma tier_states:
  assumes "evaluate H rules X d (Call (js ''tier'') [name, price] s e) st = Inr (v, st')"
  obtains a st1 b st2 where "evaluate H rules X (d + 1) name st = Inr (a, st1)"
    "evaluate H rules X (d + 1) price st1 = Inr (b, st2)" "rt_unit st' = rt_unit st2" "rt_fixed st' = rt_fixed st2"
  using evaluate_step(1) [OF assms] that
  by (auto simp: evaluateNode_def call_of_def arg_iff arg_at_def bindR_eq_Inr)

lemma fixed_states:
  assumes "evaluate H rules X d p st = Inr (v, st')" "fixed_amount p amount"
  shows "rt_unit st' = Unit_request \<and> rt_fixed st' = Some amount"
proof -
  obtain i a b s e where p: "p = Call (js ''fixed'') [Literal (LNum amount) i a b] s e"
    using assms(2) by (auto simp: fixed_amount_def)
  obtain r st1 where r: "evaluate H rules X (d + 1) (Literal (LNum amount) i a b) st = Inr (r, st1)"
    "rv_value r = JNum amount \<Longrightarrow> rt_unit st' = Unit_request \<and> rt_fixed st' = Some amount"
    using evaluate_step(1) [OF assms(1)] unfolding p
    by (auto simp: evaluateNode_def call_of_def arg_iff arg_at_def bindR_eq_Inr)
  then show ?thesis using evaluate_step(1) [OF r(1)] by (auto simp: evaluateNode_def)
qed

lemma conditional_states:
  assumes "evaluate H rules X d (Conditional c y n s e) st = Inr (v, st')"
  obtains a st1 st2 where "evaluate H rules X (d + 1) c st = Inr (a, st1)" "same_price st1 st2"
    "evaluate H rules X (d + 1) y st2 = Inr (v, st') \<or> evaluate H rules X (d + 1) n st2 = Inr (v, st')"
proof -
  let ?n = "Conditional c y n s e"
  obtain b st1 where b: "boolean_of (evaluate H rules X (d + 1)) c st = Inr (b, st1)"
    and r: "evaluate H rules X (d + 1) (if b then y else n) (mark_rule rules ?n b st1) = Inr (v, st')"
    using evaluate_step(1) [OF assms] by (auto simp: evaluateNode_def Let_def elim!: bindR_pairE)
  obtain a where "evaluate H rules X (d + 1) c st = Inr (a, st1)"
    using b by (auto simp: typed_iff)
  moreover have "same_price st1 (mark_rule rules ?n b st1)"
    by (auto simp: same_price_def mark_rule_def split: option.splits)
  ultimately show ?thesis using that r by (auto split: if_splits)
qed

lemma fixed_tree_priced:
  assumes "fixed_tree rules n" "\<forall>r \<in> set rules. \<exists>src n. rule_site src n = Inr (Some r)"
  shows "evaluate H rules X d n st = Inr (v, st') \<Longrightarrow> rt_unit st = Unit_token \<Longrightarrow> rt_fixed st = None \<Longrightarrow> priced n st'"
  using assms
proof (induction n arbitrary: d st v st' rule: fixed_tree.induct)
  case (ft_choice c y n s e)
  from ft_choice.prems(1) obtain a st1 st2 where st: "evaluate H rules X (d + 1) c st = Inr (a, st1)" "same_price st1 st2"
    "evaluate H rules X (d + 1) y st2 = Inr (v, st') \<or> evaluate H rules X (d + 1) n st2 = Inr (v, st')"
    by (rule conditional_states)
  have "rt_unit st2 = Unit_token" "rt_fixed st2 = None"
    using quiet_evaluate [OF ft_choice.hyps(1) st(1)] st(2) ft_choice.prems by (auto simp: same_price_def)
  then have "priced y st' \<or> priced n st'" using st(3) ft_choice by blast
  then show ?case using priced_sub [of _ st' "Conditional c y n s e"] by auto
next
  case (ft_scaled r l s e)
  from ft_scaled.prems(1) obtain a st1 b where st: "evaluate H rules X (d + 1) l st = Inr (a, st1)"
    "evaluate H rules X (d + 1) r st1 = Inr (b, st')" by (rule binary_times_states)
  have "priced l st1" using ft_scaled st(1) by blast
  moreover have "same_price st1 st'"
    using multiplier_quiet [OF ft_scaled.hyps(1) ft_scaled.prems(4)] st(2) by (rule quiet_evaluate)
  ultimately show ?case using priced_same priced_sub [of l st' "Binary (js ''*'') l r s e"] by simp
next
  case (ft_scales r l s e)
  from ft_scales.prems(1) obtain a st1 b where st: "evaluate H rules X (d + 1) l st = Inr (a, st1)"
    "evaluate H rules X (d + 1) r st1 = Inr (b, st')" by (rule binary_times_states)
  have "same_price st st1"
    using multiplier_quiet [OF ft_scales.hyps(2) ft_scales.prems(4)] st(1) by (rule quiet_evaluate)
  then have "priced r st'" using ft_scales st(2) by (auto simp: same_price_def)
  then show ?case using priced_sub [of r st' "Binary (js ''*'') l r s e"] by simp
next
  case (ft_fixed name price amount s e)
  from ft_fixed.prems(1) obtain a st1 b st2 where st: "evaluate H rules X (d + 1) price st1 = Inr (b, st2)"
    "rt_unit st' = rt_unit st2" "rt_fixed st' = rt_fixed st2" by (rule tier_states)
  have "price \<in> set (postorder (Call (js ''tier'') [name, price] s e))"
    by (simp add: set_postorder [of "Call f [name, price] s e" for f])
  then show ?case using fixed_states [OF st(1) ft_fixed.hyps(2)] st ft_fixed.hyps(2) by (auto simp: priced_def)
next
  case (ft_tier name price s e)
  from ft_tier.prems(1) obtain a st1 b st2 where st: "evaluate H rules X (d + 1) name st = Inr (a, st1)"
    "evaluate H rules X (d + 1) price st1 = Inr (b, st2)"
    "rt_unit st' = rt_unit st2" "rt_fixed st' = rt_fixed st2" by (rule tier_states)
  then show ?case
    using quiet_evaluate [OF ft_tier.hyps(1) st(1)] quiet_evaluate [OF ft_tier.hyps(2) st(2)] ft_tier.prems
    by (auto simp: priced_def same_price_def)
qed

section \<open>Successful evaluations\<close>

lemma evaluation_steps_success:
  assumes "evaluation_steps H c X = Inr s"
  obtains st v st' x where "runtime_init H (compiled_rules c) X = Inr st"
    "evaluate H (compiled_rules c) X 0 (compiled_ast c) st = Inr (v, st')"
    "rv_value v = JNum x" "isFinite x" "\<not> js_lt x zero_num" "bs_cost s = x"
    "bs_requestRules s = rt_rules st'" "bs_unit s = rt_unit st'" "bs_fixedPrice s = rt_fixed st'"
    "bs_matchedTier s = rt_tier st'"
proof -
  obtain st v st' where e: "runtime_init H (compiled_rules c) X = Inr st"
    "evaluate H (compiled_rules c) X 0 (compiled_ast c) st = Inr (v, st')"
    and r: "(case rv_value v of JNum x \<Rightarrow>
       if \<not> isFinite x \<or> js_lt x zero_num then Inl (billing_error Number_code (js ''billing result'') None)
       else Inr \<lparr>bs_cost = x, bs_unit = rt_unit st',
          bs_imageCount = (if js ''image_count'' \<in> set (compiled_variables c)
             then Some (case cx_imageCount X of Some n \<Rightarrow> n | None \<Rightarrow> one_num) else None),
          bs_fixedPrice = rt_fixed st', bs_matchedTier = rt_tier st', bs_requestRules = rt_rules st'\<rparr>
     | _ \<Rightarrow> Inl (billing_error Number_code (js ''billing result'') None)) = Inr s"
    using assms unfolding evaluation_steps_def by (elim bindR_InrE) auto
  show ?thesis
  proof (cases "rv_value v")
    case (JNum x)
    then show ?thesis using r by (intro that [OF e JNum]) (auto split: if_splits)
  qed (use r in auto)
qed

end
