(* ===== verification/Runtime_Types.thy ===== *)
theory Runtime_Types
  imports Runtime_Sound
begin

text \<open>
  Values against types, and exact integers. A value has the type the checker gave its expression; the
  only exception is a sum of two operands of unknown type, which the checker calls a number and which
  concatenates two strings. Integer arithmetic on literals is exact: where the result would not be a
  safe integer the evaluation fails instead.
\<close>

section \<open>Type soundness\<close>

fun has_type :: "ExpressionType \<Rightarrow> jsval \<Rightarrow> bool" where
  "has_type T_number v \<longleftrightarrow> (\<exists>x. v = JNum x) \<or> (\<exists>s. v = JStr s)"
| "has_type T_string v \<longleftrightarrow> (\<exists>s. v = JStr s)"
| "has_type T_boolean v \<longleftrightarrow> (\<exists>b. v = JBool b)"
| "has_type T_nil v \<longleftrightarrow> v = JNull"
| "has_type T_dynamic v \<longleftrightarrow> True"

text \<open>The types of the children, as the checker looks them up.\<close>

definition child_types :: "ExpressionNode \<Rightarrow> type_map" where
  "child_types n c = (if c \<in> set (children n) then (case type_of c of Inl _ \<Rightarrow> None | Inr t \<Rightarrow> Some t) else None)"

lemma type_of_child_types:
  assumes "type_of n = Inr t"
  shows "node_type (child_types n) n = Inr t" "\<And>c. c \<in> set (children n) \<Longrightarrow> \<exists>t. type_of c = Inr t"
proof -
  obtain ts where ts: "mapR type_of (children n) = Inr ts" "node_type (map_of (zip (children n) ts)) n = Inr t"
    using assms by (subst (asm) type_of.simps) (auto simp: bindR_eq_Inr)
  have m: "map type_of (children n) = map Inr ts" using ts(1) by (simp add: mapR_Inr_map)
  then have len: "length ts = length (children n)" by (metis length_map)
  show c: "\<exists>t. type_of c = Inr t" if "c \<in> set (children n)" for c
    using that m by (metis (no_types, lifting) image_eqI image_iff list.set_map)
  have "child_types n c = map_of (zip (children n) ts) c" if c': "c \<in> set (children n)" for c
  proof -
    obtain t' where t': "map_of (zip (children n) ts) c = Some t'" using c' len by (metis map_of_zip_is_Some)
    then have "(c, t') \<in> set (zip (children n) ts)" by (rule map_of_SomeD)
    then obtain i where "i < length ts" "children n ! i = c" "ts ! i = t'" by (auto simp: set_zip)
    then have "type_of c = Inr t'" using m len by (metis nth_map)
    then show ?thesis using t' c' by (simp add: child_types_def)
  qed
  then have "node_type (child_types n) n = node_type (map_of (zip (children n) ts)) n" by (rule node_type_cong)
  then show "node_type (child_types n) n = Inr t" using ts(2) by simp
qed

lemma arithmetic_number: "arithmetic f a b i pos = Inr v \<Longrightarrow> \<exists>x. rv_value v = JNum x"
  by (auto simp: arithmetic_def split: if_splits)

abbreviation comparisons :: "jsstr set" where
  "comparisons \<equiv> {js ''=='', js ''!='', js ''<'', js ''<='', js ''>'', js ''>=''}"

lemma compare_values_None: "f \<notin> comparisons \<Longrightarrow> compare_values f a b = None"
  by (auto simp: compare_values_def Let_def split: option.splits)

lemma binary_values_number:
  assumes "binary_values f l r pos = Inr v" "f \<notin> comparisons"
  shows "has_type T_number (rv_value v)"
  using assms compare_values_None [OF assms(2)] unfolding binary_values_def Let_def
  by (auto split: jsval.splits bool.splits dest: arithmetic_number)

lemma binary_values_string:
  "binary_values (js ''+'') l r pos = Inr v \<Longrightarrow> has_type T_string (rv_value l) \<Longrightarrow> has_type T_string (rv_value r) \<Longrightarrow>
     has_type T_string (rv_value v)"
  by (auto simp: binary_values_def)

lemma binary_values_boolean:
  assumes "binary_values f l r pos = Inr v" "f \<in> comparisons"
  shows "has_type T_boolean (rv_value v)"
proof (cases "f = js ''=='' \<or> f = js ''!=''")
  case True
  then show ?thesis using assms by (auto simp: binary_values_def Let_def split: if_splits)
next
  case False
  then have p: "f \<noteq> js ''+''" and na: "arithmetic f x y i pos \<noteq> Inr v" for x y i
    using assms(2) by (auto simp: arithmetic_def)
  then have "\<exists>c. v = plain (JBool c)"
    using assms(1) False unfolding binary_values_def Let_def
    by (cases "compare_values f (rv_value l) (rv_value r)") (auto split: jsval.splits)
  then show ?thesis by auto
qed

lemma math_function_number: "math_function ev f args st = Inr (v, st') \<Longrightarrow> \<exists>x. rv_value v = JNum x"
  unfolding math_function_def by (elim bindR_pairE) (auto simp: bindR_eq_Inr split: if_splits)

text \<open>One step: the value of a node has its type where the values of its children have theirs.\<close>

lemma call_of_typed:
  assumes "call_type types f args = Inr t" "call_of H X ev f args pos st = Inr (v, st')"
  shows "has_type t (rv_value v)"
proof -
  consider "f = js ''header''" | "f = js ''has''" | "f = js ''tier''" | "f \<in> set TIME_FUNCTIONS"
    | "f \<in> {js ''fixed'', js ''min'', js ''max'', js ''abs'', js ''ceil'', js ''floor''}"
    | "f \<notin> {js ''header'', js ''has'', js ''tier''}" "f \<notin> set TIME_FUNCTIONS"
      "f \<notin> {js ''fixed'', js ''min'', js ''max'', js ''abs'', js ''ceil'', js ''floor''}"
    by blast
  then show ?thesis
  proof cases
    case 1
    with assms have "t = T_string" by (auto simp: call_type_def TIME_FUNCTIONS_def)
    with 1 assms(2) show ?thesis
      by (auto simp: call_of_def request_function_def Let_def bindR_eq_Inr split: option.splits)
  next
    case 2
    with assms have "t = T_boolean" by (auto simp: call_type_def TIME_FUNCTIONS_def bindR_eq_Inr)
    with 2 assms(2) show ?thesis
      by (auto simp: call_of_def request_function_def bindR_eq_Inr split: if_splits)
  next
    case 3
    with assms have "t = T_number" by (auto simp: call_type_def TIME_FUNCTIONS_def bindR_eq_Inr)
    with 3 assms(2) show ?thesis by (auto simp: call_of_def bindR_eq_Inr)
  next
    case 4
    with assms have "t = T_number" by (auto simp: call_type_def TIME_FUNCTIONS_def bindR_eq_Inr)
    with 4 assms(2) show ?thesis by (auto simp: call_of_def TIME_FUNCTIONS_def bindR_eq_Inr)
  next
    case 5
    with assms have "t = T_number" by (auto simp: call_type_def TIME_FUNCTIONS_def bindR_eq_Inr)
    moreover have "\<exists>x. rv_value v = JNum x"
    proof (cases "f = js ''fixed''")
      case True
      then show ?thesis using assms(2) by (auto simp: call_of_def bindR_eq_Inr)
    next
      case False
      with 5 have "call_of H X ev f args pos st = math_function ev f args st" by (auto simp: call_of_def)
      then show ?thesis using assms(2) math_function_number by metis
    qed
    ultimately show ?thesis by simp
  next
    case 6
    with assms have "t = T_dynamic" by (auto simp: call_type_def bindR_eq_Inr split: if_splits)
    then show ?thesis by simp
  qed
qed

lemma binary_of_typed:
  assumes t: "node_type types (Binary f l r s e) = Inr t" and v: "binary_of ev f l r s st = Inr (v, st')"
    and IH: "\<And>c tc st v st'. c \<in> {l, r} \<Longrightarrow> types c = Some tc \<Longrightarrow> ev c st = Inr (v, st') \<Longrightarrow> has_type tc (rv_value v)"
  shows "has_type t (rv_value v)"
proof (cases "f \<in> {js ''&&'', js ''||''}")
  case True
  then have "t = T_boolean" using t by (auto simp: node_type_def bindR_eq_Inr)
  then show ?thesis using True v by (auto simp: binary_of_def bindR_eq_Inr split: if_splits)
next
  case False
  then obtain a st1 b where ab: "ev l st = Inr (a, st1)" "ev r st1 = Inr (b, st')" "binary_values f a b s = Inr v"
    using v by (auto simp: binary_of_def bindR_eq_Inr)
  consider "f \<in> comparisons" | "f = js ''+''" "types l = Some T_string" "types r = Some T_string"
    | "f \<notin> comparisons" "\<not> (f = js ''+'' \<and> types l = Some T_string \<and> types r = Some T_string)" by blast
  then show ?thesis
  proof cases
    case 1
    then have "t = T_boolean" using t False by (auto simp: node_type_def)
    then show ?thesis using binary_values_boolean [OF ab(3) 1] by simp
  next
    case 2
    then have "t = T_string" using t by (auto simp: node_type_def)
    then show ?thesis
      using 2 ab IH [of l T_string st a st1] IH [of r T_string st1 b st'] binary_values_string [of a b s v] by simp
  next
    case 3
    then have "t = T_number" using t False by (auto simp: node_type_def bindR_eq_Inr)
    then show ?thesis using binary_values_number [OF ab(3) 3(1)] by simp
  qed
qed

lemma evaluateNode_typed:
  assumes t: "node_type types n = Inr t" and v: "evaluateNode H rules X ev n st = Inr (v, st')"
    and IH: "\<And>c tc st v st'. c \<in> set (children n) \<Longrightarrow> types c = Some tc \<Longrightarrow> ev c st = Inr (v, st') \<Longrightarrow> has_type tc (rv_value v)"
    and known: "\<And>c. c \<in> set (children n) \<Longrightarrow> types c \<noteq> None"
  shows "has_type t (rv_value v)"
proof (cases n)
  case (Literal l i s e)
  then show ?thesis using t v by (cases l) (auto simp: node_type_def evaluateNode_def)
next
  case (Variable x s e)
  then show ?thesis using t v
    by (auto simp: node_type_def evaluateNode_def variable_value_def Let_def split: if_splits jsval.splits)
next
  case (Unary f x s e)
  then show ?thesis using t v
    by (auto simp: node_type_def evaluateNode_def Let_def bindR_eq_Inr split: if_splits)
next
  case (Conditional c y m s e)
  obtain b st1 where "ev (if b then y else m) st1 = Inr (v, st')"
    using v Conditional by (auto simp: evaluateNode_def Let_def elim!: bindR_pairE)
  moreover have "types y = types m \<Longrightarrow> types y = Some t" "types y \<noteq> types m \<Longrightarrow> t = T_dynamic"
    using t Conditional known [of y] by (auto simp: node_type_def bindR_eq_Inr)
  ultimately show ?thesis using IH [of "if b then y else m" t st1 v st'] Conditional
    by (cases "types y = types m") (auto split: if_splits)
next
  case (Binary f l r s e)
  then show ?thesis using t v IH binary_of_typed [of types f l r s e t ev st v st']
    by (simp add: evaluateNode_def)
next
  case (Call f args s e)
  then show ?thesis using t v call_of_typed [of types f args t H X ev s st v st']
    by (simp add: evaluateNode_def node_type_def)
qed

lemma evaluate_typed:
  "type_of n = Inr t \<Longrightarrow> evaluate H rules X d n st = Inr (v, st') \<Longrightarrow> has_type t (rv_value v)"
proof (induction n arbitrary: d st v st' t rule: node_count.induct)
  case (1 n)
  note ty = type_of_child_types [OF "1.prems"(1)]
  show ?case
  proof (rule evaluateNode_typed [OF ty(1) evaluate_step(1) [OF "1.prems"(2)]])
    fix c assume c: "c \<in> set (children n)"
    then show "child_types n c \<noteq> None" using ty(2) [OF c] by (auto simp: child_types_def)
    fix tc st v st' assume "child_types n c = Some tc" "evaluate H rules X (d + 1) c st = Inr (v, st')"
    then show "has_type tc (rv_value v)" using "1.IH" [OF c] c by (auto simp: child_types_def split: sum.splits)
  qed
qed

section \<open>Exact integers\<close>

text \<open>The value of an expression over integer literals in unbounded arithmetic; \<open>%\<close> takes the sign of its left operand.\<close>

fun int_value :: "ExpressionNode \<Rightarrow> int option" where
  "int_value (Literal (LNum x) True _ _) = Some \<lfloor>num_val x\<rfloor>"
| "int_value (Unary f x _ _) =
     (if f = js ''-'' then map_option uminus (int_value x) else if f = js ''+'' then int_value x else None)"
| "int_value (Binary f l r _ _) =
     (case (int_value l, int_value r) of
        (Some a, Some b) \<Rightarrow>
          if f = js ''+'' then Some (a + b)
          else if f = js ''-'' then Some (a - b)
          else if f = js ''*'' then Some (a * b)
          else if f = js ''%'' \<and> b \<noteq> 0 then Some (sgn a * (\<bar>a\<bar> mod \<bar>b\<bar>))
          else None
      | _ \<Rightarrow> None)"
| "int_value _ = None"

definition exact :: "RuntimeValue \<Rightarrow> int \<Rightarrow> bool" where
  "exact v k \<longleftrightarrow> rv_integer v \<and> (\<exists>x. rv_value v = JNum x \<and> mag_ok x \<and> isSafeInteger x \<and> num_val x = of_int k)"

lemma check_result_exact:
  "check_result pos r = Inr (v, st) \<Longrightarrow> rv_value v = JNum x \<Longrightarrow> rv_integer v \<Longrightarrow> isSafeInteger x"
  by (frule check_result_same) (auto simp: check_result_def split: if_splits)

lemma evaluate_safe:
  assumes "evaluate H rules X d n st = Inr (v, st')" "rv_value v = JNum x" "rv_integer v"
  shows "isSafeInteger x"
  using assms by (subst (asm) evaluate.simps)
    (auto simp: bindR_eq_Inr intro: check_result_exact split: if_splits)

lemma js_mod_exact:
  assumes "mag_ok x" "mag_ok y" "num_val x = of_int a" "num_val y = of_int b" "isFinite x" "isFinite y" "b \<noteq> 0"
  shows "num_val (js_mod x y) = of_int (sgn a * (\<bar>a\<bar> mod \<bar>b\<bar>))"
proof -
  obtain s p t q where xy: "x = Fin s p" "y = Fin t q" using assms(5,6) by (cases x; cases y) auto
  have "p = of_int \<bar>a\<bar>" "q = of_int \<bar>b\<bar>" using assms(1-4) xy by (auto split: if_splits)
  then have "js_mod x y = Fin s (of_int (\<bar>a\<bar> mod \<bar>b\<bar>))" using js_mod_int [of "\<bar>a\<bar>" "\<bar>b\<bar>" s t] assms(7) xy by simp
  moreover have "s \<Longrightarrow> a \<le> 0" "\<not> s \<Longrightarrow> 0 \<le> a" using assms(1,3) xy by (auto split: if_splits)
  ultimately show ?thesis by (cases s; cases "a = 0") (auto simp: sgn_if)
qed

lemma arithmetic_exact:
  assumes "arithmetic f x y True pos = Inr v" "rv_value v = JNum z" "isSafeInteger z"
    "isSafeInteger x" "isSafeInteger y" "mag_ok x" "mag_ok y" "num_val x = of_int a" "num_val y = of_int b"
  shows "f = js ''+'' \<Longrightarrow> mag_ok z \<and> num_val z = of_int (a + b)"
    "f = js ''-'' \<Longrightarrow> mag_ok z \<and> num_val z = of_int (a - b)"
    "f = js ''*'' \<Longrightarrow> mag_ok z \<and> num_val z = of_int (a * b)"
    "f = js ''%'' \<Longrightarrow> b \<noteq> 0 \<Longrightarrow> mag_ok z \<and> num_val z = of_int (sgn a * (\<bar>a\<bar> mod \<bar>b\<bar>))"
proof -
  have fin: "isFinite x" "isFinite y" using assms(4,5) by (auto dest: isSafeInteger_val)
  show "f = js ''+'' \<Longrightarrow> mag_ok z \<and> num_val z = of_int (a + b)"
    using assms js_add_safe [of x y] by (auto simp: arithmetic_def mag_ok_add)
  show "f = js ''-'' \<Longrightarrow> mag_ok z \<and> num_val z = of_int (a - b)"
    using assms js_sub_safe [of x y] by (auto simp: arithmetic_def mag_ok_sub)
  show "f = js ''*'' \<Longrightarrow> mag_ok z \<and> num_val z = of_int (a * b)"
    using assms js_mul_safe [of x y] by (auto simp: arithmetic_def mag_ok_mul)
  show "f = js ''%'' \<Longrightarrow> b \<noteq> 0 \<Longrightarrow> mag_ok z \<and> num_val z = of_int (sgn a * (\<bar>a\<bar> mod \<bar>b\<bar>))"
    using assms js_mod_exact [of x y a b] fin by (auto simp: arithmetic_def mag_ok_mod)
qed

lemma binary_values_arith:
  assumes "binary_values f l r pos = Inr v" "exact l a" "exact r b" "f \<in> {js ''+'', js ''-'', js ''*'', js ''%''}"
  obtains x y where "rv_value l = JNum x" "rv_value r = JNum y" "arithmetic f x y True pos = Inr v" "rv_integer v"
proof -
  have "compare_values f (rv_value l) (rv_value r) = None" using assms(4) by (intro compare_values_None) auto
  then show ?thesis using assms that unfolding exact_def binary_values_def Let_def
    by (auto simp: arithmetic_def split: bool.splits if_splits)
qed

lemma evaluate_exact:
  "wf_ast n \<Longrightarrow> int_value n = Some k \<Longrightarrow> evaluate H rules X d n st = Inr (v, st') \<Longrightarrow> exact v k \<and> st' = st"
proof (induction n arbitrary: k d st v st' rule: int_value.induct)
  case (1 x s e)
  have x: "\<exists>q. 0 \<le> q \<and> x = mk_num False q" "isSafeInteger x"
    using "1.prems"(1) by (simp_all add: wf_ast_iff [of "Literal l i s e" for l i])
  then have "mag_ok x" by (auto intro: mag_ok_mk_num)
  moreover obtain n where "num_val x = of_int n" using isSafeInteger_val [OF x(2)] by blast
  moreover have "v = \<lparr>rv_value = JNum x, rv_integer = True\<rparr>" "st' = st"
    using evaluate_step(1) [OF "1.prems"(3)] by (simp_all add: evaluateNode_def)
  ultimately show ?case using "1.prems"(2) x(2) by (simp add: exact_def)
next
  case (2 f x s e)
  then obtain k' where k': "int_value x = Some k'" "f = js ''-'' \<and> k = - k' \<or> f = js ''+'' \<and> k = k'"
    by (auto split: if_splits)
  have f: "f \<noteq> js ''!''" using k'(2) by auto
  obtain a y i where a: "evaluate H rules X (d + 1) x st = Inr (a, st')" "rv_value a = JNum y"
    "v = \<lparr>rv_value = JNum (if f = js ''-'' then js_neg y else y), rv_integer = rv_integer a\<rparr>"
    using evaluate_step(1) [OF "2.prems"(3)] f by (auto simp: evaluateNode_def typed_iff bindR_eq_Inr)
  have "exact a k' \<and> st' = st"
    using k' "2.prems"(1) a(1) "2.IH"(1) [of k' "d + 1" st a st'] "2.IH"(2) [of k' "d + 1" st a st']
    by (auto simp: node_invariants)
  then show ?case using a k'(2) by (auto simp: exact_def)
next
  case (3 f l r s e)
  then obtain a b where ab: "int_value l = Some a" "int_value r = Some b" "f \<in> {js ''+'', js ''-'', js ''*'', js ''%''}"
    by (auto split: option.splits if_splits)
  then have nf: "f \<noteq> js ''&&''" "f \<noteq> js ''||''" by auto
  obtain vl st1 vr where vs: "evaluate H rules X (d + 1) l st = Inr (vl, st1)"
    "evaluate H rules X (d + 1) r st1 = Inr (vr, st')" "binary_values f vl vr s = Inr v"
    using evaluate_step(1) [OF "3.prems"(3)] nf by (auto simp: evaluateNode_def binary_of_def bindR_eq_Inr)
  have ex: "exact vl a \<and> st1 = st" "exact vr b \<and> st' = st1"
    using "3.IH" ab vs "3.prems"(1) by (auto simp: node_invariants)
  then obtain x y where xy: "rv_value vl = JNum x" "rv_value vr = JNum y" "arithmetic f x y True s = Inr v" "rv_integer v"
    using binary_values_arith [OF vs(3) _ _ ab(3)] by metis
  obtain z where z: "rv_value v = JNum z" using arithmetic_number [OF xy(3)] by blast
  have sz: "isSafeInteger z" using evaluate_safe [OF "3.prems"(3) z xy(4)] .
  have xx: "isSafeInteger x" "isSafeInteger y" "mag_ok x" "mag_ok y" "num_val x = of_int a" "num_val y = of_int b"
    using ex xy(1,2) by (auto simp: exact_def)
  note A = arithmetic_exact [OF xy(3) z sz xx]
  have K: "(if f = js ''+'' then Some (a + b) else if f = js ''-'' then Some (a - b)
      else if f = js ''*'' then Some (a * b)
      else if f = js ''%'' \<and> b \<noteq> 0 then Some (sgn a * (\<bar>a\<bar> mod \<bar>b\<bar>)) else None) = Some k"
    using "3.prems"(2) ab(1,2) by simp
  have "mag_ok z \<and> num_val z = of_int k"
  proof (cases "f = js ''+'' \<or> f = js ''-'' \<or> f = js ''*''")
    case True
    then show ?thesis using A(1-3) K by (elim disjE) auto
  next
    case False
    then have "f = js ''%''" "b \<noteq> 0" "k = sgn a * (\<bar>a\<bar> mod \<bar>b\<bar>)" using K by (auto split: if_splits)
    then show ?thesis using A(4) by simp
  qed
  then show ?case using xy(4) z sz ex by (simp add: exact_def)
qed auto

end
