(* ===== verification/JS_Object.thy ===== *)
theory JS_Object
  imports JS_Numeral Memo "HOL-Library.Multiset"
begin

text \<open>
  Objects built by a program and arrays sorted by a comparison function. An object lists its properties
  whose names are array indices first, by value, and then the others in the order of their creation. A
  comparison function such as \<open>localeCompare\<close> is a parameter; \<open>sort\<close> is stable.
\<close>

section \<open>Property order\<close>

text \<open>A canonical array index: a decimal number without leading zeros below \<open>2 ^ 32 - 1\<close>.\<close>

definition array_index :: "jsstr \<Rightarrow> nat option" where
  "array_index s =
     (if s \<noteq> [] \<and> length s \<le> 10 \<and> list_all is_digit s \<and> (hd s \<noteq> 48 \<or> s = [48])
      then (let n = foldl (\<lambda>n c. 10 * n + nat (c - 48)) 0 s in if n < 4294967295 then Some n else None)
      else None)"

definition index_key :: "jsstr \<Rightarrow> nat" where
  "index_key s = (case array_index s of Some n \<Rightarrow> n | None \<Rightarrow> 0)"

definition own_order :: "(jsstr, 'v) js_map \<Rightarrow> (jsstr, 'v) js_map" where
  "own_order m =
     sort_key (\<lambda>p. index_key (fst p)) (filter (\<lambda>p. array_index (fst p) \<noteq> None) m)
     @ filter (\<lambda>p. array_index (fst p) = None) m"

text \<open>\<open>{...m, [k]: v}\<close> and \<open>Object.fromEntries(entries)\<close>.\<close>

definition object_with :: "jsstr \<Rightarrow> 'v \<Rightarrow> (jsstr, 'v) js_map \<Rightarrow> (jsstr, 'v) js_map" where
  "object_with k v m = own_order (js_map_set k v m)"

definition fromEntries :: "(jsstr \<times> 'v) list \<Rightarrow> (jsstr, 'v) js_map" where
  "fromEntries entries = own_order (fold (\<lambda>(k, v) m. js_map_set k v m) entries [])"

lemma set_own_order [simp]: "set (own_order m) = set m"
  by (auto simp: own_order_def)

lemma distinct_own_order: "distinct (map fst m) \<Longrightarrow> distinct (map fst (own_order m))"
proof -
  assume "distinct (map fst m)"
  then have m: "distinct m" "inj_on fst (set m)" by (simp_all add: distinct_map)
  then have "distinct (own_order m)" by (auto simp: own_order_def)
  then show ?thesis using m(2) by (simp add: distinct_map)
qed

lemma map_of_own_order: "distinct (map fst m) \<Longrightarrow> map_of (own_order m) = map_of m"
  by (intro map_of_eqI) (auto simp: distinct_own_order map_of_eq_Some_iff intro!: ext dest: map_of_SomeD)

lemma distinct_object_with: "distinct (map fst m) \<Longrightarrow> distinct (map fst (object_with k v m))"
  by (simp add: object_with_def distinct_own_order distinct_js_map_set)

lemma map_of_object_with: "distinct (map fst m) \<Longrightarrow> map_of (object_with k v m) = (map_of m)(k \<mapsto> v)"
  by (auto simp: object_with_def map_of_own_order distinct_js_map_set js_map_get_set)

lemma distinct_fold_set:
  "distinct (map fst m) \<Longrightarrow> distinct (map fst (fold (\<lambda>(k, v) m. js_map_set k v m) es m))"
  by (induction es arbitrary: m) (auto simp: distinct_js_map_set)

lemma js_map_set_new: "k \<notin> fst ` set m \<Longrightarrow> js_map_set k v m = m @ [(k, v)]"
  by (simp add: js_map_set_def)

lemma fold_set_entries:
  "distinct (map fst es) \<Longrightarrow> fst ` set es \<inter> fst ` set m = {} \<Longrightarrow> fold (\<lambda>(k, v) m. js_map_set k v m) es m = m @ es"
proof (induction es arbitrary: m)
  case (Cons p es)
  obtain k v where p: "p = (k, v)" by (cases p)
  then have "js_map_set k v m = m @ [(k, v)]" using Cons.prems by (intro js_map_set_new) auto
  moreover have "fold (\<lambda>(k, v) m. js_map_set k v m) es (m @ [(k, v)]) = (m @ [(k, v)]) @ es"
    using Cons.prems p by (intro Cons.IH) auto
  ultimately show ?case by (simp add: p)
qed simp

lemma distinct_fromEntries: "distinct (map fst (fromEntries es))"
  unfolding fromEntries_def by (intro distinct_own_order distinct_fold_set) simp

lemma fromEntries_distinct:
  assumes "distinct (map fst es)"
  shows "fromEntries es = own_order es" "map_of (fromEntries es) = map_of es" "set (fromEntries es) = set es"
  using fold_set_entries [OF assms, of "[]"] map_of_own_order [OF assms] by (simp_all add: fromEntries_def)

section \<open>Sorting by the names\<close>

type_synonym comparison = "jsstr \<Rightarrow> jsstr \<Rightarrow> int"

fun insert_entry :: "comparison \<Rightarrow> jsstr \<times> 'v \<Rightarrow> (jsstr \<times> 'v) list \<Rightarrow> (jsstr \<times> 'v) list" where
  "insert_entry cmp x [] = [x]"
| "insert_entry cmp x (y # ys) = (if cmp (fst x) (fst y) \<le> 0 then x # y # ys else y # insert_entry cmp x ys)"

definition sort_entries :: "comparison \<Rightarrow> (jsstr \<times> 'v) list \<Rightarrow> (jsstr \<times> 'v) list" where
  "sort_entries cmp xs = foldr (insert_entry cmp) xs []"

lemma mset_insert_entry [simp]: "mset (insert_entry cmp x ys) = add_mset x (mset ys)"
  by (induction ys) auto

lemma mset_sort_entries [simp]: "mset (sort_entries cmp xs) = mset xs"
  by (induction xs) (simp_all add: sort_entries_def)

lemma set_sort_entries [simp]: "set (sort_entries cmp xs) = set xs"
  by (metis mset_sort_entries set_mset_mset)

lemma length_sort_entries [simp]: "length (sort_entries cmp xs) = length xs"
  by (metis mset_sort_entries size_mset)

lemma distinct_sort_entries [simp]: "distinct (map fst (sort_entries cmp xs)) = distinct (map fst xs)"
  by (metis mset_map mset_sort_entries mset_eq_imp_distinct_iff)

end
