(* ===== verification/Localized_Text.thy ===== *)
theory Localized_Text
  imports Runtime JS_Object
begin

text \<open>
  Texts in several languages (\<^verbatim>\<open>lib/localized-text.ts\<close>): a text is given as one string or as a table from
  language tags to strings. Tags are compared after \<open>trim\<close>, \<open>replaceAll('_', '-')\<close> and \<open>toLowerCase\<close>.
\<close>

datatype LocalizedTextValue = Bare_text jsstr | Text_table "(jsstr, jsstr) js_map"

definition locale_tag :: "host \<Rightarrow> jsstr \<Rightarrow> jsstr" where
  "locale_tag H tag = toLowerCase H (map (\<lambda>c. if c = 95 then 45 else c) (trim tag))"

definition add_tag :: "jsstr \<Rightarrow> jsstr list \<Rightarrow> jsstr list" where
  "add_tag tag keys = (if tag \<noteq> [] \<and> tag \<notin> set keys then keys @ [tag] else keys)"

definition localeFallbackKeys :: "host \<Rightarrow> jsstr \<Rightarrow> jsstr list" where
  "localeFallbackKeys H language =
     (let normalized = locale_tag H language;
          keys = add_tag normalized [];
          keys = (if normalized = js ''zhcn'' then add_tag (js ''zh-cn'') keys else keys);
          keys = (if normalized = js ''zhtw'' then add_tag (js ''zh-tw'') keys else keys);
          keys = (if 45 \<in> set normalized then add_tag (takeWhile (\<lambda>c. c \<noteq> 45) normalized) keys
                  else if normalized = js ''zhcn'' \<or> normalized = js ''zhtw'' then add_tag (js ''zh'') keys
                  else keys)
      in add_tag (js ''en'') keys)"

definition localized_texts :: "host \<Rightarrow> (jsstr, jsstr) js_map \<Rightarrow> (jsstr, jsstr) js_map" where
  "localized_texts H table =
     fold (\<lambda>(key, t) texts.
       if trim t = [] \<or> locale_tag H key = [] then texts else js_map_set (locale_tag H key) t texts) table []"

definition resolveLocalizedText :: "host \<Rightarrow> comparison \<Rightarrow> LocalizedTextValue option \<Rightarrow> jsstr \<Rightarrow> jsstr" where
  "resolveLocalizedText H cmp v language =
     (case v of
        None \<Rightarrow> []
      | Some (Bare_text s) \<Rightarrow> s
      | Some (Text_table table) \<Rightarrow>
          (let texts = localized_texts H table
           in if texts = [] then []
              else
                (case List.find (\<lambda>tag. map_of texts tag \<noteq> None) (localeFallbackKeys H language) of
                   Some tag \<Rightarrow> the (map_of texts tag)
                 | None \<Rightarrow> snd (hd (sort_entries cmp texts)))))"

section \<open>The text that is shown\<close>

lemma localized_texts_stored:
  "map_of (fold (\<lambda>(key, t) texts.
     if trim t = [] \<or> locale_tag H key = [] then texts else js_map_set (locale_tag H key) t texts) table texts) tag = Some s \<Longrightarrow>
   map_of texts tag = Some s \<or> (\<exists>key. (key, s) \<in> set table \<and> tag = locale_tag H key \<and> trim s \<noteq> [] \<and> tag \<noteq> [])"
proof (induction table arbitrary: texts)
  case (Cons e table)
  obtain key t where e: "e = (key, t)" by (cases e)
  show ?case using Cons.IH Cons.prems unfolding e by (fastforce simp: js_map_get_set split: if_splits)
qed simp

lemma distinct_localized_texts: "distinct (map fst (localized_texts H table))"
proof -
  have "distinct (map fst texts) \<Longrightarrow> distinct (map fst (fold (\<lambda>(key, t) texts.
     if trim t = [] \<or> locale_tag H key = [] then texts else js_map_set (locale_tag H key) t texts) table texts))" for texts
    by (induction table arbitrary: texts) (auto simp: distinct_js_map_set)
  then show ?thesis by (simp add: localized_texts_def)
qed

lemma localized_text_from_table:
  assumes "resolveLocalizedText H cmp (Some (Text_table table)) language \<noteq> []"
  shows "\<exists>key. (key, resolveLocalizedText H cmp (Some (Text_table table)) language) \<in> set table \<and> trim (resolveLocalizedText H cmp (Some (Text_table table)) language) \<noteq> []"
proof -
  let ?texts = "localized_texts H table"
  let ?t = "resolveLocalizedText H cmp (Some (Text_table table)) language"
  have ne: "?texts \<noteq> []" using assms by (auto simp: resolveLocalizedText_def)
  have "\<exists>tag. map_of ?texts tag = Some ?t"
  proof (cases "List.find (\<lambda>tag. map_of ?texts tag \<noteq> None) (localeFallbackKeys H language)")
    case None
    then have "?t = snd (hd (sort_entries cmp ?texts))" using ne by (simp add: resolveLocalizedText_def)
    moreover have "hd (sort_entries cmp ?texts) \<in> set ?texts"
      using ne by (metis hd_in_set length_0_conv length_sort_entries set_sort_entries)
    ultimately show ?thesis using distinct_localized_texts by (metis map_of_is_SomeI prod.collapse)
  next
    case (Some tag)
    then have "map_of ?texts tag \<noteq> None" by (auto simp: find_Some_iff)
    then show ?thesis using Some ne by (auto simp: resolveLocalizedText_def)
  qed
  then show ?thesis using localized_texts_stored [of H table "[]"] by (fastforce simp: localized_texts_def)
qed

end
