(* ===== verification/Display.thy ===== *)
theory Display
  imports Runtime_Types Localized_Text
begin

text \<open>
  Price tables read from expression trees (\<^verbatim>\<open>features/pricing/lib/billing-expression/display.ts\<close>): chains
  of token tiers, tiers chosen by the time of day, and chains of task tiers. The trees come from the
  compiler, so every call has the number of arguments of its function.
\<close>

section \<open>Token tiers\<close>

record TokenTierCondition =
  tc_var :: jsstr
  tc_op :: jsstr
  tc_value :: jsnum

record TokenTier =
  tt_conditionText :: "jsstr option"
  tt_imageCount :: bool
  tt_billingUnit :: "BillingUnit option"
  tt_fixedPrice :: "jsnum option"
  tt_label :: jsstr
  tt_conditions :: "TokenTierCondition list"
  tt_prices :: "(jsstr, jsnum) js_map"

definition plain_tier :: "jsstr \<Rightarrow> TokenTierCondition list \<Rightarrow> (jsstr, jsnum) js_map \<Rightarrow> TokenTier" where
  "plain_tier label conditions prices =
     \<lparr>tt_conditionText = None, tt_imageCount = False, tt_billingUnit = None, tt_fixedPrice = None,
      tt_label = label, tt_conditions = conditions, tt_prices = prices\<rparr>"

fun flattenBinary :: "jsstr \<Rightarrow> ExpressionNode \<Rightarrow> ExpressionNode list" where
  "flattenBinary operator (Binary f l r s e) =
     (if f = operator then flattenBinary operator l @ flattenBinary operator r else [Binary f l r s e])"
| "flattenBinary operator node = [node]"

lemma size_flattenBinary: "m \<in> set (flattenBinary f n) \<Longrightarrow> size m \<le> size n"
  by (induction f n rule: flattenBinary.induct) (auto split: if_splits)

definition ORDER_OPERATORS :: "jsstr list" where
  "ORDER_OPERATORS = [js ''<'', js ''<='', js ''>'', js ''>='']"

definition tokenCondition :: "ExpressionNode \<Rightarrow> TokenTierCondition option" where
  "tokenCondition part =
     (case part of
        Binary f (Variable x _ _) (Literal (LNum v) _ _ _) _ _ \<Rightarrow>
          if f \<in> set ORDER_OPERATORS \<and> x \<in> {js ''p'', js ''c'', js ''len''} \<and> \<not> js_lt v zero_num
          then Some \<lparr>tc_var = x, tc_op = f, tc_value = v\<rparr> else None
      | _ \<Rightarrow> None)"

definition tokenConditions :: "ExpressionNode \<Rightarrow> TokenTierCondition list option" where
  "tokenConditions node = mapO tokenCondition (flattenBinary (js ''&&'') node)"

text \<open>\<open>node.value === 0\<close> for a literal.\<close>

definition is_zero_literal :: "ExpressionNode \<Rightarrow> bool" where
  "is_zero_literal node = (case node of Literal (LNum v) _ _ _ \<Rightarrow> js_num_eq v zero_num | _ \<Rightarrow> False)"

definition nonnegativePriceLiteral :: "ExpressionNode \<Rightarrow> jsnum option" where
  "nonnegativePriceLiteral node =
     (case node of
        Literal (LNum v) _ _ _ \<Rightarrow> if js_le zero_num v then Some v else None
      | Unary f x _ _ \<Rightarrow> if f = js ''-'' \<and> is_zero_literal x then Some (Fin True 0) else None
      | _ \<Rightarrow> None)"

text \<open>The loop that strips subtracted categories from \<open>len - cr - ...\<close>.\<close>

fun strip_categories :: "ExpressionNode \<Rightarrow> jsstr list \<Rightarrow> (ExpressionNode \<times> jsstr list) option" where
  "strip_categories (Binary f l r s e) excluded =
     (if f = js ''-'' then
        (case r of
           Variable x _ _ \<Rightarrow>
             if x \<in> {js ''cr'', js ''cc'', js ''cc1h'', js ''img'', js ''ai''} \<and> x \<notin> set excluded
             then strip_categories l (excluded @ [x]) else None
         | _ \<Rightarrow> None)
      else Some (Binary f l r s e, excluded))"
| "strip_categories node excluded = Some (node, excluded)"

definition is_remainder :: "ExpressionNode \<Rightarrow> bool" where
  "is_remainder node =
     (case strip_categories node [] of
        Some (Variable x _ _, excluded) \<Rightarrow>
          x = js ''len'' \<and>
          (excluded = [js ''ai''] \<or>
           list_all (\<lambda>name. name \<in> set excluded) [js ''cr'', js ''cc'', js ''cc1h'', js ''img''])
      | _ \<Rightarrow> False)"

text \<open>The variable a price is charged for: a token variable, or \<open>p\<close> written as \<open>max(len - ..., 0)\<close>.\<close>

definition priced_variable :: "ExpressionNode \<Rightarrow> jsstr option" where
  "priced_variable input =
     (case input of
        Variable x _ _ \<Rightarrow> if x \<noteq> js ''len'' \<and> x \<noteq> js ''image_count'' then Some x else None
      | Call f args _ _ \<Rightarrow>
          (case args of
             [a, b] \<Rightarrow>
               if f \<noteq> js ''max'' then None
               else if is_zero_literal a then (if is_remainder b then Some (js ''p'') else None)
               else if \<not> is_zero_literal b then None
               else if is_remainder a then Some (js ''p'') else None
           | _ \<Rightarrow> None)
      | _ \<Rightarrow> None)"

text \<open>A term \<open>input * price\<close> or \<open>price * input\<close>.\<close>

definition price_term :: "ExpressionNode \<Rightarrow> (jsstr \<times> jsnum) option" where
  "price_term term =
     (case term of
        Binary f l r _ _ \<Rightarrow>
          if f \<noteq> js ''*'' then None
          else
            (case (case nonnegativePriceLiteral r of
                     Some price \<Rightarrow> Some (l, price)
                   | None \<Rightarrow>
                       (case nonnegativePriceLiteral l of
                          Some price \<Rightarrow> Some (r, price) | None \<Rightarrow> None)) of
               None \<Rightarrow> None
             | Some (input, price) \<Rightarrow>
                 (case priced_variable input of None \<Rightarrow> None | Some x \<Rightarrow> Some (x, price)))
      | _ \<Rightarrow> None)"

fun collect_prices :: "ExpressionNode list \<Rightarrow> (jsstr, jsnum) js_map \<Rightarrow> (jsstr, jsnum) js_map option" where
  "collect_prices [] prices = Some prices"
| "collect_prices (term # terms) prices =
     (case price_term term of
        None \<Rightarrow> None
      | Some (x, price) \<Rightarrow>
          if map_of prices x \<noteq> None then None else collect_prices terms (prices @ [(x, price)]))"

definition tokenTier :: "ExpressionNode \<Rightarrow> TokenTierCondition list \<Rightarrow> TokenTier option" where
  "tokenTier node conditions =
     (case node of
        Call f args _ _ \<Rightarrow>
          (case args of
             [Literal (LStr label) _ _ _, body] \<Rightarrow>
               if f \<noteq> js ''tier'' then None
               else
                 (case (case body of
                          Call g [Literal (LNum amount) _ _ _] _ _ \<Rightarrow>
                            if g = js ''fixed'' then Some amount else None
                        | _ \<Rightarrow> None) of
                    Some amount \<Rightarrow>
                      Some ((plain_tier label conditions [])\<lparr>tt_billingUnit := Some Unit_request,
                              tt_fixedPrice := Some amount\<rparr>)
                  | None \<Rightarrow>
                      (case collect_prices (flattenBinary (js ''+'') body) [] of
                         None \<Rightarrow> None
                       | Some prices \<Rightarrow>
                           if prices = [] then None else Some (plain_tier label conditions prices)))
           | _ \<Rightarrow> None)
      | _ \<Rightarrow> None)"

text \<open>The \<open>while\<close> loop over the conditionals of a chain.\<close>

fun tier_chain :: "ExpressionNode \<Rightarrow> TokenTier list option" where
  "tier_chain (Conditional c y n s e) =
     (case tokenConditions c of
        None \<Rightarrow> None
      | Some conditions \<Rightarrow>
          (case tokenTier y conditions of
             None \<Rightarrow> None
           | Some tier \<Rightarrow> map_option (\<lambda>tiers. tier # tiers) (tier_chain n)))"
| "tier_chain node = map_option (\<lambda>tier. [tier]) (tokenTier node [])"

definition audio_input :: "ExpressionNode \<Rightarrow> jsstr option" where
  "audio_input part =
     (case part of
        Binary f (Variable x _ _) z _ _ \<Rightarrow>
          if f = js ''>'' \<and> (x = js ''ai'' \<or> x = js ''ao'') \<and> is_zero_literal z then Some x else None
      | _ \<Rightarrow> None)"

definition audio_tiers :: "ExpressionNode \<Rightarrow> TokenTier list option" where
  "audio_tiers node =
     (case node of
        Conditional (Binary f l r _ _) y n _ _ \<Rightarrow>
          if f = js ''||'' \<and> {audio_input l, audio_input r} = {Some (js ''ai''), Some (js ''ao'')} then
            (case (tokenTier y [], tokenTier n []) of
               (Some audio, Some text) \<Rightarrow>
                 Some [audio\<lparr>tt_conditionText := Some (js ''Audio requests'')\<rparr>,
                       text\<lparr>tt_conditionText := Some (js ''Text-only requests'')\<rparr>]
             | _ \<Rightarrow> None)
          else None
      | _ \<Rightarrow> None)"

function readTokenTierChain :: "ExpressionNode \<Rightarrow> TokenTier list option" where
  "readTokenTierChain node =
     (case audio_tiers node of
        Some tiers \<Rightarrow> Some tiers
      | None \<Rightarrow>
          (case node of
             Binary f l r _ _ \<Rightarrow>
               if f = js ''*'' \<and> is_image_count l then
                 map_option (map (\<lambda>t. t\<lparr>tt_imageCount := True\<rparr>)) (readTokenTierChain r)
               else if f = js ''*'' \<and> is_image_count r then
                 map_option (map (\<lambda>t. t\<lparr>tt_imageCount := True\<rparr>)) (readTokenTierChain l)
               else tier_chain node
           | _ \<Rightarrow> tier_chain node))"
  by pat_completeness auto
termination
  by (relation "measure size") auto

declare readTokenTierChain.simps [simp del]

section \<open>Tiers by time\<close>

record TimeTokenTier = TokenTier +
  tm_conditions :: "(ExpressionNode \<times> bool) list"

definition isTimeCondition :: "ExpressionNode \<Rightarrow> exn + bool" where
  "isTimeCondition node =
     bindR (expressionDependencies node) (\<lambda>(vars, funs).
       Inr (vars = [] \<and> list_ex (\<lambda>name. name \<in> set TIME_FUNCTIONS) funs \<and>
            list_all (\<lambda>name. name \<in> set TIME_FUNCTIONS \<or>
              name \<in> {js ''min'', js ''max'', js ''abs'', js ''ceil'', js ''floor''}) funs))"

definition condition_text :: "TokenTierCondition \<Rightarrow> jsstr" where
  "condition_text c = tc_var c @ js '' '' @ tc_op c @ js '' '' @ num_to_string (tc_value c)"

definition time_description :: "jsstr \<Rightarrow> (ExpressionNode \<times> bool) list \<Rightarrow> jsstr" where
  "time_description src path =
     join (js '' && '') (map (\<lambda>(c, matches).
        let text = slice src (node_start c) (node_end c)
        in if matches then js ''('' @ text @ js '')'' else js ''!('' @ text @ js '')'') path)"

definition time_tier :: "jsstr \<Rightarrow> (ExpressionNode \<times> bool) list \<Rightarrow> TokenTier \<Rightarrow> TimeTokenTier" where
  "time_tier src path tier =
     \<lparr>tt_conditionText = Some (join (js '' && '') (time_description src path # map condition_text (tt_conditions tier))),
      tt_imageCount = tt_imageCount tier, tt_billingUnit = tt_billingUnit tier,
      tt_fixedPrice = tt_fixedPrice tier, tt_label = tt_label tier, tt_conditions = tt_conditions tier,
      tt_prices = tt_prices tier, tm_conditions = path\<rparr>"

definition time_leaf :: "jsstr \<Rightarrow> ExpressionNode \<Rightarrow> (ExpressionNode \<times> bool) list \<Rightarrow> TimeTokenTier list option" where
  "time_leaf src node path =
     (case readTokenTierChain node of
        None \<Rightarrow> None
      | Some tiers \<Rightarrow> if path = [] then None else Some (map (time_tier src path) tiers))"

fun timeTierBranches :: "jsstr \<Rightarrow> ExpressionNode \<Rightarrow> (ExpressionNode \<times> bool) list \<Rightarrow> exn + TimeTokenTier list option" where
  "timeTierBranches src (Conditional c y n s e) path =
     bindR (isTimeCondition c) (\<lambda>timed.
       if timed then
         bindR (timeTierBranches src y (path @ [(c, True)])) (\<lambda>yes.
         bindR (timeTierBranches src n (path @ [(c, False)])) (\<lambda>no.
         Inr (case (yes, no) of (Some a, Some b) \<Rightarrow> Some (a @ b) | _ \<Rightarrow> None)))
       else Inr (time_leaf src (Conditional c y n s e) path))"
| "timeTierBranches src node path = Inr (time_leaf src node path)"

text \<open>The function on a compilation result, and the call with a source text.\<close>

definition time_pricing ::
  "host \<Rightarrow> CompilationResult \<Rightarrow> int option option \<Rightarrow> exn + (TimeTokenTier list \<times> TimeTokenTier list) option" where
  "time_pricing H r now =
     (case r of
        Failed _ \<Rightarrow> Inr None
      | Ready compiled \<Rightarrow>
          bindR (timeTierBranches (compiled_source compiled) (compiled_ast compiled) []) (\<lambda>tiers.
          Inr (case tiers of
                 None \<Rightarrow> None
               | Some tiers \<Rightarrow>
                   Some (tiers,
                     (case now of
                        None \<Rightarrow> []
                      | Some t \<Rightarrow>
                          filter (\<lambda>tier. list_all (\<lambda>(c, matches).
                            evaluateBillingCondition H compiled c t = Some matches) (tm_conditions tier)) tiers)))))"

definition readTimeTokenPricing ::
  "host \<Rightarrow> jsstr \<Rightarrow> int option option \<Rightarrow> compile_cache \<Rightarrow>
     (exn + (TimeTokenTier list \<times> TimeTokenTier list) option) \<times> compile_cache" where
  "readTimeTokenPricing H src now cache =
     (let (r, cache) = compileBillingExpression src cache in (time_pricing H r now, cache))"

section \<open>Task tiers\<close>

datatype UsageFieldType = Field_number | Field_boolean

record UsageField =
  uf_type :: "UsageFieldType option"
  uf_unit :: "jsstr option"
  uf_unitLabel :: "LocalizedTextValue option"
  uf_enum :: "jsstr list option"
  uf_enumLabels :: "(jsstr, LocalizedTextValue) js_map option"
  uf_description :: "LocalizedTextValue option"

type_synonym BillingUsageSchema = "(jsstr, UsageField) js_map"

record TaskCondition =
  kc_field :: jsstr
  kc_value :: jsstr

record TaskTier =
  kt_conditionText :: "jsstr option"
  kt_label :: jsstr
  kt_conditions :: "TaskCondition list"
  kt_constant :: jsnum
  kt_unitPrices :: "(jsstr, jsnum) js_map"

definition has_unit :: "UsageField \<Rightarrow> bool" where
  "has_unit d = (case uf_unit d of Some u \<Rightarrow> u \<noteq> [] | None \<Rightarrow> False)"

text \<open>\<open>u('field')\<close> with a literal field name.\<close>

definition usage_field :: "ExpressionNode \<Rightarrow> jsstr option" where
  "usage_field node =
     (case node of
        Call f [Literal (LStr field) _ _ _] _ _ \<Rightarrow> if f = js ''u'' then Some field else None
      | _ \<Rightarrow> None)"

datatype TermOutcome = Term_dropped | Term_unreachable | Term_condition TaskCondition

text \<open>
  One term of a conjunction: a condition on a declared field, a condition on a dropped fact that is left
  out, or one that makes the branch unreachable; \<open>None\<close> where the chain cannot be read.
\<close>

definition task_term :: "BillingUsageSchema \<Rightarrow> bool \<Rightarrow> ExpressionNode \<Rightarrow> TermOutcome option" where
  "task_term schema includeBoolean term =
     (case term of
        Binary f l (Literal v _ _ _) _ _ \<Rightarrow>
          (if f \<noteq> js ''=='' then None
           else
             case usage_field l of
               None \<Rightarrow> None
             | Some field \<Rightarrow>
                 (case map_of schema field of
                    None \<Rightarrow>
                      (case v of
                         LBool True \<Rightarrow> Some Term_unreachable
                       | LBool False \<Rightarrow> Some Term_dropped
                       | LStr _ \<Rightarrow> Some Term_dropped
                       | _ \<Rightarrow> None)
                  | Some d \<Rightarrow>
                      if uf_type d = Some Field_boolean then
                        (case v of
                           LBool b \<Rightarrow>
                             if includeBoolean
                             then Some (Term_condition \<lparr>kc_field = field,
                                          kc_value = (if b then js ''true'' else js ''false'')\<rparr>)
                             else None
                         | _ \<Rightarrow> None)
                      else
                        (case (v, uf_enum d) of
                           (LStr s, Some values) \<Rightarrow>
                             (let c = \<lparr>kc_field = field, kc_value = s\<rparr>
                              in Some (if s \<in> set values then Term_condition c else Term_unreachable))
                         | _ \<Rightarrow> None)))
      | _ \<Rightarrow> None)"

datatype TaskConditions = Unreachable | Reachable "TaskCondition list"

definition taskConditions :: "ExpressionNode \<Rightarrow> BillingUsageSchema \<Rightarrow> bool \<Rightarrow> TaskConditions option" where
  "taskConditions node schema includeBoolean =
     (case mapO (task_term schema includeBoolean) (flattenBinary (js ''&&'') node) of
        None \<Rightarrow> None
      | Some terms \<Rightarrow>
          Some (if list_ex (\<lambda>t. case t of Term_unreachable \<Rightarrow> True | _ \<Rightarrow> False) terms then Unreachable
                else Reachable (concat (map (\<lambda>t. case t of Term_condition c \<Rightarrow> [c] | _ \<Rightarrow> []) terms))))"

definition is_million_literal :: "ExpressionNode \<Rightarrow> bool" where
  "is_million_literal node = (case node of Literal (LNum v) _ _ _ \<Rightarrow> js_num_eq v million | _ \<Rightarrow> False)"

text \<open>The loop over the summands of a task price: the constant seen so far and the unit prices.\<close>

fun task_prices :: "BillingUsageSchema \<Rightarrow> ExpressionNode list \<Rightarrow> jsnum option \<Rightarrow> (jsstr, jsnum) js_map \<Rightarrow>
    (jsnum option \<times> (jsstr, jsnum) js_map) option" where
  "task_prices schema [] constant prices = Some (constant, prices)"
| "task_prices schema (term # terms) constant prices =
     (case nonnegativePriceLiteral term of
        Some v \<Rightarrow>
          if constant \<noteq> None then None else task_prices schema terms (Some v) prices
      | None \<Rightarrow>
          (case (case term of
                   Binary f l r _ _ \<Rightarrow>
                     if f = js ''/'' then (if is_million_literal r then Some (True, l) else None)
                     else Some (False, term)
                 | _ \<Rightarrow> Some (False, term)) of
             None \<Rightarrow> None
           | Some (scaled, inner) \<Rightarrow>
               (case inner of
                  Binary f l r _ _ \<Rightarrow>
                    (case (f = js ''*'', usage_field l, nonnegativePriceLiteral r) of
                       (True, Some field, Some price) \<Rightarrow>
                         (case map_of schema field of
                            None \<Rightarrow> task_prices schema terms constant prices
                          | Some d \<Rightarrow>
                              if uf_type d \<noteq> Some Field_number \<or> \<not> has_unit d \<or> map_of prices field \<noteq> None then None
                              else if (uf_unit d = Some (js ''token'')) \<noteq> scaled then None
                              else task_prices schema terms constant (prices @ [(field, price)]))
                     | _ \<Rightarrow> None)
                | _ \<Rightarrow> None)))"

definition taskTier :: "ExpressionNode \<Rightarrow> TaskCondition list \<Rightarrow> BillingUsageSchema \<Rightarrow> TaskTier option" where
  "taskTier node conditions schema =
     (case node of
        Call f [Literal (LStr label) _ _ _, body] _ _ \<Rightarrow>
          if f \<noteq> js ''tier'' then None
          else
            (case task_prices schema (flattenBinary (js ''+'') body) None [] of
               None \<Rightarrow> None
             | Some (constant, prices) \<Rightarrow>
                 if prices = [] then None
                 else Some \<lparr>kt_conditionText = None, kt_label = label, kt_conditions = conditions,
                            kt_constant = (case constant of Some v \<Rightarrow> v | None \<Rightarrow> zero_num),
                            kt_unitPrices = prices\<rparr>)
      | _ \<Rightarrow> None)"

text \<open>An earlier tier shadows a branch whose conditions include all of its own.\<close>

definition shadowed :: "TaskTier list \<Rightarrow> TaskCondition list \<Rightarrow> bool" where
  "shadowed tiers conditions =
     list_ex (\<lambda>earlier. list_all (\<lambda>c. c \<in> set conditions) (kt_conditions earlier)) tiers"

fun task_chain :: "BillingUsageSchema \<Rightarrow> bool \<Rightarrow> ExpressionNode \<Rightarrow> TaskTier list \<Rightarrow> TaskTier list option" where
  "task_chain schema includeBoolean (Conditional c y n s e) tiers =
     (case taskConditions c schema includeBoolean of
        None \<Rightarrow> None
      | Some Unreachable \<Rightarrow> task_chain schema includeBoolean n tiers
      | Some (Reachable conditions) \<Rightarrow>
          if shadowed tiers conditions then task_chain schema includeBoolean n tiers
          else
            (case taskTier y conditions schema of
               None \<Rightarrow> None
             | Some tier \<Rightarrow>
                 if conditions = [] then Some (tiers @ [tier])
                 else task_chain schema includeBoolean n (tiers @ [tier])))"
| "task_chain schema includeBoolean node tiers =
     map_option (\<lambda>fallback. tiers @ [fallback]) (taskTier node [] schema)"

definition readTaskTierChain :: "ExpressionNode \<Rightarrow> BillingUsageSchema \<Rightarrow> bool \<Rightarrow> TaskTier list option" where
  "readTaskTierChain node schema includeBoolean = task_chain schema includeBoolean node []"

end
