(* ===== verification/Billing_Expr.thy ===== *)
theory Billing_Expr
  imports Rule_Roundtrip Display
begin

text \<open>
  The remaining parts of \<^verbatim>\<open>features/pricing/lib/billing-expr.ts\<close>: the registry of variables, the tables of
  tiers that the pages show, and the way an expression is split into its price and its request rules and
  put together again. Callers of the compiler use its results; the cache behind it is transparent
  (theory \<open>Compile\<close>).
\<close>

section \<open>The registry of variables\<close>

datatype side = Side_input | Side_output | Side_condition

record BillingVar =
  bv_key :: jsstr
  bv_field :: "jsstr option"
  bv_tierField :: "jsstr option"
  bv_label :: jsstr
  bv_shortLabel :: jsstr
  bv_side :: side
  bv_isBase :: bool
  bv_isConditionOnly :: bool
  bv_group :: "jsstr option"

definition billing_var :: "string \<Rightarrow> string \<Rightarrow> string \<Rightarrow> string \<Rightarrow> string \<Rightarrow> side \<Rightarrow> bool \<Rightarrow> string option \<Rightarrow> BillingVar" where
  "billing_var key field tierField label shortLabel side isBase grp =
     \<lparr>bv_key = js key, bv_field = Some (js field), bv_tierField = Some (js tierField), bv_label = js label,
      bv_shortLabel = js shortLabel, bv_side = side, bv_isBase = isBase, bv_isConditionOnly = False,
      bv_group = map_option js grp\<rparr>"

definition BILLING_VARS :: "BillingVar list" where
  "BILLING_VARS =
     [billing_var ''p'' ''inputPrice'' ''input_unit_cost'' ''Input price'' ''Input'' Side_input True None,
      billing_var ''c'' ''outputPrice'' ''output_unit_cost'' ''Completion price'' ''Output'' Side_output True None,
      \<lparr>bv_key = js ''len'', bv_field = None, bv_tierField = None, bv_label = js ''Input length'',
       bv_shortLabel = js ''Length'', bv_side = Side_condition, bv_isBase = False, bv_isConditionOnly = True,
       bv_group = None\<rparr>,
      billing_var ''cr'' ''cacheReadPrice'' ''cache_read_unit_cost'' ''Cache read price'' ''Cache Read'' Side_input False
        (Some ''cache''),
      billing_var ''cc'' ''cacheCreatePrice'' ''cache_create_unit_cost'' ''Cache create price'' ''Cache Write'' Side_input
        False (Some ''cache''),
      billing_var ''img_cr'' ''imageCachePrice'' ''image_cache_unit_cost'' ''Image cache input price'' ''Image Cache''
        Side_input False (Some ''cache''),
      billing_var ''cc1h'' ''cacheCreate1hPrice'' ''cache_create_1h_unit_cost'' ''Cache create (1h) price''
        ''Cache Write (1h)'' Side_input False (Some ''cache''),
      billing_var ''img'' ''imagePrice'' ''image_unit_cost'' ''Image input price'' ''Image In'' Side_input False
        (Some ''media''),
      billing_var ''img_o'' ''imageOutputPrice'' ''image_output_unit_cost'' ''Image output price'' ''Image Out''
        Side_output False (Some ''media''),
      billing_var ''ai'' ''audioInputPrice'' ''audio_input_unit_cost'' ''Audio input price'' ''Audio In'' Side_input False
        (Some ''media''),
      billing_var ''ao'' ''audioOutputPrice'' ''audio_output_unit_cost'' ''Audio output price'' ''Audio Out'' Side_output
        False (Some ''media'')]"

definition BILLING_PRICING_VARS :: "BillingVar list" where
  "BILLING_PRICING_VARS = filter (\<lambda>v. \<not> bv_isConditionOnly v) BILLING_VARS"

definition BILLING_CONDITION_VARS :: "jsstr list" where
  "BILLING_CONDITION_VARS = map bv_key (filter (\<lambda>v. bv_isBase v \<or> bv_isConditionOnly v) BILLING_VARS)"

text \<open>\<open>null\<close> as a property value never occurs here: the condition-only variable is filtered out.\<close>

definition text_of :: "jsstr option \<Rightarrow> jsstr" where
  "text_of v = (case v of Some s \<Rightarrow> s | None \<Rightarrow> js ''null'')"

definition BILLING_VAR_KEY_TO_FIELD :: "(jsstr, jsstr) js_map" where
  "BILLING_VAR_KEY_TO_FIELD = map (\<lambda>v. (bv_key v, text_of (bv_field v))) BILLING_PRICING_VARS"

definition BILLING_EXTRA_VARS :: "BillingVar list" where
  "BILLING_EXTRA_VARS = filter (\<lambda>v. \<not> bv_isBase v \<and> \<not> bv_isConditionOnly v) BILLING_VARS"

definition BILLING_CACHE_VAR_MAP :: "(jsstr \<times> jsstr) list" where
  "BILLING_CACHE_VAR_MAP = map (\<lambda>v. (text_of (bv_tierField v), bv_key v)) BILLING_EXTRA_VARS"

section \<open>Tables of tiers\<close>

record ParsedTier =
  pt_billingUnit :: "BillingUnit option"
  pt_fixedPrice :: "jsnum option"
  pt_conditionText :: "jsstr option"
  pt_imageCount :: bool
  pt_label :: jsstr
  pt_conditions :: "TokenTierCondition list"
  pt_fields :: "(jsstr, jsnum) js_map"

text \<open>The field of a variable; a key without a field would become the property \<open>undefined\<close>.\<close>

definition price_field :: "jsstr \<Rightarrow> jsstr" where
  "price_field key = (case map_of BILLING_VAR_KEY_TO_FIELD key of Some f \<Rightarrow> f | None \<Rightarrow> js ''undefined'')"

definition mapTokenTier :: "'a TokenTier_scheme \<Rightarrow> ParsedTier" where
  "mapTokenTier tier =
     \<lparr>pt_billingUnit = (if tt_billingUnit tier = Some Unit_request then tt_billingUnit tier else None),
      pt_fixedPrice = (if tt_billingUnit tier = Some Unit_request then tt_fixedPrice tier else None),
      pt_conditionText = (if tt_conditionText tier = Some [] then None else tt_conditionText tier),
      pt_imageCount = tt_imageCount tier,
      pt_label = tt_label tier,
      pt_conditions = tt_conditions tier,
      pt_fields = fold (\<lambda>(key, price) m. js_map_set (price_field key) price m) (tt_prices tier) []\<rparr>"

definition parseTiersFromExpr :: "host \<Rightarrow> jsstr \<Rightarrow> exn + ParsedTier list" where
  "parseTiersFromExpr H exprStr =
     (if exprStr = [] then Inr []
      else
        (case compile_source exprStr of
           Failed _ \<Rightarrow> Inr []
         | Ready compiled \<Rightarrow>
             (case readTokenTierChain (compiled_ast compiled) of
                Some canonical \<Rightarrow> Inr (map mapTokenTier canonical)
              | None \<Rightarrow>
                  bindR (time_pricing H (compile_source exprStr) None) (\<lambda>r.
                    Inr (case r of Some (tiers, _) \<Rightarrow> map mapTokenTier tiers | None \<Rightarrow> [])))))"

definition getCurrentTimePricingTiers :: "host \<Rightarrow> jsstr \<Rightarrow> int option \<Rightarrow> exn + ParsedTier list option" where
  "getCurrentTimePricingTiers H exprStr now =
     bindR (time_pricing H (compile_source exprStr) (Some now)) (\<lambda>r.
       Inr (map_option (\<lambda>(_, currentTiers). map mapTokenTier currentTiers) r))"

section \<open>Prices and request rules\<close>

text \<open>A part of the product is a request rule where the rule parser reads it or the compiler traces it as one.\<close>

definition traced :: "jsstr \<Rightarrow> bool" where
  "traced part =
     (case compile_source part of
        Failed _ \<Rightarrow> False
      | Ready compiled \<Rightarrow> list_ex (\<lambda>rule. site_node rule = compiled_ast compiled) (compiled_rules compiled))"

definition is_rule_part :: "jsstr \<Rightarrow> exn + bool" where
  "is_rule_part part =
     bindR (tryParseRequestRuleExpr part) (\<lambda>parsed.
       Inr ((case parsed of Some gs \<Rightarrow> gs \<noteq> [] | None \<Rightarrow> False) \<or> traced part))"

text \<open>The loop over the parts: the rules and the parts of the price, each in order.\<close>

fun sort_parts :: "jsstr list \<Rightarrow> exn + jsstr list \<times> jsstr list" where
  "sort_parts [] = Inr ([], [])"
| "sort_parts (part # parts) =
     bindR (is_rule_part part) (\<lambda>rule.
     bindR (sort_parts parts) (\<lambda>(ruleParts, baseParts).
     Inr (if rule then (part # ruleParts, baseParts) else (ruleParts, part # baseParts))))"

definition is_quantity :: "jsstr \<Rightarrow> bool" where
  "is_quantity part = (unwrapExpressionParens part = js ''image_count'')"

definition splitBillingExprAndRequestRules :: "jsstr \<Rightarrow> exn + jsstr \<times> jsstr" where
  "splitBillingExprAndRequestRules expr =
     (let trimmed = trim expr
      in if trimmed = [] then Inr ([], [])
         else
           (let parts = splitExpressionAtTopLevel trimmed (js ''*'')
            in if length parts \<le> 1 then Inr (trimmed, [])
               else
                 bindR (sort_parts parts) (\<lambda>(ruleParts, baseParts).
                   if ruleParts = [] \<or> int (length baseParts) - int (length (filter is_quantity baseParts)) \<noteq> 1
                   then Inr (trimmed, [])
                   else Inr (join (js '' * '') (map unwrapExpressionParens baseParts), join (js '' * '') ruleParts))))"

definition combineBillingExpr :: "jsstr \<Rightarrow> jsstr \<Rightarrow> jsstr" where
  "combineBillingExpr baseExpr requestRuleExpr =
     (let base = trim baseExpr; rules = trim requestRuleExpr
      in if base = [] then []
         else if rules = [] then base
         else js ''('' @ base @ js '') * '' @ rules)"

definition parseTaskTiersFromExpr :: "jsstr \<Rightarrow> BillingUsageSchema option \<Rightarrow> bool \<Rightarrow> exn + TaskTier list" where
  "parseTaskTiersFromExpr exprStr schema includeBoolean =
     (case schema of
        None \<Rightarrow> Inr []
      | Some schema \<Rightarrow>
          if exprStr = [] \<or> schema = [] then Inr []
          else
            bindR (splitBillingExprAndRequestRules exprStr) (\<lambda>(billingExpr, _).
              Inr (case compile_source billingExpr of
                     Failed _ \<Rightarrow> []
                   | Ready compiled \<Rightarrow>
                       (case readTaskTierChain (compiled_ast compiled) schema includeBoolean of
                          Some tiers \<Rightarrow> tiers
                        | None \<Rightarrow> []))))"

text \<open>
  Labels are compared without blanks and case, and with one sign for each of the two orders:
  \<open>narrow\<close> and \<open>wide\<close> are the sign in both widths, \<open>combined\<close> the sign with a bar below.
\<close>

function replace_order :: "code_unit \<Rightarrow> code_unit \<Rightarrow> code_unit \<Rightarrow> jsstr \<Rightarrow> jsstr" where
  "replace_order narrow combined wide [] = []"
| "replace_order narrow combined wide (c # cs) =
     (if c = narrow \<or> c = wide then
        (case cs of
           d # ds \<Rightarrow> if d = 61 \<or> d = 65309 then narrow # replace_order narrow combined wide ds
                     else narrow # replace_order narrow combined wide cs
         | [] \<Rightarrow> [narrow])
      else if c = combined then narrow # replace_order narrow combined wide cs
      else c # replace_order narrow combined wide cs)"
  by pat_completeness auto
termination
  by (relation "measure (\<lambda>(_, _, _, s). length s)") auto

definition normalizeTierLabel :: "host \<Rightarrow> jsstr option \<Rightarrow> jsstr" where
  "normalizeTierLabel H label =
     (case label of
        None \<Rightarrow> []
      | Some s \<Rightarrow>
          if s = [] then []
          else toLowerCase H (filter (\<lambda>c. \<not> is_space c) (replace_order 62 8805 65310 (replace_order 60 8804 65308 s))))"

end
