(* ===== verification/JS_Regex.thy ===== *)
theory JS_Regex
  imports JS_String Memo
begin

text \<open>
  Regular expressions as the host language matches them: by backtracking, with greedy and lazy
  quantifiers and captured groups. A match is computed as the list of all ways to match a prefix, in the order in which
  the backtracking search finds them; the first is the one a match reports. An iteration of a quantifier
  has to consume text.
\<close>

datatype regex =
    Re_empty
  | Re_char "code_unit \<Rightarrow> bool"
  | Re_seq regex regex
  | Re_alt regex regex
  | Re_star regex
  | Re_lazy regex
  | Re_opt regex
  | Re_group nat regex
  | Re_end

type_synonym captures = "(nat \<times> jsstr) list"

function re_match :: "regex \<Rightarrow> jsstr \<Rightarrow> captures \<Rightarrow> (jsstr \<times> captures) list" where
  "re_match Re_empty s c = [(s, c)]"
| "re_match (Re_char p) s c = (case s of x # t \<Rightarrow> if p x then [(t, c)] else [] | [] \<Rightarrow> [])"
| "re_match (Re_seq a b) s c = concat (map (\<lambda>(t, d). re_match b t d) (re_match a s c))"
| "re_match (Re_alt a b) s c = re_match a s c @ re_match b s c"
| "re_match (Re_star a) s c =
     concat (map (\<lambda>(t, d). if length t < length s then re_match (Re_star a) t d else []) (re_match a s c)) @ [(s, c)]"
| "re_match (Re_lazy a) s c =
     (s, c) # concat (map (\<lambda>(t, d). if length t < length s then re_match (Re_lazy a) t d else []) (re_match a s c))"
| "re_match (Re_opt a) s c = filter (\<lambda>(t, d). length t < length s) (re_match a s c) @ [(s, c)]"
| "re_match (Re_group n a) s c = map (\<lambda>(t, d). (t, (n, take (length s - length t) s) # d)) (re_match a s c)"
| "re_match Re_end s c = (if s = [] then [(s, c)] else [])"
  by pat_completeness auto
termination
  by (relation "measures [\<lambda>(r, _, _). size r, \<lambda>(_, s, _). length s]") auto

declare re_match.simps(5,6) [simp del]

lemmas re_match_star = re_match.simps(5) and re_match_lazy = re_match.simps(6)

fun re_text :: "jsstr \<Rightarrow> regex" where
  "re_text [] = Re_empty"
| "re_text (x # xs) = Re_seq (Re_char (\<lambda>y. y = x)) (re_text xs)"

fun re_list :: "regex list \<Rightarrow> regex" where
  "re_list [] = Re_empty"
| "re_list (r # rs) = Re_seq r (re_list rs)"

fun re_choice :: "regex list \<Rightarrow> regex" where
  "re_choice [] = Re_char (\<lambda>_. False)"
| "re_choice [r] = r"
| "re_choice (r # rs) = Re_alt r (re_choice rs)"

definition re_plus :: "regex \<Rightarrow> regex" where
  "re_plus r = Re_seq r (Re_star r)"

definition re_spaces :: regex where
  "re_spaces = Re_star (Re_char is_space)"

text \<open>A match at the start of a text, with what is left of the text and the captured groups.\<close>

definition first_match :: "regex \<Rightarrow> jsstr \<Rightarrow> (jsstr \<times> captures) option" where
  "first_match r s = (case re_match r s [] of [] \<Rightarrow> None | m # _ \<Rightarrow> Some m)"

text \<open>A match at the first position that has one, and the matches one after the other.\<close>

fun re_search :: "regex \<Rightarrow> jsstr \<Rightarrow> (jsstr \<times> captures) option" where
  "re_search r [] = first_match r []"
| "re_search r (x # s) = (case first_match r (x # s) of Some m \<Rightarrow> Some m | None \<Rightarrow> re_search r s)"

function re_exec_all :: "regex \<Rightarrow> jsstr \<Rightarrow> captures list" where
  "re_exec_all r s =
     (case re_search r s of
        None \<Rightarrow> []
      | Some (t, c) \<Rightarrow> c # (if length t < length s then re_exec_all r t else []))"
  by pat_completeness auto
termination
  by (relation "measure (\<lambda>(_, s). length s)") auto

declare re_exec_all.simps [simp del]

text \<open>\<open>text.split(regex)\<close>, with the piece read so far.\<close>

function re_split :: "regex \<Rightarrow> jsstr \<Rightarrow> jsstr \<Rightarrow> jsstr list" where
  "re_split r [] piece = [piece]"
| "re_split r (x # s) piece =
     (case first_match r (x # s) of
        Some (t, _) \<Rightarrow> if length t \<le> length s then piece # re_split r t [] else re_split r s (piece @ [x])
      | None \<Rightarrow> re_split r s (piece @ [x]))"
  by pat_completeness auto
termination
  by (relation "measure (\<lambda>(_, s, _). length s)") auto

definition capture :: "captures \<Rightarrow> nat \<Rightarrow> jsstr option" where
  "capture c n = map_of c n"

section \<open>The first way to match\<close>

text \<open>
  What the backtracking search finds first. The rules follow the expression: as long as the first way of
  every part leads on, no other way is tried.
\<close>

definition leads :: "regex \<Rightarrow> jsstr \<Rightarrow> captures \<Rightarrow> jsstr \<Rightarrow> captures \<Rightarrow> bool" where
  "leads r s c t d \<longleftrightarrow> (\<exists>ms. re_match r s c = (t, d) # ms)"

definition no_match :: "regex \<Rightarrow> jsstr \<Rightarrow> bool" where
  "no_match r s \<longleftrightarrow> (\<forall>c. re_match r s c = [])"

lemma first_match_leads: "leads r s [] t d \<Longrightarrow> first_match r s = Some (t, d)"
  by (auto simp: leads_def first_match_def)

lemma first_match_none: "no_match r s \<Longrightarrow> first_match r s = None"
  by (simp add: no_match_def first_match_def)

lemma leads_empty: "leads Re_empty s c s c"
  by (simp add: leads_def)

lemma leads_end: "leads Re_end [] c [] c"
  by (simp add: leads_def)

lemma leads_char: "p x \<Longrightarrow> leads (Re_char p) (x # s) c s c"
  by (simp add: leads_def)

lemma leads_seq: "leads a s c t d \<Longrightarrow> leads b t d u e \<Longrightarrow> leads (Re_seq a b) s c u e"
  by (auto simp: leads_def)

lemma leads_group: "leads a s c t d \<Longrightarrow> s = w @ t \<Longrightarrow> leads (Re_group n a) s c t ((n, w) # d)"
  by (auto simp: leads_def)

lemma leads_opt: "leads a s c t d \<Longrightarrow> length t < length s \<Longrightarrow> leads (Re_opt a) s c t d"
  by (auto simp: leads_def)

lemma leads_opt_none: "no_match a s \<Longrightarrow> leads (Re_opt a) s c s c"
  by (simp add: leads_def no_match_def)

lemma leads_alt: "leads a s c t d \<Longrightarrow> leads (Re_alt a b) s c t d"
  by (auto simp: leads_def)

lemma leads_alt_second: "no_match a s \<Longrightarrow> leads b s c t d \<Longrightarrow> leads (Re_alt a b) s c t d"
  by (auto simp: leads_def no_match_def)

lemma leads_star_step:
  "leads a s c t d \<Longrightarrow> length t < length s \<Longrightarrow> leads (Re_star a) t d u e \<Longrightarrow> leads (Re_star a) s c u e"
  unfolding leads_def by (subst re_match_star) auto

lemma leads_star_stop: "no_match a s \<Longrightarrow> leads (Re_star a) s c s c"
  unfolding leads_def by (subst re_match_star) (simp add: no_match_def)

text \<open>A text that does not go on with a character of a class.\<close>

definition stops :: "(code_unit \<Rightarrow> bool) \<Rightarrow> jsstr \<Rightarrow> bool" where
  "stops p s \<longleftrightarrow> s = [] \<or> \<not> p (hd s)"

lemma stops_simps [simp]: "stops p []" "stops p (x # s) \<longleftrightarrow> \<not> p x"
  by (simp_all add: stops_def)

lemma no_match_char: "stops p s \<Longrightarrow> no_match (Re_char p) s"
  by (cases s) (simp_all add: no_match_def)

lemma no_match_seq: "no_match a s \<Longrightarrow> no_match (Re_seq a b) s"
  by (simp add: no_match_def)

text \<open>A part that can match in one way only.\<close>

definition only :: "regex \<Rightarrow> jsstr \<Rightarrow> jsstr \<Rightarrow> bool" where
  "only r s t \<longleftrightarrow> (\<forall>c. \<exists>d. re_match r s c = [(t, d)])"

lemma no_match_seq_only: "only a s t \<Longrightarrow> no_match b t \<Longrightarrow> no_match (Re_seq a b) s"
proof -
  assume a: "only a s t" "no_match b t"
  have "re_match (Re_seq a b) s c = []" for c
  proof -
    obtain d where "re_match a s c = [(t, d)]" using a(1) by (auto simp: only_def)
    then show ?thesis using a(2) by (simp add: no_match_def)
  qed
  then show ?thesis by (simp add: no_match_def)
qed

text \<open>Texts and classes of characters.\<close>

lemma leads_text: "leads (re_text w) (w @ s) c s c"
  by (induction w) (auto intro: leads_empty leads_seq leads_char)

lemma re_match_text: "re_match (re_text w) s c = (if starts_with s w then [(drop (length w) s, c)] else [])"
proof (induction w arbitrary: s)
  case (Cons x w)
  then show ?case by (cases s) (auto simp: starts_with_def)
qed (simp add: starts_with_def)

lemma leads_class:
  assumes "stops p s"
  shows "list_all p w \<Longrightarrow> leads (Re_star (Re_char p)) (w @ s) c s c"
proof (induction w)
  case Nil
  have "no_match (Re_char p) s" using assms by (rule no_match_char)
  then show ?case by (simp add: leads_star_stop)
next
  case (Cons x w)
  have "leads (Re_char p) (x # w @ s) c (w @ s) c" using Cons.prems by (intro leads_char) simp
  then have "leads (Re_star (Re_char p)) (x # w @ s) c s c" by (rule leads_star_step) (use Cons in simp_all)
  then show ?case by simp
qed

lemma leads_class_plus:
  assumes "stops p s" "list_all p w" "w \<noteq> []"
  shows "leads (re_plus (Re_char p)) (w @ s) c s c"
proof -
  obtain x xs where w: "w = x # xs" using assms(3) by (cases w) auto
  have "leads (Re_char p) (w @ s) c (xs @ s) c" unfolding w append_Cons using assms(2) w by (intro leads_char) simp
  moreover have "leads (Re_star (Re_char p)) (xs @ s) c s c" using assms(2) w by (intro leads_class [OF assms(1)]) simp
  ultimately show ?thesis unfolding re_plus_def by (rule leads_seq)
qed

text \<open>All ways to match a class of characters leave a text that starts in the class or is the rest.\<close>

lemma class_outcomes:
  assumes "stops p s"
  shows "list_all p w \<Longrightarrow> (t, d) \<in> set (re_match (Re_star (Re_char p)) (w @ s) c) \<Longrightarrow> d = c \<and> (\<exists>v. list_all p v \<and> t = v @ s)"
proof (induction w)
  case Nil
  have "re_match (Re_char p) s c = []" using assms by (cases s) auto
  then show ?case using Nil by (simp add: re_match_star [of "Re_char p" s])
next
  case (Cons x w)
  then have "(t, d) \<in> set (re_match (Re_star (Re_char p)) (w @ s) c) \<or> (t, d) = (x # w @ s, c)"
    by (auto simp: re_match_star [of "Re_char p" "x # w @ s"])
  then show ?case using Cons by (auto intro: exI [of _ "x # w"])
qed

end
