(* ===== verification/Tier_Expr.thy ===== *)
theory Tier_Expr
  imports Billing_Expr JS_Regex Runtime
begin

text \<open>
  The editor of token tiers and the estimator (\<^verbatim>\<open>features/pricing/lib/tier-expr.ts\<close>): tiers with unit costs,
  the expression they are written as, the regular expressions that read it back, and the evaluation of an
  expression for token counts. A property that a tier does not have is \<open>None\<close>; unit costs, whose names come
  from the registry of variables, are a map.
\<close>

section \<open>Tiers\<close>

datatype CacheMode = Cache_timed | Cache_generic

datatype condition_value = Value_number jsnum | Value_text jsstr

record TierConditionInput =
  ti_var :: jsstr
  ti_op :: jsstr
  ti_bound :: condition_value

record PartialTier =
  px_billing_unit :: "BillingUnit option"
  px_fixed_price :: "jsstr option"
  px_label :: "jsstr option"
  px_conditions :: "TierConditionInput list option"
  px_cache_mode :: "CacheMode option"
  px_costs :: "jsstr \<rightharpoonup> jsnum"

record VisualTier =
  xt_billing_unit :: "BillingUnit option"
  xt_fixed_price :: "jsstr option"
  xt_label :: jsstr
  xt_conditions :: "TierConditionInput list"
  xt_cache_mode :: CacheMode
  xt_costs :: "jsstr \<rightharpoonup> jsnum"

type_synonym VisualConfig = "VisualTier list"

definition INPUT_COST :: jsstr where
  "INPUT_COST = js ''input_unit_cost''"

definition OUTPUT_COST :: jsstr where
  "OUTPUT_COST = js ''output_unit_cost''"

definition TIMED_COST :: jsstr where
  "TIMED_COST = js ''cache_create_1h_unit_cost''"

text \<open>The unit costs that normalization always sets.\<close>

definition NORMAL_COSTS :: "jsstr list" where
  "NORMAL_COSTS =
     [js ''cache_read_unit_cost'', js ''cache_create_unit_cost'', TIMED_COST, js ''image_unit_cost'',
      js ''image_output_unit_cost'', js ''audio_input_unit_cost'', js ''audio_output_unit_cost'']"

text \<open>\<open>Number(value) || 0\<close>, for a number that may be missing.\<close>

definition cost_or_zero :: "jsnum option \<Rightarrow> jsnum" where
  "cost_or_zero v =
     (case v of None \<Rightarrow> zero_num | Some x \<Rightarrow> if x = NaN \<or> js_num_eq x zero_num then zero_num else x)"

definition getTierCacheMode :: "PartialTier \<Rightarrow> CacheMode" where
  "getTierCacheMode tier =
     (case px_cache_mode tier of
        Some m \<Rightarrow> m
      | None \<Rightarrow>
          (case px_costs tier TIMED_COST of
             Some x \<Rightarrow> if js_lt zero_num x then Cache_timed else Cache_generic
           | None \<Rightarrow> Cache_generic))"

text \<open>
  The two base costs, the label, the mode and the conditions are set only where the tier does not have
  them; the other costs are always set.
\<close>

definition normal_cost :: "(jsstr \<rightharpoonup> jsnum) \<Rightarrow> jsstr \<Rightarrow> jsnum option" where
  "normal_cost costs field =
     (if field \<in> set NORMAL_COSTS then Some (cost_or_zero (costs field))
      else if (field = INPUT_COST \<or> field = OUTPUT_COST) \<and> costs field = None then Some zero_num
      else costs field)"

definition normalizeVisualTier :: "PartialTier \<Rightarrow> VisualTier" where
  "normalizeVisualTier tier =
     \<lparr>xt_billing_unit = px_billing_unit tier, xt_fixed_price = px_fixed_price tier,
      xt_label = (case px_label tier of Some l \<Rightarrow> l | None \<Rightarrow> []),
      xt_conditions = (case px_conditions tier of Some cs \<Rightarrow> cs | None \<Rightarrow> []),
      xt_cache_mode = getTierCacheMode tier,
      xt_costs = normal_cost (px_costs tier)\<rparr>"

definition as_partial :: "VisualTier \<Rightarrow> PartialTier" where
  "as_partial t =
     \<lparr>px_billing_unit = xt_billing_unit t, px_fixed_price = xt_fixed_price t, px_label = Some (xt_label t),
      px_conditions = Some (xt_conditions t), px_cache_mode = Some (xt_cache_mode t), px_costs = xt_costs t\<rparr>"

definition createDefaultVisualConfig :: VisualConfig where
  "createDefaultVisualConfig =
     [normalizeVisualTier \<lparr>px_billing_unit = None, px_fixed_price = None, px_label = Some (js ''base''),
        px_conditions = Some [], px_cache_mode = Some Cache_generic,
        px_costs = [INPUT_COST \<mapsto> zero_num, OUTPUT_COST \<mapsto> zero_num]\<rparr>]"

definition normalizeVisualConfig :: "VisualConfig option \<Rightarrow> VisualConfig" where
  "normalizeVisualConfig config =
     (case config of
        None \<Rightarrow> createDefaultVisualConfig
      | Some tiers \<Rightarrow>
          if tiers = [] then createDefaultVisualConfig else map (\<lambda>t. normalizeVisualTier (as_partial t)) tiers)"

section \<open>Writing expressions\<close>

definition bound_text :: "condition_value \<Rightarrow> jsstr" where
  "bound_text v = (case v of Value_number x \<Rightarrow> num_to_string x | Value_text s \<Rightarrow> s)"

definition tier_condition_text :: "TierConditionInput \<Rightarrow> jsstr" where
  "tier_condition_text c = ti_var c @ js '' '' @ ti_op c @ js '' '' @ bound_text (ti_bound c)"

definition buildConditionStr :: "TierConditionInput list \<Rightarrow> jsstr" where
  "buildConditionStr conditions =
     join (js '' && '')
       (map tier_condition_text (filter (\<lambda>c. ti_var c \<noteq> [] \<and> ti_op c \<noteq> [] \<and> ti_bound c \<noteq> Value_text []) conditions))"

definition cost_term :: "jsstr \<Rightarrow> jsnum \<Rightarrow> jsstr" where
  "cost_term v x = v @ js '' * '' @ num_to_string x"

definition buildTierBodyExpr :: "VisualTier \<Rightarrow> jsstr" where
  "buildTierBodyExpr tier =
     (if xt_billing_unit tier = Some Unit_request
      then js ''fixed('' @ (case xt_fixed_price tier of Some p \<Rightarrow> p | None \<Rightarrow> []) @ js '')''
      else
        join (js '' + '')
          (cost_term (js ''p'') (cost_or_zero (xt_costs tier INPUT_COST)) #
           cost_term (js ''c'') (cost_or_zero (xt_costs tier OUTPUT_COST)) #
           concat (map (\<lambda>(field, exprVar).
             let v = cost_or_zero (xt_costs tier field)
             in if \<not> js_num_eq v zero_num then [cost_term exprVar v] else []) BILLING_CACHE_VAR_MAP)))"

definition tier_text :: "jsstr \<Rightarrow> VisualTier \<Rightarrow> jsstr" where
  "tier_text label tier = js ''tier('' @ [34] @ label @ [34] @ js '', '' @ buildTierBodyExpr tier @ js '')''"

definition tier_part :: "nat \<Rightarrow> nat \<times> VisualTier \<Rightarrow> jsstr" where
  "tier_part n = (\<lambda>(i, tier).
     let label = (if xt_label tier \<noteq> [] then xt_label tier else js ''tier_'' @ digits_of (int i + 1));
         body = tier_text label tier;
         cond = buildConditionStr (xt_conditions tier)
     in if Suc i < n \<and> cond \<noteq> [] then cond @ js '' ? '' @ body else body)"

definition generateExprFromVisualConfig :: "VisualConfig option \<Rightarrow> jsstr" where
  "generateExprFromVisualConfig config =
     (case config of
        None \<Rightarrow> js ''p * 0 + c * 0''
      | Some [] \<Rightarrow> js ''p * 0 + c * 0''
      | Some [tier] \<Rightarrow>
          (let body = tier_text (if xt_label tier \<noteq> [] then xt_label tier else js ''default'') tier;
               cond = buildConditionStr (xt_conditions tier)
           in if cond \<noteq> [] then cond @ js '' ? '' @ body @ js '' : p * 0 + c * 0'' else body)
      | Some tiers \<Rightarrow> join (js '' : '') (map (tier_part (length tiers)) (enumerate 0 tiers)))"

section \<open>Reading expressions\<close>

text \<open>\<open>[\d.eE+-]\<close> and \<open>[\d.eE+]\<close>.\<close>

definition is_cost_char :: "code_unit \<Rightarrow> bool" where
  "is_cost_char x \<longleftrightarrow> is_digit x \<or> x \<in> {46, 101, 69, 43, 45}"

definition is_bound_char :: "code_unit \<Rightarrow> bool" where
  "is_bound_char x \<longleftrightarrow> is_digit x \<or> x \<in> {46, 101, 69, 43}"

definition spaced :: "jsstr \<Rightarrow> regex" where
  "spaced s = re_list [re_spaces, re_text s, re_spaces]"

definition cost_number :: "nat \<Rightarrow> regex" where
  "cost_number n = Re_group n (re_plus (Re_char is_cost_char))"

text \<open>\<open>\s*\*\s*([\d.eE+-]+)\<close> after the name of a variable.\<close>

definition cost_factor :: "nat \<Rightarrow> regex" where
  "cost_factor n = re_list [spaced (js ''*''), cost_number n]"

definition cost_summand :: "nat \<times> jsstr \<Rightarrow> regex" where
  "cost_summand = (\<lambda>(n, exprVar). re_list [spaced (js ''+''), re_text exprVar, cost_factor n])"

text \<open>\<open>bodyPat\<close>, whose groups are numbered from \<open>n\<close>.\<close>

definition bodyPat :: "nat \<Rightarrow> regex" where
  "bodyPat n =
     re_list ([re_text (js ''p''), cost_factor n, spaced (js ''+''), re_text (js ''c''), cost_factor (n + 1)] @
       map (\<lambda>g. Re_opt (cost_summand g)) (enumerate (n + 2) (map snd BILLING_CACHE_VAR_MAP)))"

text \<open>\<open>tier\("([^"]*)",\s*bodyPat\)\<close>, with the label as group \<open>n\<close>.\<close>

definition tierPat :: "nat \<Rightarrow> regex" where
  "tierPat n =
     re_list [re_text (js ''tier('' @ [34]), Re_group n (Re_star (Re_char (\<lambda>x. x \<noteq> 34))), re_text [34, 44], re_spaces,
       bodyPat (n + 1), re_text (js '')'')]"

definition singleRe :: regex where
  "singleRe = Re_seq (tierPat 1) Re_end"

definition condVar :: regex where
  "condVar = re_choice [re_text (js ''p''), re_text (js ''c''), re_text (js ''len'')]"

definition condOp :: regex where
  "condOp = re_choice [re_text (js ''<''), re_text (js ''<=''), re_text (js ''>''), re_text (js ''>='')]"

definition condPat :: regex where
  "condPat = re_list [condVar, re_spaces, condOp, re_spaces, re_plus (Re_char is_bound_char)]"

definition condGroup :: regex where
  "condGroup = Re_group 1 (Re_seq condPat (Re_star (Re_seq (spaced (js ''&&'')) condPat)))"

definition tierRe :: regex where
  "tierRe = Re_seq (Re_opt (Re_seq condGroup (spaced (js ''?'')))) (tierPat 2)"

definition splitRe :: regex where
  "splitRe = spaced (js ''&&'')"

text \<open>\<open>/^(p|c|len)\s*(<|<=|>|>=)\s*([\d.eE+]+)$/\<close>.\<close>

definition conditionRe :: regex where
  "conditionRe =
     re_list [Re_group 1 condVar, re_spaces, Re_group 2 condOp, re_spaces, Re_group 3 (re_plus (Re_char is_bound_char)), Re_end]"

definition captured :: "captures \<Rightarrow> nat \<Rightarrow> jsstr" where
  "captured c n = (case capture c n of Some s \<Rightarrow> s | None \<Rightarrow> [])"

definition read_condition :: "jsstr \<Rightarrow> TierConditionInput list" where
  "read_condition cp =
     (case first_match conditionRe (trim cp) of
        Some (_, m) \<Rightarrow>
          [\<lparr>ti_var = captured m 1, ti_op = captured m 2, ti_bound = Value_number (js_Number (captured m 3))\<rparr>]
      | None \<Rightarrow> [])"

definition read_conditions :: "jsstr \<Rightarrow> TierConditionInput list" where
  "read_conditions condStr = (if condStr = [] then [] else concat (map read_condition (re_split splitRe condStr [])))"

text \<open>A tier from the groups of a match, the label being group \<open>n\<close>.\<close>

definition matched_tier :: "nat \<Rightarrow> TierConditionInput list \<Rightarrow> captures \<Rightarrow> PartialTier" where
  "matched_tier n conditions m =
     \<lparr>px_billing_unit = None, px_fixed_price = None, px_label = Some (captured m n), px_conditions = Some conditions,
      px_cache_mode = None,
      px_costs = (\<lambda>field.
        case map_of (map (\<lambda>(i, f, _). (f, i)) (enumerate (n + 3) BILLING_CACHE_VAR_MAP)) field of
          Some i \<Rightarrow> map_option js_Number (capture m i)
        | None \<Rightarrow>
            if field = INPUT_COST then Some (js_Number (captured m (n + 1)))
            else if field = OUTPUT_COST then Some (js_Number (captured m (n + 2)))
            else None)\<rparr>"

definition no_blanks :: "jsstr \<Rightarrow> jsstr" where
  "no_blanks s = filter (\<lambda>x. \<not> is_space x) s"

text \<open>The text after a version such as \<open>v1:\<close>.\<close>

definition without_version :: "jsstr \<Rightarrow> jsstr" where
  "without_version s =
     (case first_match (re_list [re_text (js ''v''), re_plus (Re_char is_digit), re_text (js '':'')]) s of
        Some (t, _) \<Rightarrow> t
      | None \<Rightarrow> s)"

definition tryParseVisualConfig :: "jsstr option \<Rightarrow> VisualConfig option" where
  "tryParseVisualConfig exprStr =
     (case exprStr of
        None \<Rightarrow> None
      | Some e \<Rightarrow>
          if e = [] then None
          else
            (let body = without_version e
             in case first_match singleRe body of
                  Some (_, m) \<Rightarrow> Some (normalizeVisualConfig (Some [normalizeVisualTier (matched_tier 1 [] m)]))
                | None \<Rightarrow>
                    (let tiers = map (\<lambda>m. normalizeVisualTier (matched_tier 2 (read_conditions (captured m 1)) m))
                           (re_exec_all tierRe body)
                     in if tiers = [] then None
                        else
                          (let cfg = normalizeVisualConfig (Some tiers)
                           in if no_blanks (generateExprFromVisualConfig (Some cfg)) \<noteq> no_blanks body then None
                              else Some cfg))))"

section \<open>The estimator\<close>

definition ESTIMATOR_VARS :: "(jsstr \<times> jsstr) list" where
  "ESTIMATOR_VARS =
     [(js ''cr'', js ''cacheReadTokens''), (js ''cc'', js ''cacheCreateTokens''), (js ''cc1h'', js ''cacheCreate1hTokens''),
      (js ''img'', js ''imageTokens''), (js ''img_cr'', js ''imageCacheTokens''), (js ''img_o'', js ''imageOutputTokens''),
      (js ''ai'', js ''audioInputTokens''), (js ''ao'', js ''audioOutputTokens'')]"

text \<open>The counts by the key of the form; every key of the estimator has one.\<close>

type_synonym ExtraTokenValues = "jsstr \<Rightarrow> jsnum"

record EvalResult =
  er_cost :: jsnum
  er_matchedTier :: jsstr
  er_error :: "jsstr option"
  er_billingUnit :: "BillingUnit option"

definition buildEstimatorTokens :: "jsnum \<Rightarrow> jsnum \<Rightarrow> ExtraTokenValues \<Rightarrow> (jsstr \<times> jsval) list" where
  "buildEstimatorTokens promptTokens completionTokens extra =
     [(js ''p'', JNum promptTokens), (js ''c'', JNum completionTokens),
      (js ''len'', JNum (fold (\<lambda>key n. js_add n (extra key))
         [js ''cacheReadTokens'', js ''imageCacheTokens'', js ''imageTokens'', js ''audioInputTokens'',
          js ''cacheCreateTokens'', js ''cacheCreate1hTokens''] promptTokens))] @
     map (\<lambda>(var, key). (var, JNum (extra key))) ESTIMATOR_VARS"

text \<open>\<open>{ ...tokens, ...context?.tokens }\<close>.\<close>

definition spread :: "('k, 'v) js_map \<Rightarrow> ('k, 'v) js_map \<Rightarrow> ('k, 'v) js_map" where
  "spread a b = fold (\<lambda>(k, v) m. js_map_set k v m) b a"

definition empty_context :: BillingSimulationContext where
  "empty_context = \<lparr>cx_imageCount = None, cx_tokens = None, cx_request = None, cx_usage = None, cx_now = None\<rparr>"

definition evalExprLocally ::
  "host \<Rightarrow> jsstr \<Rightarrow> jsnum \<Rightarrow> jsnum \<Rightarrow> ExtraTokenValues \<Rightarrow> BillingSimulationContext option \<Rightarrow> EvalResult" where
  "evalExprLocally H exprStr promptTokens completionTokens extra context =
     (if trim exprStr = [] then \<lparr>er_cost = zero_num, er_matchedTier = [], er_error = None, er_billingUnit = None\<rparr>
      else
        (let given = (case context of Some X \<Rightarrow> X | None \<Rightarrow> empty_context);
             tokens = spread (buildEstimatorTokens promptTokens completionTokens extra)
               (case cx_tokens given of Some ts \<Rightarrow> ts | None \<Rightarrow> [])
         in case evaluate_compiled H (compile_source exprStr) (given\<lparr>cx_tokens := Some tokens\<rparr>) of
              Eval_success s \<Rightarrow>
                \<lparr>er_cost = bs_cost s, er_matchedTier = bs_matchedTier s, er_error = None,
                 er_billingUnit = (if bs_unit s = Unit_request then Some (bs_unit s) else None)\<rparr>
            | Eval_failure f \<Rightarrow>
                \<lparr>er_cost = zero_num, er_matchedTier = [], er_error = Some (diag_detail (failure_diagnostic f)), er_billingUnit = None\<rparr>))"

definition exprUsesExtraVars :: "jsstr \<Rightarrow> bool" where
  "exprUsesExtraVars exprStr =
     (if exprStr = [] then False
      else
        (case compile_source exprStr of
           Failed _ \<Rightarrow> False
         | Ready compiled \<Rightarrow> list_ex (\<lambda>(var, _). var \<in> set (compiled_variables compiled)) ESTIMATOR_VARS))"

end
