(* ===== verification/JS_Roundtrip.thy ===== *)
theory JS_Roundtrip
  imports JS_Numeral
begin

text \<open>
  Numbers survive being written and read: \<open>Number(String(x))\<close> is \<open>x\<close> for every finite double that is not
  negative. Seventeen significant digits are enough for a double, the decimal exponent is exact over the
  range of doubles, and the text that is written is read as the decimal it stands for.
\<close>

section \<open>Powers of two and ten\<close>

lemma ten_le_two:
  assumes "196 * a \<le> 59 * b"
  shows "(10::rat) ^ a \<le> 2 ^ b"
proof -
  have "((10::rat) ^ a) ^ 59 = (10 ^ 59) ^ a" by (simp only: power_mult [symmetric] mult.commute)
  also have "\<dots> \<le> (2 ^ 196) ^ a" by (rule power_mono) simp_all
  also have "\<dots> = 2 ^ (196 * a)" by (simp only: power_mult)
  also have "\<dots> \<le> 2 ^ (59 * b)" using assms by (intro power_increasing) simp_all
  also have "\<dots> = (2 ^ b) ^ 59" by (simp only: power_mult [symmetric] mult.commute)
  finally show ?thesis by (simp only: power_mono_iff zero_le_power zero_le_numeral zero_less_numeral)
qed

lemma two_le_ten:
  assumes "28 * b \<le> 93 * a"
  shows "(2::rat) ^ b \<le> 10 ^ a"
proof -
  have "((2::rat) ^ b) ^ 93 = (2 ^ 93) ^ b" by (simp only: power_mult [symmetric] mult.commute)
  also have "\<dots> \<le> (10 ^ 28) ^ b" by (rule power_mono) simp_all
  also have "\<dots> = 10 ^ (28 * b)" by (simp only: power_mult)
  also have "\<dots> \<le> 10 ^ (93 * a)" using assms by (intro power_increasing) simp_all
  also have "\<dots> = (10 ^ a) ^ 93" by (simp only: power_mult [symmetric] mult.commute)
  finally show ?thesis by (simp only: power_mono_iff zero_le_power zero_le_numeral zero_less_numeral)
qed

lemma powi_nonneg: "0 \<le> k \<Longrightarrow> (x::rat) powi k = x ^ nat k" and powi_neg: "k < 0 \<Longrightarrow> (x::rat) powi k = 1 / x ^ nat (- k)"
  by (simp_all add: power_int_def field_simps)

lemma ten_powi_le_two:
  assumes "0 \<le> b \<Longrightarrow> 196 * a \<le> 59 * b" "b < 0 \<Longrightarrow> a < 0 \<and> 28 * - b \<le> 93 * - a"
  shows "(10::rat) powi a \<le> 2 powi b"
proof (cases "0 \<le> b")
  case b: True
  show ?thesis
  proof (cases "0 \<le> a")
    case True
    then show ?thesis using assms(1) b ten_le_two [of "nat a" "nat b"] by (simp add: powi_nonneg)
  next
    case False
    have "(10::rat) powi a \<le> 1" using False by (simp add: powi_neg)
    also have "(1::rat) \<le> 2 powi b" using b by (simp add: powi_nonneg)
    finally show ?thesis .
  qed
next
  case False
  then have "(2::rat) ^ nat (- b) \<le> 10 ^ nat (- a)" using assms(2) by (intro two_le_ten) linarith
  then show ?thesis using False assms(2) by (simp add: powi_neg frac_le)
qed

lemma two_powi_le_ten:
  assumes "0 \<le> b \<Longrightarrow> 0 \<le> a \<and> 28 * b \<le> 93 * a" "b < 0 \<Longrightarrow> 196 * - a \<le> 59 * - b"
  shows "(2::rat) powi b \<le> 10 powi a"
proof (cases "0 \<le> b")
  case True
  then have "(2::rat) ^ nat b \<le> 10 ^ nat a" using assms(1) by (intro two_le_ten) linarith
  then show ?thesis using True assms(1) by (simp add: powi_nonneg)
next
  case b: False
  show ?thesis
  proof (cases "a < 0")
    case True
    then have "(10::rat) ^ nat (- a) \<le> 2 ^ nat (- b)" using b assms(2) by (intro ten_le_two) linarith
    then show ?thesis using True b by (simp add: powi_neg frac_le)
  next
    case False
    have "(2::rat) powi b \<le> 1" using b by (simp add: powi_neg)
    also have "(1::rat) \<le> 10 powi a" using False by (simp add: powi_nonneg)
    finally show ?thesis .
  qed
qed

lemma scaled_le: "x * 262144 \<le> y * 262144 \<Longrightarrow> x \<le> (y::int)"
  by simp

lemma log_bounds:
  fixes e k :: int
  assumes "k * 262144 \<le> e * 78913" "e * 78913 < (k + 1) * 262144" "-1100 \<le> e" "e \<le> 1100"
  shows "196 * (k - 1) \<le> 59 * e" "28 * - e \<le> 93 * - (k - 1)" "28 * (e + 1) \<le> 93 * (k + 2)" "196 * - (k + 2) \<le> 59 * - (e + 1)"
  by (rule scaled_le, use assms in \<open>simp add: algebra_simps\<close>)+

text \<open>The decimal exponent is exact on the range of doubles.\<close>

lemma dec_exp_spec:
  assumes "0 < m" "-1100 \<le> flog2 m" "flog2 m \<le> 1100"
  shows "10 powi (dec_exp m - 1) \<le> m" "m < 10 powi dec_exp m"
proof -
  define e k where ek: "e = flog2 m" "k = (e * 78913) div 262144"
  have k: "k * 262144 \<le> e * 78913" "e * 78913 < (k + 1) * 262144"
    unfolding ek(2) by (simp_all add: div_mod_decomp_int [of "e * 78913" 262144, symmetric])
  have "(10::rat) powi (k - 1) \<le> 2 powi e"
    using log_bounds [OF k] assms(2,3) k by (intro ten_powi_le_two conjI) (simp_all add: ek(1))
  then have lo: "10 powi (k - 1) \<le> m" using flog2_spec(1) [OF assms(1)] unfolding ek(1) by linarith
  have "(2::rat) powi (e + 1) \<le> 10 powi (k + 2)"
    using log_bounds [OF k] assms(2,3) k by (intro two_powi_le_ten conjI) (simp_all add: ek(1))
  then have hi: "m < 10 powi (k + 2)" using flog2_spec(2) [OF assms(1)] unfolding ek(1) by linarith
  show "10 powi (dec_exp m - 1) \<le> m" "m < 10 powi dec_exp m"
    using lo hi by (auto simp: dec_exp_def Let_def ek [symmetric] not_less add.commute)
qed

section \<open>Seventeen digits are enough\<close>

lemma rne_near:
  assumes "\<bar>q - of_int w\<bar> < 1 / 2"
  shows "rne q = w"
proof (cases "of_int w \<le> q")
  case True
  then have "\<lfloor>q\<rfloor> = w" using assms by (intro floor_unique) linarith+
  then show ?thesis using assms True by (simp add: rne_def Let_def)
next
  case False
  then have "\<lfloor>q\<rfloor> = w - 1" using assms by (intro floor_unique; simp only: of_int_diff of_int_1)
  then show ?thesis using assms False by (simp add: rne_def Let_def)
qed

lemma dround_grid_near:
  assumes "0 < q" "m = of_int w * 2 powi dexp q" "\<bar>q - m\<bar> < 2 powi (dexp q - 1)"
  shows "dround q = m"
proof -
  have "\<bar>q / 2 powi dexp q - of_int w\<bar> = \<bar>q - m\<bar> / 2 powi dexp q"
    by (simp add: assms(2) field_simps abs_divide flip: diff_divide_distrib)
  also have "\<dots> < 2 powi (dexp q - 1) / 2 powi dexp q" using assms(3) by (simp add: divide_strict_right_mono)
  also have "\<dots> = 1 / 2" by (simp add: power_int_diff)
  finally have "rne (q / 2 powi dexp q) = w" by (rule rne_near)
  then show ?thesis using assms(1,2) by (simp add: dround_def)
qed

text \<open>A number on the grid of its own last place lies on every finer grid.\<close>

lemma finer_grid:
  assumes "m = of_int w * 2 powi a" "b \<le> a"
  obtains w' where "(m::rat) = of_int w' * 2 powi b"
proof
  show "m = of_int (w * 2 ^ nat (a - b)) * 2 powi b"
    using assms by (simp add: powi_nonneg [symmetric] power_int_add [symmetric])
qed

lemma grid_gap:
  assumes "x = of_int u * (2::rat) powi d" "y = of_int v * 2 powi d" "x < y"
  shows "x + 2 powi d \<le> y"
proof -
  have "u < v" using assms by simp
  then have "of_int (u + 1) \<le> (of_int v :: rat)" by (simp only: of_int_le_iff)
  then have "of_int (u + 1) * 2 powi d \<le> of_int v * (2::rat) powi d" by (rule mult_right_mono) simp
  then show ?thesis using assms(1,2) by (simp add: distrib_right)
qed

lemma power_grid: "d \<le> e \<Longrightarrow> \<exists>u. (2::rat) powi e = of_int u * 2 powi d"
  using finer_grid [of "2 powi e" 1 e d] by auto

lemma dround_near:
  assumes "0 < m" "dround m = m" "\<bar>q - m\<bar> < m / 2 ^ 54"
  shows "dround q = m"
proof -
  define e d where ed: "e = flog2 m" "d = dexp m"
  obtain w where w: "m = of_int w * 2 powi d"
    using assms(1,2) ed(2) by (metis dround_def less_numeral_extra(3))
  have e: "2 powi e \<le> m" "m < 2 powi (e + 1)" using flog2_spec [OF assms(1)] ed(1) by simp_all
  have d: "e - 52 \<le> d" using ed by (simp add: dexp_def)
  have half: "m / 2 ^ 54 < 2 powi (e - 53)" using e(2) by (simp add: power_int_add power_int_diff)
  have half_le: "(2::rat) powi (e - 53) \<le> 2 powi (d - 1)" using d by (simp add: powi_mono_rat)
  have "m / 2 ^ 54 \<le> m" using assms(1) by simp
  then have q0: "0 < q" using assms(1,3) by linarith
  have step: ?thesis if dq: "dexp q \<le> d" and near: "m / 2 ^ 54 \<le> 2 powi (dexp q - 1)"
  proof -
    obtain w' where w': "m = of_int w' * 2 powi dexp q" using finer_grid [OF w dq] by blast
    show ?thesis using assms(3) near by (intro dround_grid_near [OF q0 w']) linarith
  qed
  have "0 < w" using assms(1) w two_powi_pos [of d] by (auto simp: zero_less_mult_iff simp del: two_powi_pos)
  then have "1 * 2 powi d \<le> m" unfolding w by (intro mult_right_mono) simp_all
  then have "(2::rat) powi d < 2 powi (e + 1)" using e(2) by linarith
  then have de: "d \<le> e" using powi_mono_rat [of "e + 1" d] by linarith
  then have "d \<le> e + 1" by simp
  then obtain u where u: "(2::rat) powi (e + 1) = of_int u * 2 powi d" using power_grid by blast
  have "m + 2 powi d \<le> 2 powi (e + 1)" using grid_gap [OF w u e(2)] .
  moreover have half_d: "(2::rat) powi (d - 1) \<le> 2 powi d" by (simp add: powi_mono_rat)
  ultimately have "q < 2 powi (e + 1)" using assms(3) half half_le by linarith
  then have qe: "flog2 q \<le> e" 
    using flog2_spec(1) [OF q0] powi_mono_rat [of "e + 1" "flog2 q"] by linarith
  then have dq: "dexp q \<le> d" using ed by (simp add: dexp_def)
  show ?thesis
  proof (cases "2 powi e \<le> q")
    case True
    then have "flog2 q = e" using flog2_unique \<open>q < 2 powi (e + 1)\<close> by blast
    then have "dexp q = d" using ed by (simp add: dexp_def)
    then show ?thesis using step half half_le by simp
  next
    case False
    have "m = 2 powi e"
    proof (rule ccontr)
      assume "m \<noteq> 2 powi e"
      then have "2 powi e < m" using e(1) by simp
      moreover obtain u where "(2::rat) powi e = of_int u * 2 powi d" using power_grid [OF de] by blast
      ultimately have "2 powi e + 2 powi d \<le> m" using grid_gap w by blast
      then show False using False assms(3) half half_le half_d by linarith
    qed
    then have near: "m / 2 ^ 54 = 2 powi (e - 54)" by (simp add: power_int_diff)
    have "(2::rat) powi (e - 54) < 2 powi (e - 1)" using powi_mono_rat [of "e - 1" "e - 54"] by linarith
    moreover have "(2::rat) powi e = 2 * 2 powi (e - 1)" by (simp add: power_int_diff)
    ultimately have "2 powi (e - 1) \<le> q" using assms(3) near \<open>m = 2 powi e\<close> by linarith
    then have "flog2 q = e - 1" using False by (intro flog2_unique) simp_all
    then have "e - 54 \<le> dexp q - 1" by (simp add: dexp_def)
    then show ?thesis using step [OF dq] near by (simp add: powi_mono_rat)
  qed
qed

lemma candidate_enclosure:
  fixes k :: int
  assumes "0 < m" "-1100 \<le> flog2 m" "flog2 m \<le> 1100"
  defines "n \<equiv> dec_exp m"
  defines "s \<equiv> \<lfloor>m * 10 powi (k - n)\<rfloor>"
  shows "of_int s * 10 powi (n - k) \<le> m" "m < of_int (s + 1) * 10 powi (n - k)"
    "1 \<le> k \<Longrightarrow> 10 ^ nat (k - 1) \<le> s" "1 \<le> k \<Longrightarrow> s < 10 ^ nat k"
proof -
  have spec: "10 powi (n - 1) \<le> m" "m < 10 powi n" using dec_exp_spec [OF assms(1-3)] n_def by simp_all
  have s: "of_int s \<le> m * 10 powi (k - n)" "m * 10 powi (k - n) < of_int s + 1" unfolding s_def by linarith+
  have undo: "m * 10 powi (k - n) * 10 powi (n - k) = m" by (simp add: mult.assoc power_int_add [symmetric])
  show "of_int s * 10 powi (n - k) \<le> m"
    using mult_right_mono [OF s(1), of "10 powi (n - k)"] undo by simp
  show "m < of_int (s + 1) * 10 powi (n - k)"
    using mult_strict_right_mono [OF s(2), of "10 powi (n - k)"] undo by simp
  have "10 powi (n - 1) * 10 powi (k - n) \<le> m * 10 powi (k - n)" "m * 10 powi (k - n) < 10 powi n * 10 powi (k - n)"
    using spec by (intro mult_right_mono mult_strict_right_mono; simp)+
  then have "10 powi (k - 1) \<le> m * 10 powi (k - n)" "m * 10 powi (k - n) < 10 powi k"
    by (simp_all add: power_int_add [symmetric])
  then show "10 ^ nat (k - 1) \<le> s" "s < 10 ^ nat k" if "1 \<le> k"
    using that unfolding s_def by (simp_all add: le_floor_iff floor_less_iff powi_nonneg)
qed

lemma candidate_hi:
  assumes "1 \<le> k"
  shows "candidate_value (if s + 1 = 10 ^ nat k then (n + 1, k, 10 ^ nat (k - 1)) else (n, k, s + 1))
    = of_int (s + 1) * 10 powi (n - k)"
proof (cases "s + 1 = 10 ^ nat k")
  case True
  have "(10::rat) ^ nat (k - 1) * 10 powi (n + 1 - k) = 10 powi (k - 1) * 10 powi (n + 1 - k)"
    using assms by (simp add: powi_nonneg)
  also have "\<dots> = 10 powi k * 10 powi (n - k)" by (simp add: power_int_add [symmetric])
  also have "10 powi k = (of_int (s + 1) :: rat)" using assms by (simp only: True) (simp add: powi_nonneg)
  finally show ?thesis unfolding candidate_value_def True by simp
next
  case False
  then show ?thesis by (simp add: candidate_value_def)
qed

lemma candidates_17:
  assumes "0 < m" "-1100 \<le> flog2 m" "flog2 m \<le> 1100"
  shows "\<bar>candidate_value (hd (candidates m 17)) - m\<bar> < m / 2 ^ 54"
proof -
  define n s where ns: "n = dec_exp m" "s = \<lfloor>m * 10 powi (17 - n)\<rfloor>"
  define u where u: "u = (10::rat) powi (n - 17)"
  have lo: "of_int s * u \<le> m" and hi: "m < of_int (s + 1) * u"
    using candidate_enclosure(1,2) [OF assms, of 17] by (simp_all add: ns u)
  have "10 powi (n - 1) \<le> m" using dec_exp_spec(1) [OF assms] ns(1) by simp
  then have "u * 10 ^ 16 \<le> m" by (simp add: u power_int_diff)
  then have small: "u / 2 < m / 2 ^ 54" using assms(1) by simp
  let ?lo = "(n, 17, s)" and ?hi = "if s + 1 = 10 ^ nat 17 then (n + 1, 17, 10 ^ nat (17 - 1)) else (n, 17, s + 1)"
  define v where v: "v = of_int s * u"
  have l: "candidate_value ?lo = v" by (simp add: candidate_value_def u v)
  have h: "candidate_value ?hi = v + u" using candidate_hi [of 17 s n] by (simp add: u v distrib_right)
  have "hd (candidates m 17) = (if m - v \<le> v + u - m then ?lo else ?hi)"
    unfolding candidates_def Let_def ns(1) [symmetric] ns(2) [symmetric] l h by simp
  then have "candidate_value (hd (candidates m 17)) = (if m - v \<le> v + u - m then v else v + u)"
    using l h by presburger
  moreover have "v \<le> m" "m < v + u" using lo hi by (simp_all add: v distrib_right)
  ultimately have "\<bar>candidate_value (hd (candidates m 17)) - m\<bar> \<le> u / 2" by (auto split: if_splits)
  then show ?thesis using small by linarith
qed

lemma flog2_double:
  assumes "0 < m" "mk_num False m = Fin False m"
  shows "-1074 \<le> flog2 m" "flog2 m \<le> 1023" "dround m = m"
proof -
  show d: "dround m = m" using assms(2) by (auto simp: mk_num_def Let_def split: if_splits)
  then show "flog2 m \<le> 1023" using assms by (auto simp: mk_num_def Let_def split: if_splits)
  obtain w where w: "m = of_int w * 2 powi dexp m" using assms(1) d by (metis dround_def less_numeral_extra(3))
  have "0 < w" using assms(1) w two_powi_pos [of "dexp m"] by (metis of_int_0_less_iff zero_less_mult_pos2)
  then have "1 * 2 powi dexp m \<le> of_int w * (2::rat) powi dexp m" by (intro mult_right_mono) simp_all
  then have "2 powi dexp m \<le> m" using w by simp
  then have "(2::rat) powi dexp m < 2 powi (flog2 m + 1)" using flog2_spec(2) [OF assms(1)] by linarith
  then have "dexp m < flog2 m + 1" using powi_mono_rat [of "flog2 m + 1" "dexp m"] by linarith
  then show "-1074 \<le> flog2 m" by (simp add: dexp_def)
qed

text \<open>A decimal \<open>(n, k, s)\<close> whose digits have \<open>k\<close> places and that reads as \<open>m\<close>.\<close>

definition places_ok :: "int \<times> int \<times> int \<Rightarrow> bool" where
  "places_ok c \<longleftrightarrow> (case c of (n, k, s) \<Rightarrow> 1 \<le> k \<and> 10 ^ nat (k - 1) \<le> s \<and> s < 10 ^ nat k)"

lemma candidates_places:
  assumes "0 < m" "mk_num False m = Fin False m" "1 \<le> k" "c \<in> set (candidates m k)"
  shows "places_ok c"
proof -
  note range = flog2_double [OF assms(1,2)]
  define n s where ns: "n = dec_exp m" "s = \<lfloor>m * 10 powi (k - n)\<rfloor>"
  have s: "10 ^ nat (k - 1) \<le> s" "s < 10 ^ nat k"
    using candidate_enclosure(3,4) [OF assms(1), of k] range assms(3) by (simp_all add: ns)
  have "(10::int) ^ nat (k - 1) < 10 ^ nat k" using assms(3) by (intro power_strict_increasing) auto
  then show ?thesis using s assms(3,4)
    by (auto simp: candidates_def Let_def ns(1) [symmetric] ns(2) [symmetric] places_ok_def split: if_splits)
qed

lemma mk_num_17:
  assumes "0 < m" "mk_num False m = Fin False m"
  shows "mk_num False (candidate_value (hd (candidates m 17))) = Fin False m"
proof -
  note range = flog2_double [OF assms]
  have "\<bar>candidate_value (hd (candidates m 17)) - m\<bar> < m / 2 ^ 54"
    using range by (intro candidates_17 [OF assms(1)]) linarith+
  then have "dround (candidate_value (hd (candidates m 17))) = dround m"
    unfolding range(3) by (rule dround_near [OF assms(1) range(3)])
  then have "mk_num False (candidate_value (hd (candidates m 17))) = mk_num False m" by (simp only: mk_num_def)
  then show ?thesis using assms(2) by (rule trans)
qed

lemma shortest_from_spec:
  assumes "0 < m" "mk_num False m = Fin False m"
  shows "1 \<le> k \<Longrightarrow> k + int fuel = 17 \<Longrightarrow>
    places_ok (shortest_from m k fuel) \<and> mk_num False (candidate_value (shortest_from m k fuel)) = Fin False m"
proof (induction fuel arbitrary: k)
  case 0
  have "hd (candidates m k) \<in> set (candidates m k)" by (simp add: candidates_def Let_def)
  then have "places_ok (hd (candidates m k))" using candidates_places [OF assms 0(1)] by blast
  then show ?case using 0 mk_num_17 [OF assms] by simp
next
  case (Suc fuel)
  show ?case
  proof (cases "find (\<lambda>c. mk_num False (candidate_value c) = Fin False m) (candidates m k)")
    case None
    then show ?thesis using Suc by simp
  next
    case (Some c)
    then have "c \<in> set (candidates m k)" "mk_num False (candidate_value c) = Fin False m"
      by (auto simp: find_Some_iff)
    then show ?thesis using Some candidates_places [OF assms Suc.prems(1)] by simp
  qed
qed

lemma shortest_spec:
  assumes "0 < m" "mk_num False m = Fin False m"
  obtains n k s where "shortest m = (n, k, s)" "1 \<le> k" "10 ^ nat (k - 1) \<le> s" "s < 10 ^ nat k"
    "mk_num False (of_int s * 10 powi (n - k)) = Fin False m"
  using shortest_from_spec [OF assms, of 1 16]
  by (cases "shortest m") (auto simp: shortest_def places_ok_def candidate_value_def)

section \<open>The text of a number\<close>

lemma length_digits_of:
  "0 < k \<Longrightarrow> 10 ^ (k - 1) \<le> n \<Longrightarrow> n < 10 ^ k \<Longrightarrow> length (digits_of n) = k"
proof (induction k arbitrary: n)
  case (Suc k)
  show ?case
  proof (cases "k = 0")
    case True
    then show ?thesis using Suc.prems by (simp add: digits_of.simps [of n])
  next
    case False
    then have k: "(10::int) ^ k = 10 * 10 ^ (k - 1)" by (cases k) simp_all
    have "(10::int) \<le> 10 ^ k" using False by (simp add: self_le_power)
    then have "10 \<le> n" using Suc.prems(2) by simp
    moreover have "10 ^ (k - 1) \<le> n div 10" "n div 10 < 10 ^ k"
      using Suc.prems(2,3) k by (simp_all add: div_le_dividend less_mult_imp_div_less mult.commute)
    ultimately show ?thesis using Suc.IH [of "n div 10"] False by (simp add: digits_of.simps [of n])
  qed
qed simp

text \<open>A text of digits, a fraction and an exponent is read as the decimal it stands for.\<close>

definition decimal_text :: "jsstr \<Rightarrow> jsstr \<Rightarrow> int option \<Rightarrow> jsstr" where
  "decimal_text ds fs ex =
     ds @ (if fs = [] then [] else 46 # fs) @ (case ex of None \<Rightarrow> [] | Some e \<Rightarrow> exponent_text e)"

lemma takeWhile_digits:
  assumes "list_all is_digit ds" "rest = [] \<or> \<not> is_digit (hd rest)"
  shows "takeWhile is_digit (ds @ rest) = ds" "drop (length ds) (ds @ rest) = rest"
  using assms by (induction ds) (auto simp: takeWhile_eq_Nil_iff)

lemma digits_of_all: "0 \<le> n \<Longrightarrow> list_all is_digit (digits_of n)"
  by (auto simp: list_all_iff digits_of_digits)

lemma takeWhile_digits_of: "0 \<le> n \<Longrightarrow> takeWhile is_digit (digits_of n) = digits_of n"
  using takeWhile_digits(1) [OF digits_of_all, of n "[]"] by simp

lemma exponent_prefix_text: "exponent_prefix (exponent_text e) = exponent_text e"
  by (cases "e < 0") (simp_all add: exponent_prefix_def exponent_text_def sign_prefix_def Let_def takeWhile_digits_of)

abbreviation expo :: "int option \<Rightarrow> jsstr" where
  "expo ex \<equiv> (case ex of None \<Rightarrow> [] | Some e \<Rightarrow> exponent_text e)"

lemma expo_head: "expo ex = [] \<or> \<not> is_digit (hd (expo ex)) \<and> hd (expo ex) \<noteq> 46"
  by (cases ex) (simp_all add: exponent_text_def is_digit_def)

lemma mantissa_prefix_text:
  assumes "list_all is_digit ds" "ds \<noteq> []" "list_all is_digit fs"
  shows "mantissa_prefix (decimal_text ds fs ex) = ds @ (if fs = [] then [] else 46 # fs)"
proof -
  let ?rest = "(if fs = [] then [] else 46 # fs) @ expo ex"
  have r: "?rest = [] \<or> \<not> is_digit (hd ?rest)" using expo_head [of ex] by (auto simp: is_digit_def)
  have f: "takeWhile is_digit (fs @ expo ex) = fs"
    using takeWhile_digits(1) [OF assms(3)] expo_head [of ex] by blast
  show ?thesis
    unfolding mantissa_prefix_def decimal_text_def takeWhile_digits [OF assms(1) r]
    using f assms(2) expo_head [of ex] by (auto simp: strip_char_def split: list.splits)
qed

lemma match_decimal_text:
  assumes "list_all is_digit ds" "ds \<noteq> []" "list_all is_digit fs"
  shows "match_number (decimal_text ds fs ex) = decimal_text ds fs ex"
proof -
  have "exponent_prefix (expo ex) = expo ex" by (cases ex) (simp_all add: exponent_prefix_text, simp add: exponent_prefix_def)
  then show ?thesis
    using assms(2) unfolding match_number_def mantissa_prefix_text [OF assms] by (simp add: decimal_text_def)
qed

lemma decimal_value_text:
  assumes "list_all is_digit ds" "list_all is_digit fs"
  shows "decimal_value (decimal_text ds fs ex)
    = of_int (digits_val (ds @ fs)) * 10 powi ((case ex of None \<Rightarrow> 0 | Some e \<Rightarrow> e) - int (length fs))"
proof -
  let ?rest = "(if fs = [] then [] else 46 # fs) @ expo ex"
  have r: "?rest = [] \<or> \<not> is_digit (hd ?rest)" using expo_head [of ex] by (auto simp: is_digit_def)
  have f: "takeWhile is_digit (fs @ expo ex) = fs" "drop (length fs) (fs @ expo ex) = expo ex"
    using takeWhile_digits [OF assms(2)] expo_head [of ex] by blast+
  have split46: "strip_char 46 ?rest = (if fs = [] then None else Some (fs @ expo ex))"
    using expo_head [of ex] by (auto simp: strip_char_def split: list.splits)
  have "digits_of k = c # cs \<Longrightarrow> 0 \<le> k \<Longrightarrow> c \<noteq> 45 \<and> c \<noteq> 43" for k c cs
    using digits_of_digits [of k c] by (auto simp: is_digit_def)
  then have ex: "(case strip_char 45 (tl (expo ex)) of Some r \<Rightarrow> - digits_val r
      | None \<Rightarrow> (case strip_char 43 (tl (expo ex)) of Some r \<Rightarrow> digits_val r | None \<Rightarrow> digits_val (tl (expo ex))))
    = (case ex of None \<Rightarrow> 0 | Some e \<Rightarrow> e)"
    by (cases ex) (auto simp: strip_char_def exponent_text_def digits_val_digits_of, simp_all add: digits_val_def)
  show ?thesis
    unfolding decimal_value_def decimal_text_def Let_def takeWhile_digits [OF assms(1) r] split46
    by (cases "fs = []") (simp_all add: f ex cong: option.case_cong)
qed

text \<open>The text of a number is a text of this form for its shortest decimal.\<close>

lemma zeros_digits: "list_all is_digit (zeros n)"
  by (auto simp: zeros_def list_all_iff is_digit_def)

lemma digits_val_zeros: "0 \<le> j \<Longrightarrow> digits_val (ds @ zeros j) = digits_val ds * 10 ^ nat j"
proof -
  have "digits_val (ds @ replicate i 48) = digits_val ds * 10 ^ i" for i
    by (induction i) (simp_all add: digits_val_append replicate_append_same [symmetric] flip: append_assoc)
  then show "digits_val (ds @ zeros j) = digits_val ds * 10 ^ nat j" by (simp add: zeros_def)
qed

lemma digits_val_leading: "digits_val (zeros j @ ds) = digits_val ds"
proof -
  have "foldl (\<lambda>acc c. acc * 10 + (c - 48)) 0 (replicate i (48::int)) = 0" for i by (induction i) simp_all
  then show ?thesis by (simp add: digits_val_def zeros_def)
qed

lemma magnitude_decimal:
  assumes "0 < m" "mk_num False m = Fin False m"
  obtains ds fs ex where "magnitude_string m = decimal_text ds fs ex" "list_all is_digit ds" "ds \<noteq> []" "list_all is_digit fs"
    "mk_num False (decimal_value (decimal_text ds fs ex)) = Fin False m"
proof -
  obtain n k s where sh: "shortest m = (n, k, s)" and k: "1 \<le> k" and s: "10 ^ nat (k - 1) \<le> s" "s < 10 ^ nat k"
    and rd: "mk_num False (of_int s * 10 powi (n - k)) = Fin False m"
    using shortest_spec [OF assms] .
  define ds where ds: "ds = digits_of s"
  have "0 \<le> s" using s(1) by (rule order_trans [rotated]) simp
  then have d: "list_all is_digit ds" "digits_val ds = s" "ds \<noteq> []" by (simp_all add: ds digits_of_all digits_val_digits_of)
  have "length ds = nat k" unfolding ds using k s by (intro length_digits_of) (simp_all add: nat_diff_distrib)
  then have len: "int (length ds) = k" using k by simp
  have written: "magnitude_string m = (if k \<le> n \<and> n \<le> 21 then ds @ zeros (n - k)
     else if 0 < n \<and> n \<le> 21 then take (nat n) ds @ 46 # drop (nat n) ds
     else if -6 < n \<and> n \<le> 0 then 48 # 46 # zeros (- n) @ ds else mantissa_text ds @ exponent_text (n - 1))"
    using assms(1) sh by (simp add: magnitude_string_def ds Let_def)
  show ?thesis
  proof (cases "k \<le> n \<and> n \<le> 21")
    case True
    have "decimal_value (decimal_text (ds @ zeros (n - k)) [] None) = of_int s * 10 powi (n - k)"
      using True d by (subst decimal_value_text) (simp_all add: zeros_digits digits_val_zeros powi_nonneg)
    then show ?thesis using that [of "ds @ zeros (n - k)" "[]" None] True d rd written by (simp add: decimal_text_def zeros_digits)
  next
    case c1: False
    show ?thesis
    proof (cases "0 < n \<and> n \<le> 21")
      case True
      then have nk: "n < k" using c1 by simp
      have ps: "list_all is_digit (take (nat n) ds)" "list_all is_digit (drop (nat n) ds)"
        using d(1) by (auto simp: list_all_iff dest: in_set_takeD in_set_dropD)
      have "decimal_value (decimal_text (take (nat n) ds) (drop (nat n) ds) None) = of_int s * 10 powi (n - k)"
        using True nk len by (subst decimal_value_text [OF ps]) (simp add: d(2) of_nat_diff)
      moreover have "take (nat n) ds \<noteq> []" "drop (nat n) ds \<noteq> []" using True nk len d(3) by auto
      ultimately show ?thesis using that [of "take (nat n) ds" "drop (nat n) ds" None] True c1 ps rd written
        by (simp add: decimal_text_def)
    next
      case c2: False
      show ?thesis
      proof (cases "-6 < n \<and> n \<le> 0")
        case True
        have ps: "list_all is_digit [48]" "list_all is_digit (zeros (- n) @ ds)" using d(1) by (simp_all add: zeros_digits is_digit_def)
        have "digits_val ([48] @ zeros (- n) @ ds) = s"
          using digits_val_leading [of "- n" ds] d(2) by (simp add: digits_val_def)
        then have "decimal_value (decimal_text [48] (zeros (- n) @ ds) None) = of_int s * 10 powi (n - k)"
          using True len by (subst decimal_value_text [OF ps]) (simp add: zeros_def)
        then show ?thesis using that [of "[48]" "zeros (- n) @ ds" None] True c1 c2 ps rd written d(3)
          by (simp add: decimal_text_def)
      next
        case c3: False
        obtain c cs where cs: "ds = c # cs" using d(3) by (cases ds) auto
        have ps: "list_all is_digit [c]" "list_all is_digit cs" using d(1) cs by simp_all
        have "decimal_value (decimal_text [c] cs (Some (n - 1))) = of_int s * 10 powi (n - k)"
          using len d(2) cs by (subst decimal_value_text [OF ps]) (simp add: algebra_simps)
        then show ?thesis using that [of "[c]" cs "Some (n - 1)"] c1 c2 c3 ps rd written cs
          by (cases cs) (simp_all add: decimal_text_def mantissa_text_def)
      qed
    qed
  qed
qed

lemma decimal_text_chars:
  assumes "list_all is_digit ds" "list_all is_digit fs" "c \<in> set (decimal_text ds fs ex)"
  shows "is_digit c \<or> c \<in> {46, 101, 45, 43}"
  using assms digits_of_digits [of "- the ex" c] digits_of_digits [of "the ex" c]
  by (cases ex) (auto simp: decimal_text_def exponent_text_def list_all_iff split: if_splits)

lemma decimal_text_trim:
  assumes "list_all is_digit ds" "ds \<noteq> []" "list_all is_digit fs"
  shows "trim (decimal_text ds fs ex) = decimal_text ds fs ex"
proof -
  have ne: "decimal_text ds fs ex \<noteq> []" using assms(2) by (simp add: decimal_text_def)
  have "\<not> is_space c" if "c \<in> set (decimal_text ds fs ex)" for c
    using decimal_text_chars [OF assms(1,3) that] by (auto simp: is_space_def is_digit_def)
  then show ?thesis using ne by (intro trim_id) simp
qed

lemma js_Number_text:
  assumes "list_all is_digit ds" "ds \<noteq> []" "list_all is_digit fs"
  shows "js_Number (decimal_text ds fs ex) = num_of_decimal (decimal_text ds fs ex)"
proof -
  let ?t = "decimal_text ds fs ex"
  have chars: "is_digit c \<or> c \<in> {46, 101, 45, 43}" if "c \<in> set ?t" for c
    using decimal_text_chars [OF assms(1,3) that] .
  obtain d rest where hd: "?t = d # rest" "is_digit d" using assms(1,2) by (cases ds) (auto simp: decimal_text_def)
  have radix: "\<not> starts_with ?t [48, c]" if "\<not> is_digit c" "c \<notin> {46, 101, 45, 43}" for c
    using chars [of c] that by (auto simp: starts_with_iff)
  have "?t \<noteq> js ''Infinity''" using hd by (auto simp: is_digit_def)
  moreover have "strip_char 45 ?t = None" "strip_char 43 ?t = None" using hd by (auto simp: strip_char_def is_digit_def)
  moreover have "?t \<noteq> []" using hd by simp
  ultimately show ?thesis
    using radix [of 120] radix [of 88] radix [of 111] radix [of 79] radix [of 98] radix [of 66]
    by (simp add: js_Number_def Let_def decimal_text_trim [OF assms] parse_unsigned_def match_decimal_text [OF assms] is_digit_def)
qed

text \<open>The text of a finite double that is not negative is a number literal and reads back as the double.\<close>

lemma number_roundtrip:
  assumes "wf_num (Fin False m)"
  shows "js_Number (num_to_string (Fin False m)) = Fin False m"
    "trim (num_to_string (Fin False m)) = num_to_string (Fin False m)"
    "match_number (num_to_string (Fin False m)) = num_to_string (Fin False m)"
    "num_to_string (Fin False m) \<noteq> []"
proof -
  have m: "0 \<le> m" "mk_num False m = Fin False m" using assms by simp_all
  obtain ds fs ex where w: "num_to_string (Fin False m) = decimal_text ds fs ex"
    "list_all is_digit ds" "ds \<noteq> []" "list_all is_digit fs" "mk_num False (decimal_value (decimal_text ds fs ex)) = Fin False m"
  proof (cases "m = 0")
    case True
    have "decimal_value (decimal_text [48] [] None) = 0"
      by (subst decimal_value_text) (simp_all add: is_digit_def digits_val_def)
    then show ?thesis using that [of "[48]" "[]" None] True m(2)
      by (simp add: magnitude_string_def decimal_text_def is_digit_def)
  next
    case False
    then show ?thesis using magnitude_decimal [of m] m that by (metis num_to_string.simps(3) order_le_less)
  qed
  show "js_Number (num_to_string (Fin False m)) = Fin False m"
    unfolding w(1) js_Number_text [OF w(2-4)] num_of_decimal_def by (rule w(5))
  show "trim (num_to_string (Fin False m)) = num_to_string (Fin False m)"
    "match_number (num_to_string (Fin False m)) = num_to_string (Fin False m)" "num_to_string (Fin False m) \<noteq> []"
    unfolding w(1) using w(2-4) by (simp_all add: decimal_text_trim match_decimal_text) (simp add: decimal_text_def)
qed

lemma wf_mk_num:
  assumes "0 \<le> q" "isFinite (mk_num False q)"
  obtains m where "mk_num False q = Fin False m" "wf_num (Fin False m)"
proof -
  have "mk_num False q = Fin False (dround q)" using assms(2) by (auto simp: mk_num_def Let_def split: if_splits)
  moreover then have "mk_num False (dround q) = Fin False (dround q)"
    by (simp add: mk_num_def Let_def dround_idem [OF assms(1)] split: if_splits)
  ultimately show ?thesis using that dround_nonneg [OF assms(1)] by simp
qed

end
