(* ===== verification/Tier_Props.thy ===== *)
theory Tier_Props
  imports Tier_Expr JS_Roundtrip
begin

text \<open>
  Expressions that the tier editor writes are read back as the same tiers. The proof follows the search of
  the regular expressions through the written text, piece by piece.
\<close>

section \<open>Pieces of text\<close>

lemma space_facts [simp]: "is_space 32" "\<not> is_space 42" "\<not> is_space 43" "\<not> is_space 38" "\<not> is_space 63" "\<not> is_space 58" "\<not> is_space 61"
    "\<not> is_space 112" "\<not> is_space 99" "\<not> is_space 108" "\<not> is_space 116" "\<not> is_space 41" "\<not> is_space 34" "\<not> is_space 60" "\<not> is_space 62"
  by code_simp+

lemma not_cost_char [simp]: "\<not> is_cost_char 32" "\<not> is_cost_char 41"
  by code_simp+

lemma not_bound_char [simp]: "\<not> is_bound_char 32" "\<not> is_bound_char 61"
  by code_simp+

lemma leads_list_nil: "leads (re_list []) s c s c"
  by (simp add: leads_empty)

lemma leads_list_cons: "leads r s c t d \<Longrightarrow> leads (re_list rs) t d u e \<Longrightarrow> leads (re_list (r # rs)) s c u e"
  unfolding re_list.simps by (rule leads_seq)

lemmas leads_list = leads_list_nil leads_list_cons

lemma re_spaces_one: "stops is_space s \<Longrightarrow> re_match re_spaces (32 # s) c = [(s, c), (32 # s, c)]"
proof -
  assume s: "stops is_space s"
  have "re_match re_spaces s c = [(s, c)]"
    using s unfolding re_spaces_def by (subst re_match_star) (cases s, simp_all)
  then show ?thesis unfolding re_spaces_def by (subst re_match_star) simp
qed

lemma re_spaces_none: "stops is_space s \<Longrightarrow> re_match re_spaces s c = [(s, c)]"
  unfolding re_spaces_def by (subst re_match_star) (cases s, simp_all)

lemma leads_one_space: "stops is_space s \<Longrightarrow> leads re_spaces (32 # s) c s c"
  by (simp add: leads_def re_spaces_one)

lemma spaced_match:
  assumes "\<not> is_space x" "x \<noteq> 32" "stops is_space s"
  shows "re_match (spaced (x # w)) (32 # x # w @ 32 # s) c = [(s, c), (32 # s, c)]"
  using assms by (simp add: spaced_def re_spaces_one re_match_text starts_with_def)

lemma leads_spaced:
  assumes "\<not> is_space x" "stops is_space s"
  shows "leads (spaced (x # w)) (32 # x # w @ 32 # s) c s c"
proof -
  have "x \<noteq> 32" using assms(1) by auto
  then show ?thesis using spaced_match assms by (simp add: leads_def)
qed

lemma no_match_spaced:
  assumes "\<not> is_space x" "y \<noteq> x" "\<not> is_space y"
  shows "no_match (spaced (x # w)) (32 # y # s)" "no_match (spaced (x # w)) (y # s)"
proof -
  have "x \<noteq> 32" using assms(1) by auto
  then show "no_match (spaced (x # w)) (32 # y # s)" "no_match (spaced (x # w)) (y # s)"
    using assms by (auto simp: no_match_def spaced_def re_spaces_one re_spaces_none)
qed

section \<open>Numbers\<close>

lemma number_text_chars:
  assumes "wf_num (Fin False m)"
  shows "num_to_string (Fin False m) \<noteq> []" "list_all (\<lambda>x. is_digit x \<or> x \<in> {46, 101, 45, 43}) (num_to_string (Fin False m))"
proof -
  have "num_to_string (Fin False m) \<noteq> [] \<and> list_all (\<lambda>x. is_digit x \<or> x \<in> {46, 101, 45, 43}) (num_to_string (Fin False m))"
  proof (cases "m = 0")
    case True
    then show ?thesis by (simp add: magnitude_string_def is_digit_def)
  next
    case False
    then have "0 < m" "mk_num False m = Fin False m" using assms by auto
    then obtain ds fs ex where d: "magnitude_string m = decimal_text ds fs ex" "list_all is_digit ds" "ds \<noteq> []" "list_all is_digit fs"
      by (rule magnitude_decimal)
    have "decimal_text ds fs ex \<noteq> []" using d(3) by (simp add: decimal_text_def)
    then show ?thesis using False d decimal_text_chars [OF d(2,4)] by (auto simp: list_all_iff)
  qed
  then show "num_to_string (Fin False m) \<noteq> []" "list_all (\<lambda>x. is_digit x \<or> x \<in> {46, 101, 45, 43}) (num_to_string (Fin False m))" by auto
qed

definition valid_cost :: "jsnum \<Rightarrow> bool" where
  "valid_cost x \<longleftrightarrow> (\<exists>m. x = Fin False m) \<and> wf_num x"

lemma valid_cost_text:
  assumes "valid_cost x"
  shows "num_to_string x \<noteq> []" "list_all is_cost_char (num_to_string x)" "js_Number (num_to_string x) = x"
    "stops is_space (num_to_string x @ s)"
proof -
  obtain m where x: "x = Fin False m" "wf_num (Fin False m)" using assms by (auto simp: valid_cost_def)
  show ne: "num_to_string x \<noteq> []" and cs: "list_all is_cost_char (num_to_string x)"
    using number_text_chars [OF x(2)] unfolding x(1) by (auto simp: list_all_iff is_cost_char_def)
  show "js_Number (num_to_string x) = x" using number_roundtrip(1) [OF x(2)] x(1) by simp
  have "\<not> is_space y" if "is_cost_char y" for y
    using that digit_not_space by (auto simp: is_cost_char_def is_space_def)
  then show "stops is_space (num_to_string x @ s)" using ne cs by (cases "num_to_string x") auto
qed

section \<open>Costs\<close>

lemma leads_cost_factor:
  assumes "valid_cost x" "stops is_cost_char s"
  shows "leads (cost_factor n) (js '' * '' @ num_to_string x @ s) c s ((n, num_to_string x) # c)"
proof -
  have star: "leads (spaced (js ''*'')) (js '' * '' @ num_to_string x @ s) c (num_to_string x @ s) c"
    using leads_spaced [of 42 "num_to_string x @ s" "[]" c] valid_cost_text(4) [OF assms(1)] by simp
  have number: "leads (Re_group n (re_plus (Re_char is_cost_char))) (num_to_string x @ s) c s ((n, num_to_string x) # c)"
    using leads_class_plus [OF assms(2) valid_cost_text(2,1) [OF assms(1)]] by (rule leads_group) simp
  show ?thesis unfolding cost_factor_def cost_number_def
    by (rule leads_list_cons [OF star leads_list_cons [OF number leads_list_nil]])
qed

text \<open>Names of variables that the pattern of one does not take for another.\<close>

definition apart :: "jsstr \<Rightarrow> jsstr \<Rightarrow> bool" where
  "apart v w \<longleftrightarrow> list_all (\<lambda>x. \<not> is_space x) v \<and> list_all (\<lambda>x. \<not> is_space x) w \<and> v \<noteq> [] \<and> w \<noteq> [] \<and>
     (if starts_with w v then drop (length v) w \<noteq> [] \<and> hd (drop (length v) w) \<noteq> 42 else True)"

lemma no_match_summand:
  assumes "apart v w"
  shows "no_match (cost_summand (n, v)) (js '' + '' @ w @ 32 # s)"
proof -
  obtain a v' where v: "v = a # v'" "\<not> is_space a" using assms by (cases v) (auto simp: apart_def)
  obtain b w' where w: "w = b # w'" "\<not> is_space b" using assms by (cases w) (auto simp: apart_def)
  have a: "a \<noteq> 32" using v(2) by auto
  have plus: "re_match (spaced (js ''+'')) (js '' + '' @ w @ 32 # s) c = [(w @ 32 # s, c), (32 # w @ 32 # s, c)]" for c
    using spaced_match [of 43 "w @ 32 # s" "[]" c] w by simp
  have "no_match (cost_factor n) (drop (length v) (w @ 32 # s))" if st: "starts_with (w @ 32 # s) v"
  proof -
    have "starts_with w v"
    proof (rule ccontr)
      assume "\<not> starts_with w v"
      then obtain us t where "v = w @ us" "us \<noteq> []" "32 # s = us @ t"
        using st by (auto simp: starts_with_iff append_eq_append_conv2)
      then have "32 \<in> set v" by (cases us) auto
      then show False using assms by (auto simp: apart_def list_all_iff)
    qed
    then obtain x xs where x: "drop (length v) w = x # xs" "x \<noteq> 42" using assms by (cases "drop (length v) w") (auto simp: apart_def)
    then have "\<not> is_space x" using assms by (metis apart_def in_set_dropD list.set_intros(1) list_all_iff)
    moreover have "drop (length v) (w @ 32 # s) = x # xs @ 32 # s"
    proof -
      have "length v < length w" using x(1) by (metis drop_eq_Nil list.distinct(1) not_le)
      then show ?thesis using x(1) by simp
    qed
    ultimately show ?thesis using x(2) no_match_spaced(2) [of 42 x] by (simp add: cost_factor_def no_match_seq)
  qed
  then show ?thesis unfolding no_match_def cost_summand_def prod.case re_list.simps re_match.simps plus
    by (simp add: re_match_text) (simp add: v a starts_with_def no_match_def)
qed

definition summand_text :: "(jsstr \<Rightarrow> jsnum option) \<Rightarrow> jsstr \<Rightarrow> jsstr" where
  "summand_text f v = (case f v of None \<Rightarrow> [] | Some x \<Rightarrow> js '' + '' @ cost_term v x)"

fun summand_captures :: "(jsstr \<Rightarrow> jsnum option) \<Rightarrow> nat \<Rightarrow> jsstr list \<Rightarrow> captures" where
  "summand_captures f k [] = []"
| "summand_captures f k (v # vs) =
     summand_captures f (Suc k) vs @ (case f v of None \<Rightarrow> [] | Some x \<Rightarrow> [(k, num_to_string x)])"

lemma summands_start:
  "concat (map (summand_text f) vs) @ 41 # s = 41 # s \<or>
   (\<exists>w \<in> set vs. \<exists>r. concat (map (summand_text f) vs) @ 41 # s = js '' + '' @ w @ 32 # r)"
proof (induction vs)
  case (Cons v vs)
  show ?case
  proof (cases "f v")
    case None
    then show ?thesis using Cons by (auto simp: summand_text_def)
  next
    case (Some x)
    then show ?thesis by (auto simp: summand_text_def cost_term_def intro!: exI [of _ "42 # 32 # _"])
  qed
qed simp

lemma no_match_close: "no_match (cost_summand g) (41 # s)"
  by (cases g) (simp add: cost_summand_def no_match_seq no_match_spaced)

lemma leads_summand:
  assumes "valid_cost x" "stops is_cost_char s" "list_all (\<lambda>y. \<not> is_space y) v" "v \<noteq> []"
  shows "leads (cost_summand (k, v)) (js '' + '' @ cost_term v x @ s) c s ((k, num_to_string x) # c)"
proof -
  have v: "stops is_space (v @ r)" for r using assms(3,4) by (cases v) auto
  have plus: "leads (spaced (js ''+'')) (js '' + '' @ cost_term v x @ s) c (v @ js '' * '' @ num_to_string x @ s) c"
    using leads_spaced [of 43 "v @ js '' * '' @ num_to_string x @ s" "[]" c] v by (simp add: cost_term_def)
  show ?thesis unfolding cost_summand_def prod.case
    by (rule leads_list_cons [OF plus leads_list_cons [OF leads_text leads_list_cons [OF leads_cost_factor [OF assms(1,2)] leads_list_nil]]])
qed

lemma leads_summands:
  assumes "\<And>v x. f v = Some x \<Longrightarrow> valid_cost x"
  shows "sorted_wrt apart vs \<Longrightarrow> list_all (\<lambda>v. v \<noteq> [] \<and> list_all (\<lambda>y. \<not> is_space y) v) vs \<Longrightarrow>
    leads (re_list (map (\<lambda>g. Re_opt (cost_summand g)) (enumerate k vs))) (concat (map (summand_text f) vs) @ 41 # s) c
      (41 # s) (summand_captures f k vs @ c)"
proof (induction vs arbitrary: k c)
  case Nil
  then show ?case by (simp add: leads_empty)
next
  case (Cons v vs)
  let ?rest = "concat (map (summand_text f) vs) @ 41 # s"
  have IH: "leads (re_list (map (\<lambda>g. Re_opt (cost_summand g)) (enumerate (Suc k) vs))) ?rest d (41 # s)
      (summand_captures f (Suc k) vs @ d)" for d
    using Cons by simp
  have rest: "?rest = 41 # s \<or> (\<exists>w \<in> set vs. \<exists>r. ?rest = js '' + '' @ w @ 32 # r)" by (rule summands_start)
  show ?case
  proof (cases "f v")
    case None
    have "no_match (cost_summand (k, v)) ?rest" using rest
    proof (elim disjE bexE exE)
      assume "?rest = 41 # s"
      then show ?thesis by (simp only: no_match_close)
    next
      fix w r
      assume w: "w \<in> set vs" and "?rest = js '' + '' @ w @ 32 # r"
      then show ?thesis using no_match_summand [of v w k r] Cons.prems(1) by (simp only:) simp
    qed
    then have "leads (Re_opt (cost_summand (k, v))) ?rest c ?rest c" by (rule leads_opt_none)
    moreover have "summand_text f v = []" using None by (simp add: summand_text_def)
    ultimately show ?thesis using None IH by (simp add: leads_seq)
  next
    case (Some x)
    have "stops is_cost_char ?rest" using rest by (elim disjE bexE exE) (simp_all only: stops_simps append_Cons append_Nil, simp_all)
    then have "leads (cost_summand (k, v)) (js '' + '' @ cost_term v x @ ?rest) c ?rest ((k, num_to_string x) # c)"
      using Cons.prems(2) assms [OF Some] by (intro leads_summand) simp_all
    then have "leads (Re_opt (cost_summand (k, v))) (js '' + '' @ cost_term v x @ ?rest) c ?rest ((k, num_to_string x) # c)"
      by (rule leads_opt) simp
    moreover have "summand_text f v = js '' + '' @ cost_term v x" using Some by (simp add: summand_text_def)
    ultimately show ?thesis using Some leads_seq [OF _ IH] by simp
  qed
qed

definition cache_vars :: "jsstr list" where
  "cache_vars = map snd BILLING_CACHE_VAR_MAP"

lemma cache_vars_apart: "sorted_wrt apart cache_vars" "list_all (\<lambda>v. v \<noteq> [] \<and> list_all (\<lambda>y. \<not> is_space y) v) cache_vars"
  by code_simp+

definition body_text :: "jsnum \<Rightarrow> jsnum \<Rightarrow> (jsstr \<Rightarrow> jsnum option) \<Rightarrow> jsstr" where
  "body_text ic oc f = cost_term (js ''p'') ic @ js '' + '' @ cost_term (js ''c'') oc @ concat (map (summand_text f) cache_vars)"

definition body_captures :: "nat \<Rightarrow> jsnum \<Rightarrow> jsnum \<Rightarrow> (jsstr \<Rightarrow> jsnum option) \<Rightarrow> captures" where
  "body_captures n ic oc f = summand_captures f (n + 2) cache_vars @ [(n + 1, num_to_string oc), (n, num_to_string ic)]"

lemma leads_body:
  assumes "valid_cost ic" "valid_cost oc" "\<And>v x. f v = Some x \<Longrightarrow> valid_cost x"
  shows "leads (bodyPat n) (body_text ic oc f @ 41 # s) c (41 # s) (body_captures n ic oc f @ c)"
proof -
  let ?rest = "concat (map (summand_text f) cache_vars) @ 41 # s"
  let ?c1 = "(n, num_to_string ic) # c"
  let ?c2 = "(n + 1, num_to_string oc) # ?c1"
  have rest: "stops is_cost_char ?rest"
    using summands_start [of f cache_vars s]
    by (elim disjE bexE exE) (simp_all only: stops_simps append_Cons append_Nil, simp_all)
  have plus: "leads (spaced (js ''+'')) (js '' + c * '' @ num_to_string oc @ ?rest) ?c1 (js ''c * '' @ num_to_string oc @ ?rest) ?c1"
    using leads_spaced [of 43 "js ''c * '' @ num_to_string oc @ ?rest" "[]" ?c1] by simp
  have p: "leads (re_text (js ''p'')) (js ''p * '' @ num_to_string ic @ js '' + c * '' @ num_to_string oc @ ?rest) c
      (js '' * '' @ num_to_string ic @ js '' + c * '' @ num_to_string oc @ ?rest) c"
    using leads_text [of "js ''p''" "js '' * '' @ num_to_string ic @ js '' + c * '' @ num_to_string oc @ ?rest" c] by simp
  have o': "leads (re_text (js ''c'')) (js ''c * '' @ num_to_string oc @ ?rest) ?c1 (js '' * '' @ num_to_string oc @ ?rest) ?c1"
    using leads_text [of "js ''c''" "js '' * '' @ num_to_string oc @ ?rest" ?c1] by simp
  have sums: "leads (re_list (map (\<lambda>g. Re_opt (cost_summand g)) (enumerate (n + 2) cache_vars))) ?rest ?c2 (41 # s)
      (summand_captures f (n + 2) cache_vars @ ?c2)"
    by (rule leads_summands [OF assms(3) cache_vars_apart])
  have ic: "leads (cost_factor n) (js '' * '' @ num_to_string ic @ js '' + c * '' @ num_to_string oc @ ?rest) c
      (js '' + c * '' @ num_to_string oc @ ?rest) ?c1"
    by (rule leads_cost_factor [OF assms(1)]) simp
  have oc: "leads (cost_factor (n + 1)) (js '' * '' @ num_to_string oc @ ?rest) ?c1 ?rest ?c2"
    by (rule leads_cost_factor [OF assms(2) rest])
  have "leads (bodyPat n) (js ''p * '' @ num_to_string ic @ js '' + c * '' @ num_to_string oc @ ?rest) c (41 # s)
      (summand_captures f (n + 2) cache_vars @ ?c2)"
    unfolding bodyPat_def cache_vars_def [symmetric] append_Cons append_Nil
    by (rule leads_list_cons [OF p leads_list_cons [OF ic leads_list_cons [OF plus leads_list_cons [OF o' leads_list_cons [OF oc sums]]]]])
  then show ?thesis by (simp add: body_text_def body_captures_def cost_term_def)
qed

text \<open>A tier, from its label to the closing parenthesis.\<close>

definition tier_captures :: "nat \<Rightarrow> jsstr \<Rightarrow> jsnum \<Rightarrow> jsnum \<Rightarrow> (jsstr \<Rightarrow> jsnum option) \<Rightarrow> captures" where
  "tier_captures n label ic oc f = body_captures (n + 1) ic oc f @ [(n, label)]"

lemma leads_tier:
  assumes "34 \<notin> set label" "valid_cost ic" "valid_cost oc" "\<And>v x. f v = Some x \<Longrightarrow> valid_cost x"
  shows "leads (tierPat n) (js ''tier('' @ [34] @ label @ [34] @ js '', '' @ body_text ic oc f @ js '')'' @ s) c s
    (tier_captures n label ic oc f @ c)"
proof -
  let ?body = "body_text ic oc f @ 41 # s"
  have open': "leads (re_text (js ''tier('' @ [34])) (js ''tier('' @ [34] @ label @ [34] @ js '', '' @ ?body) c
      (label @ 34 # 44 # 32 # ?body) c"
    using leads_text [of "js ''tier('' @ [34]" "label @ 34 # 44 # 32 # ?body" c] by simp
  have "leads (Re_star (Re_char (\<lambda>x. x \<noteq> 34))) (label @ 34 # 44 # 32 # ?body) c (34 # 44 # 32 # ?body) c"
    using assms(1) by (intro leads_class) (auto simp: list_all_iff)
  then have label: "leads (Re_group n (Re_star (Re_char (\<lambda>x. x \<noteq> 34)))) (label @ 34 # 44 # 32 # ?body) c (34 # 44 # 32 # ?body) ((n, label) # c)"
    by (rule leads_group) simp
  have comma: "leads (re_text [34, 44]) (34 # 44 # 32 # ?body) d (32 # ?body) d" for d
    using leads_text [of "[34, 44]" "32 # ?body" d] by simp
  have blank: "leads re_spaces (32 # ?body) d ?body d" for d
    by (rule leads_one_space) (simp add: body_text_def cost_term_def)
  have close: "leads (re_text (js '')'')) (41 # s) d s d" for d
    using leads_text [of "js '')''" s d] by simp
  have "leads (tierPat n) (js ''tier('' @ [34] @ label @ [34] @ js '', '' @ ?body) c s (body_captures (n + 1) ic oc f @ (n, label) # c)"
    unfolding tierPat_def
    by (rule leads_list_cons [OF open' leads_list_cons [OF label leads_list_cons [OF comma leads_list_cons [OF blank
      leads_list_cons [OF leads_body [OF assms(2-4)] leads_list_cons [OF close leads_list_nil]]]]]])
  then show ?thesis by (simp add: tier_captures_def)
qed

section \<open>Conditions\<close>

definition valid_condition :: "TierConditionInput \<Rightarrow> bool" where
  "valid_condition c \<longleftrightarrow> ti_var c \<in> {js ''p'', js ''c'', js ''len''} \<and> ti_op c \<in> {js ''<'', js ''<='', js ''>'', js ''>=''} \<and>
     (\<exists>x. ti_bound c = Value_number x \<and> valid_cost x \<and> 45 \<notin> set (num_to_string x))"

lemma condVar_match:
  "v \<in> {js ''p'', js ''c'', js ''len''} \<Longrightarrow> re_match condVar (v @ s) c = [(s, c)]"
  by (auto simp: condVar_def)

lemma condOp_match:
  "f \<in> {js ''<'', js ''<='', js ''>'', js ''>=''} \<Longrightarrow>
   re_match condOp (f @ 32 # s) c = (if length f = 2 then [(61 # 32 # s, c)] else []) @ [(32 # s, c)]"
  by (auto simp: condOp_def)

lemma leads_skip:
  "re_match a s c = ms @ (t, d) # rest \<Longrightarrow> list_all (\<lambda>m. no_match b (fst m)) ms \<Longrightarrow> leads b t d u e \<Longrightarrow> leads (Re_seq a b) s c u e"
proof -
  assume a: "re_match a s c = ms @ (t, d) # rest" "list_all (\<lambda>m. no_match b (fst m)) ms" "leads b t d u e"
  have skip: "concat (map (\<lambda>(t, d). re_match b t d) ms) = []"
    using a(2) by (auto simp: list_all_iff no_match_def)
  obtain ns where "re_match b t d = (u, e) # ns" using a(3) by (auto simp: leads_def)
  then have "re_match (Re_seq a b) s c = (u, e) # ns @ concat (map (\<lambda>(t, d). re_match b t d) rest)"
    unfolding re_match.simps a(1) map_append concat_append skip by simp
  then show ?thesis by (auto simp: leads_def)
qed

lemma bound_text:
  assumes "valid_condition c"
  shows "tier_condition_text c = ti_var c @ 32 # ti_op c @ 32 # bound_text (ti_bound c)"
    "bound_text (ti_bound c) \<noteq> []" "list_all is_bound_char (bound_text (ti_bound c))"
    "Value_number (js_Number (bound_text (ti_bound c))) = ti_bound c" "stops is_space (bound_text (ti_bound c) @ s)"
proof -
  obtain x where x: "ti_bound c = Value_number x" "valid_cost x" "45 \<notin> set (num_to_string x)" using assms by (auto simp: valid_condition_def)
  have b: "bound_text (ti_bound c) = num_to_string x" by (simp add: x(1) bound_text_def)
  show "tier_condition_text c = ti_var c @ 32 # ti_op c @ 32 # bound_text (ti_bound c)" by (simp add: tier_condition_text_def)
  show "bound_text (ti_bound c) \<noteq> []" "Value_number (js_Number (bound_text (ti_bound c))) = ti_bound c"
    "stops is_space (bound_text (ti_bound c) @ s)"
    using valid_cost_text [OF x(2)] x(1) b by simp_all
  show "list_all is_bound_char (bound_text (ti_bound c))"
    using valid_cost_text(2) [OF x(2)] x(3) unfolding b by (auto simp: list_all_iff is_cost_char_def is_bound_char_def)
qed

text \<open>The part of a condition after its variable; the group numbers are those of the two patterns.\<close>

lemma leads_operator:
  assumes "valid_condition c" "stops is_bound_char s" "leads r (bound_text (ti_bound c) @ s) d t e" "\<And>u. no_match r (61 # u)"
    "re_match q (ti_op c @ 32 # bound_text (ti_bound c) @ s) k =
       map (\<lambda>(t, _). (t, g t)) (re_match condOp (ti_op c @ 32 # bound_text (ti_bound c) @ s) k)"
    "g (32 # bound_text (ti_bound c) @ s) = d"
  shows "leads (Re_seq re_spaces (Re_seq q (Re_seq re_spaces r))) (32 # ti_op c @ 32 # bound_text (ti_bound c) @ s) k t e"
proof -
  have f: "ti_op c \<in> {js ''<'', js ''<='', js ''>'', js ''>=''}" using assms(1) by (simp add: valid_condition_def)
  have "leads re_spaces (32 # ti_op c @ 32 # bound_text (ti_bound c) @ s) k (ti_op c @ 32 # bound_text (ti_bound c) @ s) k"
    using f by (intro leads_one_space) auto
  moreover have "leads (Re_seq q (Re_seq re_spaces r)) (ti_op c @ 32 # bound_text (ti_bound c) @ s) k t e"
  proof (rule leads_skip)
    show "re_match q (ti_op c @ 32 # bound_text (ti_bound c) @ s) k =
        (if length (ti_op c) = 2 then [(61 # 32 # bound_text (ti_bound c) @ s, g (61 # 32 # bound_text (ti_bound c) @ s))] else []) @ (32 # bound_text (ti_bound c) @ s, d) # []"
      unfolding assms(5) condOp_match [OF f] by (simp add: assms(6))
    have "no_match (Re_seq re_spaces r) (61 # u)" for u
      using assms(4) by (simp add: no_match_def re_spaces_none)
    then show "list_all (\<lambda>m. no_match (Re_seq re_spaces r) (fst m))
        (if length (ti_op c) = 2 then [(61 # 32 # bound_text (ti_bound c) @ s, g (61 # 32 # bound_text (ti_bound c) @ s))] else [])" by simp
    show "leads (Re_seq re_spaces r) (32 # bound_text (ti_bound c) @ s) d t e"
      using leads_one_space [OF bound_text(5) [OF assms(1)]] assms(3) by (rule leads_seq)
  qed
  ultimately show ?thesis by (rule leads_seq)
qed

lemma no_match_bound: "no_match (re_plus (Re_char is_bound_char)) (61 # u)" "no_match (Re_group n (re_plus (Re_char is_bound_char))) (61 # u)"
  by (simp_all add: no_match_def re_plus_def)

lemma leads_condPat:
  assumes "valid_condition c" "stops is_bound_char s"
  shows "leads condPat (tier_condition_text c @ s) d s d"
proof -
  have v: "ti_var c \<in> {js ''p'', js ''c'', js ''len''}" and f: "ti_op c \<in> {js ''<'', js ''<='', js ''>'', js ''>=''}"
    using assms(1) by (simp_all add: valid_condition_def)
  have "leads condVar (ti_var c @ 32 # ti_op c @ 32 # bound_text (ti_bound c) @ s) d (32 # ti_op c @ 32 # bound_text (ti_bound c) @ s) d"
    using condVar_match [OF v] by (simp add: leads_def)
  moreover have "leads (Re_seq (re_plus (Re_char is_bound_char)) Re_empty) (bound_text (ti_bound c) @ s) d s d"
    using leads_class_plus [OF assms(2) bound_text(3,2) [OF assms(1)]] leads_empty by (rule leads_seq)
  then have "leads (Re_seq re_spaces (Re_seq condOp (Re_seq re_spaces (Re_seq (re_plus (Re_char is_bound_char)) Re_empty))))
      (32 # ti_op c @ 32 # bound_text (ti_bound c) @ s) d s d"
    by (rule leads_operator [OF assms(1,2), where g = "\<lambda>_. d"])
      (simp_all only: condOp_match [OF f], simp_all add: no_match_seq no_match_bound)
  ultimately show ?thesis unfolding condPat_def re_list.simps bound_text(1) [OF assms(1)] append_assoc append_Cons
    by (rule leads_seq)
qed

lemma condition_ends:
  assumes "valid_condition c"
  shows "tier_condition_text c \<noteq> []" "\<not> is_space (hd (tier_condition_text c))" "\<not> is_space (last (tier_condition_text c))"
    "38 \<notin> set (tier_condition_text c)"
proof -
  let ?b = "bound_text (ti_bound c)"
  have v: "ti_var c \<in> {js ''p'', js ''c'', js ''len''}" and f: "ti_op c \<in> {js ''<'', js ''<='', js ''>'', js ''>=''}"
    using assms by (simp_all add: valid_condition_def)
  have b: "?b \<noteq> []" "list_all is_bound_char ?b" using bound_text(2,3) [OF assms] by auto
  have space: "\<not> is_space y" if "is_bound_char y" for y
    using that digit_not_space by (auto simp: is_bound_char_def is_space_def)
  have "\<not> is_bound_char 38" by code_simp
  then have "38 \<notin> set ?b" using b(2) by (auto simp: list_all_iff)
  then show "tier_condition_text c \<noteq> []" "\<not> is_space (hd (tier_condition_text c))" "38 \<notin> set (tier_condition_text c)"
    unfolding bound_text(1) [OF assms] using v f by auto
  have "last (tier_condition_text c) = last ?b" using b(1) by (simp add: bound_text(1) [OF assms])
  then show "\<not> is_space (last (tier_condition_text c))" using b space by (simp add: list_all_iff)
qed

lemma read_valid_condition:
  assumes "valid_condition c"
  shows "read_condition (tier_condition_text c) = [c]"
proof -
  let ?b = "bound_text (ti_bound c)"
  let ?m1 = "[(1, ti_var c)]" and ?m2 = "[(2, ti_op c), (1, ti_var c)]" and ?m3 = "[(3, ?b), (2, ti_op c), (1, ti_var c)] :: captures"
  have v: "ti_var c \<in> {js ''p'', js ''c'', js ''len''}" and f: "ti_op c \<in> {js ''<'', js ''<='', js ''>'', js ''>=''}"
    using assms by (simp_all add: valid_condition_def)
  have "leads condVar (ti_var c @ 32 # ti_op c @ 32 # ?b) [] (32 # ti_op c @ 32 # ?b) []"
    using condVar_match [OF v] by (simp add: leads_def)
  then have var: "leads (Re_group 1 condVar) (ti_var c @ 32 # ti_op c @ 32 # ?b) [] (32 # ti_op c @ 32 # ?b) ?m1"
    by (rule leads_group) simp
  have "leads (re_plus (Re_char is_bound_char)) (?b @ []) ?m2 [] ?m2"
    using bound_text(2,3) [OF assms] by (intro leads_class_plus) simp_all
  then have "leads (Re_group 3 (re_plus (Re_char is_bound_char))) (?b @ []) ?m2 [] ?m3" by (rule leads_group) simp
  then have number: "leads (Re_seq (Re_group 3 (re_plus (Re_char is_bound_char))) (Re_seq Re_end Re_empty)) (?b @ []) ?m2 [] ?m3"
    by (rule leads_seq [OF _ leads_seq [OF leads_end leads_empty]])
  have "leads (Re_seq re_spaces (Re_seq (Re_group 2 condOp) (Re_seq re_spaces (Re_seq (Re_group 3 (re_plus (Re_char is_bound_char)))
      (Re_seq Re_end Re_empty))))) (32 # ti_op c @ 32 # ?b @ []) ?m1 [] ?m3"
    by (rule leads_operator [OF assms _ number, where g = "\<lambda>t. (2, take (length (ti_op c @ 32 # ?b) - length t) (ti_op c @ 32 # ?b)) # ?m1"])
      (simp_all add: no_match_seq no_match_bound condOp_match [OF f])
  then have "leads conditionRe (ti_var c @ 32 # ti_op c @ 32 # ?b) [] [] ?m3"
    unfolding conditionRe_def re_list.simps using leads_seq [OF var] by simp
  then have "first_match conditionRe (tier_condition_text c) = Some ([], ?m3)"
    unfolding bound_text(1) [OF assms] by (rule first_match_leads)
  moreover have "trim (tier_condition_text c) = tier_condition_text c" using condition_ends [OF assms] by (intro trim_id) simp
  ultimately show ?thesis using bound_text(4) [OF assms] by (simp add: read_condition_def captured_def capture_def)
qed

text \<open>Splitting a conjunction gives its conditions.\<close>

lemma no_split:
  assumes "u \<noteq> []" "38 \<notin> set u" "\<not> is_space (last u)"
  shows "no_match splitRe (u @ s)"
proof -
  let ?w = "takeWhile is_space u" and ?r = "dropWhile is_space u"
  have "dropWhile is_space u \<noteq> []" using assms(1,3) by (metis dropWhile_eq_Nil_conv last_in_set)
  then obtain y r where y: "?r = y # r" by (cases ?r) auto
  have "\<not> is_space y" using y by (metis hd_dropWhile list.distinct(1) list.sel(1))
  moreover have "y \<in> set u" using y by (metis list.set_intros(1) set_dropWhileD)
  then have "y \<noteq> 38" using assms(2) by metis
  moreover have u: "u @ s = ?w @ y # r @ s" using y by (metis append_Cons append_assoc takeWhile_dropWhile_id)
  have "re_match (Re_seq re_spaces (re_list [re_text (js ''&&''), re_spaces])) (u @ s) c = []" for c
  proof -
    have "re_match (re_list [re_text (js ''&&''), re_spaces]) t d = []" if td: "(t, d) \<in> set (re_match re_spaces (u @ s) c)" for t d
    proof -
      have "stops is_space (y # r @ s)" using \<open>\<not> is_space y\<close> by simp
      moreover have "list_all is_space ?w" by (auto simp: list_all_iff dest: set_takeWhileD)
      moreover have "(t, d) \<in> set (re_match (Re_star (Re_char is_space)) (?w @ y # r @ s) c)"
        using td u by (simp only: re_spaces_def)
      ultimately obtain v where "list_all is_space v" "t = v @ y # r @ s" using class_outcomes by metis
      then show ?thesis using \<open>y \<noteq> 38\<close> by (cases v) auto
    qed
    then show ?thesis by auto
  qed
  then show ?thesis by (simp add: no_match_def splitRe_def spaced_def)
qed

lemma split_piece:
  "38 \<notin> set u \<Longrightarrow> u = [] \<or> \<not> is_space (last u) \<Longrightarrow> re_split splitRe (u @ s) piece = re_split splitRe s (piece @ u)"
proof (induction u arbitrary: piece)
  case (Cons x u)
  have "first_match splitRe ((x # u) @ s) = None" using Cons.prems by (intro first_match_none no_split) auto
  then show ?case using Cons by (auto split: if_splits)
qed simp

abbreviation more_conditions :: "TierConditionInput list \<Rightarrow> jsstr" where
  "more_conditions cs \<equiv> concat (map (\<lambda>c. js '' && '' @ tier_condition_text c) cs)"

lemma split_conditions:
  "valid_condition c \<Longrightarrow> list_all valid_condition cs \<Longrightarrow>
   re_split splitRe (tier_condition_text c @ more_conditions cs) [] = map tier_condition_text (c # cs)"
proof (induction cs arbitrary: c)
  case Nil
  then show ?case using split_piece [of "tier_condition_text c" "[]" "[]"] condition_ends [of c] by simp
next
  case (Cons d cs)
  let ?rest = "tier_condition_text d @ more_conditions cs"
  have "stops is_space ?rest" using Cons.prems condition_ends [of d] by (cases "tier_condition_text d") simp_all
  then have "leads splitRe (32 # 38 # 38 # 32 # ?rest) [] ?rest []"
    using leads_spaced [of 38 ?rest "[38]" "[]"] by (simp add: splitRe_def)
  then have "first_match splitRe (32 # 38 # 38 # 32 # ?rest) = Some (?rest, [])" by (rule first_match_leads)
  then have "re_split splitRe (js '' && '' @ ?rest) (tier_condition_text c) = tier_condition_text c # re_split splitRe ?rest []"
    by simp
  then show ?case using split_piece [of "tier_condition_text c" "js '' && '' @ ?rest" "[]"] condition_ends [of c] Cons by simp
qed

section \<open>Tiers in a chain\<close>

lemma leads_more:
  "list_all valid_condition cs \<Longrightarrow>
   leads (Re_star (Re_seq (spaced (js ''&&'')) condPat)) (more_conditions cs @ 32 # 63 # s) d (32 # 63 # s) d"
proof (induction cs)
  case Nil
  have "no_match (Re_seq (spaced (js ''&&'')) condPat) (32 # 63 # s)"
    using no_match_spaced(1) [of 38 63 "[38]" s] by (intro no_match_seq) simp
  then show ?case by (simp add: leads_star_stop)
next
  case (Cons c cs)
  let ?rest = "more_conditions cs @ 32 # 63 # s"
  have "stops is_bound_char ?rest" by (cases cs) simp_all
  then have cond: "leads condPat (tier_condition_text c @ ?rest) d ?rest d" using Cons.prems by (intro leads_condPat) simp_all
  have "stops is_space (tier_condition_text c @ ?rest)"
    using Cons.prems condition_ends [of c] by (cases "tier_condition_text c") simp_all
  then have "leads (spaced (js ''&&'')) (js '' && '' @ tier_condition_text c @ ?rest) d (tier_condition_text c @ ?rest) d"
    using leads_spaced [of 38 "tier_condition_text c @ ?rest" "[38]" d] by simp
  then have "leads (Re_seq (spaced (js ''&&'')) condPat) (js '' && '' @ tier_condition_text c @ ?rest) d ?rest d"
    using cond by (rule leads_seq)
  then have "leads (Re_star (Re_seq (spaced (js ''&&'')) condPat)) (js '' && '' @ tier_condition_text c @ ?rest) d (32 # 63 # s) d"
    by (rule leads_star_step) (use Cons in simp_all)
  then show ?case by simp
qed

definition conditions_text :: "TierConditionInput list \<Rightarrow> jsstr" where
  "conditions_text cs = (case cs of [] \<Rightarrow> [] | c # rest \<Rightarrow> tier_condition_text c @ more_conditions rest)"

lemma leads_condGroup:
  assumes "list_all valid_condition cs" "cs \<noteq> []"
  shows "leads condGroup (conditions_text cs @ 32 # 63 # s) d (32 # 63 # s) ((1, conditions_text cs) # d)"
proof -
  obtain c rest where cs: "cs = c # rest" using assms(2) by (cases cs) auto
  have "stops is_bound_char (more_conditions rest @ 32 # 63 # s)" by (cases rest) simp_all
  then have "leads condPat (tier_condition_text c @ more_conditions rest @ 32 # 63 # s) d (more_conditions rest @ 32 # 63 # s) d"
    using assms cs by (intro leads_condPat) simp_all
  then have "leads (Re_seq condPat (Re_star (Re_seq (spaced (js ''&&'')) condPat)))
      (conditions_text cs @ 32 # 63 # s) d (32 # 63 # s) d"
    using leads_seq leads_more [of rest s d] assms cs by (fastforce simp: conditions_text_def)
  then show ?thesis unfolding condGroup_def by (rule leads_group) simp
qed

lemma no_condGroup: "x \<notin> {112, 99, 108} \<Longrightarrow> no_match condGroup (x # s)"
  by (simp add: condGroup_def condPat_def condVar_def no_match_def)

lemma no_tierRe: "x \<notin> {112, 99, 108, 116} \<Longrightarrow> no_match tierRe (x # s)"
  using no_condGroup [of x s] by (simp add: tierRe_def tierPat_def no_match_def)

definition written_tier :: "TierConditionInput list \<Rightarrow> jsstr \<Rightarrow> jsnum \<Rightarrow> jsnum \<Rightarrow> (jsstr \<Rightarrow> jsnum option) \<Rightarrow> jsstr" where
  "written_tier cs label ic oc f =
     (if cs = [] then [] else conditions_text cs @ js '' ? '') @
     js ''tier('' @ [34] @ label @ [34] @ js '', '' @ body_text ic oc f @ js '')''"

lemma leads_tierRe:
  assumes "list_all valid_condition cs" "34 \<notin> set label" "valid_cost ic" "valid_cost oc" "\<And>v x. f v = Some x \<Longrightarrow> valid_cost x"
  shows "leads tierRe (written_tier cs label ic oc f @ s) [] s
    (tier_captures 2 label ic oc f @ (if cs = [] then [] else [(1, conditions_text cs)]))"
proof -
  let ?t = "js ''tier('' @ [34] @ label @ [34] @ js '', '' @ body_text ic oc f @ js '')'' @ s"
  let ?d = "if cs = [] then [] else [(1, conditions_text cs)] :: captures"
  have "leads (Re_opt (Re_seq condGroup (spaced (js ''?'')))) (written_tier cs label ic oc f @ s) [] ?t ?d"
  proof (cases "cs = []")
    case True
    have "no_match (Re_seq condGroup (spaced (js ''?''))) ?t" using no_condGroup [of 116] by (intro no_match_seq) simp
    then have "leads (Re_opt (Re_seq condGroup (spaced (js ''?'')))) ?t [] ?t []" by (rule leads_opt_none)
    then show ?thesis using True by (simp add: written_tier_def)
  next
    case False
    have "leads condGroup (conditions_text cs @ js '' ? '' @ ?t) [] (32 # 63 # 32 # ?t) ?d"
      using leads_condGroup [OF assms(1) False, of "32 # ?t" "[]"] False by simp
    moreover have "leads (spaced (js ''?'')) (32 # 63 # 32 # ?t) ?d ?t ?d"
      using leads_spaced [of 63 ?t "[]" ?d] by simp
    ultimately have "leads (Re_seq condGroup (spaced (js ''?''))) (conditions_text cs @ js '' ? '' @ ?t) [] ?t ?d" by (rule leads_seq)
    then have "leads (Re_opt (Re_seq condGroup (spaced (js ''?'')))) (conditions_text cs @ js '' ? '' @ ?t) [] ?t ?d"
      by (rule leads_opt) simp
    then show ?thesis using False by (simp add: written_tier_def)
  qed
  then show ?thesis unfolding tierRe_def using leads_tier [OF assms(2-5)] by (rule leads_seq)
qed

lemma exec_step:
  assumes "leads tierRe (x # s) [] t m" "length t < length (x # s)"
  shows "re_exec_all tierRe (x # s) = m # re_exec_all tierRe t"
    and "re_exec_all tierRe (js '' : '' @ x # s) = m # re_exec_all tierRe t"
proof -
  have m: "first_match tierRe (x # s) = Some (t, m)" using assms(1) by (rule first_match_leads)
  show "re_exec_all tierRe (x # s) = m # re_exec_all tierRe t"
    using m assms(2) by (subst re_exec_all.simps) simp
  have skip: "first_match tierRe (y # u) = None" if "y \<in> {32, 58}" for y u
    using that by (intro first_match_none no_tierRe) auto
  have "re_search tierRe (js '' : '' @ x # s) = Some (t, m)" using m skip by simp
  then show "re_exec_all tierRe (js '' : '' @ x # s) = m # re_exec_all tierRe t"
    using assms(2) by (subst re_exec_all.simps) simp
qed

section \<open>Captured costs\<close>

lemma map_of_summands:
  "map_of (summand_captures f k vs) i =
     (if k \<le> i \<and> i < k + length vs then map_option num_to_string (f (vs ! (i - k))) else None)"
proof (induction vs arbitrary: k)
  case (Cons v vs)
  show ?case
  proof (cases "i = k")
    case True
    then show ?thesis using Cons [of "Suc k"] by (simp add: map_add_def split: option.splits)
  next
    case False
    have "map_of (case f v of None \<Rightarrow> [] | Some x \<Rightarrow> [(k, num_to_string x)]) i = None" using False by (simp split: option.splits)
    moreover have "vs ! (i - Suc k) = (v # vs) ! (i - k)" if "Suc k \<le> i" using that by (simp add: nth_Cons' Suc_diff_le)
    ultimately show ?thesis using Cons [of "Suc k"] False by (auto simp: map_add_def split: option.splits)
  qed
qed auto

lemma tier_captured:
  fixes n :: nat and c0 :: captures
  defines "m label ic oc f \<equiv> tier_captures n label ic oc f @ c0"
  shows "captured (m label ic oc f) n = label" "captured (m label ic oc f) (n + 1) = num_to_string ic"
    "captured (m label ic oc f) (n + 2) = num_to_string oc"
    "\<And>j. j < length cache_vars \<Longrightarrow> \<forall>i \<ge> n. map_of c0 i = None \<Longrightarrow> capture (m label ic oc f) (n + 3 + j) = map_option num_to_string (f (cache_vars ! j))"
    "\<And>i. i < n \<Longrightarrow> capture (m label ic oc f) i = map_of c0 i"
  by (auto simp: m_def tier_captures_def body_captures_def captured_def capture_def map_of_summands map_add_def split: option.splits)

abbreviation cost_map :: "(jsstr \<times> jsstr) list" where
  "cost_map \<equiv> BILLING_CACHE_VAR_MAP"

lemma cost_map_facts:
  "distinct (map fst cost_map)" "INPUT_COST \<notin> fst ` set cost_map" "OUTPUT_COST \<notin> fst ` set cost_map" "INPUT_COST \<noteq> OUTPUT_COST"
  "list_all (\<lambda>(f, v). map_of (map (\<lambda>(f, v). (v, f)) cost_map) v = Some f) cost_map"
  "list_all (\<lambda>f. f \<in> fst ` set cost_map) NORMAL_COSTS" "TIMED_COST \<in> set NORMAL_COSTS"
  "INPUT_COST \<notin> set NORMAL_COSTS" "OUTPUT_COST \<notin> set NORMAL_COSTS"
  by code_simp+

lemma group_of_field:
  assumes "j < length cost_map"
  shows "map_of (map (\<lambda>(i, f, _). (f, i)) (enumerate k cost_map)) (fst (cost_map ! j)) = Some (k + j)"
proof (rule map_of_is_SomeI)
  have "map fst (map (\<lambda>(i, f, _). (f, i)) (enumerate k xs)) = map fst xs" for xs :: "(jsstr \<times> jsstr) list"
    by (induction xs arbitrary: k) auto
  then show "distinct (map fst (map (\<lambda>(i, f, _). (f, i)) (enumerate k cost_map)))" using cost_map_facts(1) by simp
  have "(k + j, cost_map ! j) \<in> set (enumerate k cost_map)" using assms by (simp add: in_set_enumerate_eq)
  then show "(fst (cost_map ! j), k + j) \<in> set (map (\<lambda>(i, f, _). (f, i)) (enumerate k cost_map))"
    unfolding list.set_map by (rule image_eqI [rotated]) (simp split: prod.splits)
qed

lemma matched_costs:
  fixes n :: nat and c0 :: captures
  assumes "valid_cost ic" "valid_cost oc" "\<And>v x. f v = Some x \<Longrightarrow> valid_cost x" "\<forall>i \<ge> n. map_of c0 i = None"
  shows "px_costs (matched_tier n cs (tier_captures n label ic oc f @ c0)) field =
    (case map_of cost_map field of
       Some v \<Rightarrow> f v
     | None \<Rightarrow> if field = INPUT_COST then Some ic else if field = OUTPUT_COST then Some oc else None)"
proof (cases "map_of cost_map field")
  case None
  have "map fst (map (\<lambda>(i, f, _). (f, i)) (enumerate k xs)) = map fst xs" for k and xs :: "(jsstr \<times> jsstr) list"
    by (induction xs arbitrary: k) auto
  then have "fst ` set (map (\<lambda>(i, f, _). (f, i)) (enumerate (n + 3) cost_map)) = fst ` set cost_map"
    unfolding list.set_map [symmetric] by simp
  then have "map_of (map (\<lambda>(i, f, _). (f, i)) (enumerate (n + 3) cost_map)) field = None"
    using None unfolding map_of_eq_None_iff by simp
  then show ?thesis using None valid_cost_text(3) [OF assms(1)] valid_cost_text(3) [OF assms(2)]
    by (simp only: matched_tier_def PartialTier.simps option.case tier_captured split: if_splits)
next
  case (Some v)
  then obtain j where j: "j < length cost_map" "cost_map ! j = (field, v)" using map_of_SomeD in_set_conv_nth by metis
  have v: "cache_vars ! j = v" "j < length cache_vars" using j by (simp_all add: cache_vars_def)
  have "capture (tier_captures n label ic oc f @ c0) (n + 3 + j) = map_option num_to_string (f v)"
    using tier_captured(4) [OF v(2) assms(4)] v(1) by simp
  moreover have "map_of (map (\<lambda>(i, f, _). (f, i)) (enumerate (n + 3) cost_map)) field = Some (n + 3 + j)"
    using group_of_field [OF j(1), of "n + 3"] j(2) by simp
  moreover have "map_option js_Number (map_option num_to_string (f v)) = f v"
    using valid_cost_text(3) assms(3) by (cases "f v") auto
  ultimately show ?thesis using Some by (simp add: matched_tier_def)
qed

section \<open>The round trip\<close>

text \<open>Tiers as the editor keeps them: valid costs, a label without quotes, conditions that can be read.\<close>

definition editor_tier :: "VisualTier \<Rightarrow> bool" where
  "editor_tier t \<longleftrightarrow> xt_billing_unit t = None \<and> xt_fixed_price t = None \<and> xt_label t \<noteq> [] \<and> 34 \<notin> set (xt_label t) \<and>
     list_all valid_condition (xt_conditions t) \<and> xt_cache_mode t = getTierCacheMode ((as_partial t)\<lparr>px_cache_mode := None\<rparr>) \<and>
     (\<forall>field. case xt_costs t field of
        Some x \<Rightarrow> field \<in> set (INPUT_COST # OUTPUT_COST # map fst cost_map) \<and> valid_cost x \<and>
          (field \<notin> set (INPUT_COST # OUTPUT_COST # NORMAL_COSTS) \<longrightarrow> x \<noteq> zero_num)
      | None \<Rightarrow> field \<notin> set (INPUT_COST # OUTPUT_COST # NORMAL_COSTS))"

definition tier_cost :: "VisualTier \<Rightarrow> jsstr \<Rightarrow> jsnum option" where
  "tier_cost t v =
     (case map_of (map (\<lambda>(f, v). (v, f)) cost_map) v of
        None \<Rightarrow> None
      | Some field \<Rightarrow> if cost_or_zero (xt_costs t field) = zero_num then None else Some (cost_or_zero (xt_costs t field)))"

lemma valid_cost_or_zero: "valid_cost x \<Longrightarrow> cost_or_zero (Some x) = x" "cost_or_zero None = zero_num" "valid_cost zero_num"
  by (auto simp: valid_cost_def cost_or_zero_def zero_num_def mk_num_numeral)

lemma editor_tier_cost:
  assumes "editor_tier t"
  shows "xt_costs t field = Some x \<Longrightarrow> field \<in> set (INPUT_COST # OUTPUT_COST # map fst cost_map) \<and> valid_cost x \<and>
      (field \<notin> set (INPUT_COST # OUTPUT_COST # NORMAL_COSTS) \<longrightarrow> x \<noteq> zero_num)"
    and "xt_costs t field = None \<Longrightarrow> field \<notin> set (INPUT_COST # OUTPUT_COST # NORMAL_COSTS)"
proof -
  have "case xt_costs t field of
      Some x \<Rightarrow> field \<in> set (INPUT_COST # OUTPUT_COST # map fst cost_map) \<and> valid_cost x \<and>
        (field \<notin> set (INPUT_COST # OUTPUT_COST # NORMAL_COSTS) \<longrightarrow> x \<noteq> zero_num)
    | None \<Rightarrow> field \<notin> set (INPUT_COST # OUTPUT_COST # NORMAL_COSTS)"
    using assms unfolding editor_tier_def by (elim conjE) (rule spec)
  then show "xt_costs t field = Some x \<Longrightarrow> field \<in> set (INPUT_COST # OUTPUT_COST # map fst cost_map) \<and> valid_cost x \<and>
      (field \<notin> set (INPUT_COST # OUTPUT_COST # NORMAL_COSTS) \<longrightarrow> x \<noteq> zero_num)"
    and "xt_costs t field = None \<Longrightarrow> field \<notin> set (INPUT_COST # OUTPUT_COST # NORMAL_COSTS)"
    by (simp_all only: option.case simp_thms) blast
qed

lemma normal_cost_valid:
  assumes "editor_tier t"
  shows "valid_cost (cost_or_zero (xt_costs t field))"
proof (cases "xt_costs t field")
  case None
  then show ?thesis by (simp only: valid_cost_or_zero)
next
  case (Some x)
  then have "valid_cost x" using editor_tier_cost(1) [OF assms] by blast
  then show ?thesis using Some by (simp only: valid_cost_or_zero)
qed

lemma normal_base_cost:
  assumes "editor_tier t" "field \<in> set (INPUT_COST # OUTPUT_COST # NORMAL_COSTS)"
  shows "xt_costs t field = Some (cost_or_zero (xt_costs t field))"
proof -
  obtain x where x: "xt_costs t field = Some x" using editor_tier_cost(2) [OF assms(1), of field] assms(2) by blast
  then have "valid_cost x" using editor_tier_cost(1) [OF assms(1)] by blast
  then show ?thesis using x by (simp only: valid_cost_or_zero)
qed

lemma tier_cost_valid: "editor_tier t \<Longrightarrow> tier_cost t v = Some x \<Longrightarrow> valid_cost x"
  using normal_cost_valid by (auto simp: tier_cost_def split: option.splits if_splits)

lemma tier_cost_field:
  assumes "map_of cost_map field = Some v"
  shows "tier_cost t v = (if cost_or_zero (xt_costs t field) = zero_num then None else Some (cost_or_zero (xt_costs t field)))"
proof -
  have "(field, v) \<in> set cost_map" using assms by (rule map_of_SomeD)
  then have "map_of (map (\<lambda>(f, v). (v, f)) cost_map) v = Some field" using cost_map_facts(5) by (auto simp: list_all_iff)
  then show ?thesis by (simp add: tier_cost_def)
qed

abbreviation captured_tier :: "nat \<Rightarrow> captures \<Rightarrow> VisualTier \<Rightarrow> PartialTier" where
  "captured_tier n c0 t \<equiv> matched_tier n (xt_conditions t)
     (tier_captures n (xt_label t) (cost_or_zero (xt_costs t INPUT_COST)) (cost_or_zero (xt_costs t OUTPUT_COST)) (tier_cost t) @ c0)"

lemma captured_costs:
  assumes "editor_tier t" "\<forall>i \<ge> n. map_of c0 i = None"
  shows "px_costs (captured_tier n c0 t) field = (case map_of cost_map field of Some v \<Rightarrow> tier_cost t v
    | None \<Rightarrow> if field = INPUT_COST then Some (cost_or_zero (xt_costs t INPUT_COST))
        else if field = OUTPUT_COST then Some (cost_or_zero (xt_costs t OUTPUT_COST)) else None)"
  by (rule matched_costs [OF normal_cost_valid [OF assms(1)] normal_cost_valid [OF assms(1)] tier_cost_valid [OF assms(1)] assms(2)])

lemma captured_normal_cost:
  assumes "editor_tier t" "\<forall>i \<ge> n. map_of c0 i = None"
  shows "normal_cost (px_costs (captured_tier n c0 t)) field = xt_costs t field"
proof -
  note costs = captured_costs [OF assms]
  have none: "map_of cost_map INPUT_COST = None" "map_of cost_map OUTPUT_COST = None"
    using cost_map_facts(2,3) by (simp_all add: map_of_eq_None_iff)
  consider (normal) v where "field \<in> set NORMAL_COSTS" "map_of cost_map field = Some v"
    | (extra) v where "field \<notin> set NORMAL_COSTS" "map_of cost_map field = Some v" | (other) "field \<notin> set NORMAL_COSTS" "map_of cost_map field = None"
  proof (cases "map_of cost_map field")
    case None
    then have "field \<notin> set NORMAL_COSTS" using cost_map_facts(6) by (auto simp: list_all_iff map_of_eq_None_iff)
    then show thesis using other None by blast
  qed blast
  then show ?thesis
  proof cases
    case normal
    then have "cost_or_zero (px_costs (captured_tier n c0 t) field) = cost_or_zero (xt_costs t field)"
      using normal_cost_valid [OF assms(1), of field] by (simp add: costs tier_cost_field valid_cost_or_zero)
    then show ?thesis using normal normal_base_cost [OF assms(1)] by (simp add: normal_cost_def)
  next
    case extra
    then have f: "field \<noteq> INPUT_COST" "field \<noteq> OUTPUT_COST" using none by auto
    show ?thesis
    proof (cases "xt_costs t field")
      case None
      then show ?thesis using extra f by (simp add: normal_cost_def costs tier_cost_field valid_cost_or_zero)
    next
      case (Some x)
      then have "valid_cost x" "x \<noteq> zero_num" using editor_tier_cost(1) [OF assms(1) Some] extra f by auto
      then show ?thesis using Some extra f by (simp add: normal_cost_def costs tier_cost_field valid_cost_or_zero)
    qed
  next
    case other
    then have "xt_costs t field = None" if "field \<noteq> INPUT_COST" "field \<noteq> OUTPUT_COST"
      using that editor_tier_cost(1) [OF assms(1), of field] by (cases "xt_costs t field") (auto simp: map_of_eq_None_iff)
    then show ?thesis using other normal_base_cost [OF assms(1)] by (auto simp: normal_cost_def costs)
  qed
qed

lemma captured_mode:
  assumes "editor_tier t" "\<forall>i \<ge> n. map_of c0 i = None"
  shows "getTierCacheMode (captured_tier n c0 t) = xt_cache_mode t"
proof -
  obtain v where v: "map_of cost_map TIMED_COST = Some v"
    using cost_map_facts(6,7) by (metis list_all_iff map_of_eq_None_iff not_None_eq)
  define y where "y = cost_or_zero (xt_costs t TIMED_COST)"
  have y: "xt_costs t TIMED_COST = Some y"
    using normal_base_cost [OF assms(1), of TIMED_COST] cost_map_facts(7) unfolding y_def by simp
  have "xt_cache_mode t = getTierCacheMode ((as_partial t)\<lparr>px_cache_mode := None\<rparr>)" using assms(1) unfolding editor_tier_def by blast
  then have "xt_cache_mode t = (if js_lt zero_num y then Cache_timed else Cache_generic)"
    by (simp add: getTierCacheMode_def as_partial_def y)
  moreover have "px_costs (captured_tier n c0 t) TIMED_COST = (if y = zero_num then None else Some y)"
    unfolding captured_costs [OF assms] v option.case tier_cost_field [OF v] y_def ..
  moreover have "\<not> js_lt zero_num zero_num" by (simp add: zero_num_def)
  moreover have "px_cache_mode (captured_tier n c0 t) = None" by (simp add: matched_tier_def)
  ultimately show ?thesis by (simp add: getTierCacheMode_def)
qed

lemma read_tier:
  assumes "editor_tier t" "\<forall>i \<ge> n. map_of c0 i = None"
  shows "normalizeVisualTier (captured_tier n c0 t) = t"
  using assms(1) captured_normal_cost [OF assms] captured_mode [OF assms]
  by (cases t) (auto simp: normalizeVisualTier_def fun_eq_iff editor_tier_def matched_tier_def tier_captured)

lemma join_Cons: "join sep (x # xs) = x @ concat (map (\<lambda>y. sep @ y) xs)"
proof (induction xs arbitrary: x)
  case (Cons y ys)
  then show ?case by simp
qed simp

lemma body_of_tier:
  assumes "editor_tier t"
  shows "buildTierBodyExpr t = body_text (cost_or_zero (xt_costs t INPUT_COST)) (cost_or_zero (xt_costs t OUTPUT_COST)) (tier_cost t)"
proof -
  have zero: "js_num_eq (cost_or_zero (xt_costs t field)) zero_num \<longleftrightarrow> cost_or_zero (xt_costs t field) = zero_num" for field
    using normal_cost_valid [OF assms, of field] by (auto simp: valid_cost_def zero_num_def)
  have "concat (map (\<lambda>y. js '' + '' @ y) (concat (map (\<lambda>(field, v). let c = cost_or_zero (xt_costs t field)
      in if \<not> js_num_eq c zero_num then [cost_term v c] else []) M))) = concat (map (summand_text (tier_cost t)) (map snd M))"
    if "set M \<subseteq> set cost_map" for M
    using that
  proof (induction M)
    case (Cons p M)
    obtain field v where p: "p = (field, v)" by (cases p)
    have "map_of cost_map field = Some v" using Cons.prems p cost_map_facts(1) by (simp add: map_of_eq_Some_iff)
    then have "summand_text (tier_cost t) v = (if cost_or_zero (xt_costs t field) = zero_num then []
        else js '' + '' @ cost_term v (cost_or_zero (xt_costs t field)))"
      by (simp add: summand_text_def tier_cost_field)
    then show ?case using Cons p zero by (simp add: Let_def)
  qed simp
  then show ?thesis using assms
    by (simp add: buildTierBodyExpr_def editor_tier_def body_text_def join_Cons cache_vars_def)
qed

lemma conditions_written:
  assumes "list_all valid_condition cs"
  shows "buildConditionStr cs = conditions_text cs"
proof -
  have "filter (\<lambda>c. ti_var c \<noteq> [] \<and> ti_op c \<noteq> [] \<and> ti_bound c \<noteq> Value_text []) cs = cs"
    using assms by (auto simp: filter_id_conv list_all_iff valid_condition_def)
  then have "buildConditionStr cs = join (js '' && '') (map tier_condition_text cs)" unfolding buildConditionStr_def by (simp only:)
  then show ?thesis by (cases cs) (simp_all add: conditions_text_def join_Cons comp_def)
qed

lemma conditions_text_empty: "list_all valid_condition cs \<Longrightarrow> conditions_text cs = [] \<longleftrightarrow> cs = []"
  by (cases cs) (simp_all add: conditions_text_def condition_ends)

lemma conditions_read:
  assumes "list_all valid_condition cs"
  shows "read_conditions (conditions_text cs) = cs"
proof (cases cs)
  case (Cons c rest)
  have "concat (map read_condition (map tier_condition_text ds)) = ds" if "list_all valid_condition ds" for ds
    using that by (induction ds) (simp_all add: read_valid_condition)
  then show ?thesis using split_conditions [of c rest] assms Cons conditions_text_empty [OF assms]
    by (simp add: read_conditions_def conditions_text_def read_valid_condition)
qed (simp add: read_conditions_def conditions_text_def)

abbreviation written :: "VisualTier \<Rightarrow> jsstr" where
  "written t \<equiv> written_tier (xt_conditions t) (xt_label t) (cost_or_zero (xt_costs t INPUT_COST))
     (cost_or_zero (xt_costs t OUTPUT_COST)) (tier_cost t)"

definition matched :: "VisualTier \<Rightarrow> captures" where
  "matched t = tier_captures 2 (xt_label t) (cost_or_zero (xt_costs t INPUT_COST)) (cost_or_zero (xt_costs t OUTPUT_COST)) (tier_cost t) @
     (if xt_conditions t = [] then [] else [(1, conditions_text (xt_conditions t))])"

lemma written_match:
  assumes "editor_tier t"
  shows "leads tierRe (written t @ s) [] s (matched t)"
  unfolding matched_def using assms tier_cost_valid [OF assms] normal_cost_valid [OF assms]
  by (intro leads_tierRe) (auto simp: editor_tier_def)

lemma matched_read:
  assumes "editor_tier t"
  shows "normalizeVisualTier (matched_tier 2 (read_conditions (captured (matched t) 1)) (matched t)) = t"
proof -
  let ?c0 = "if xt_conditions t = [] then [] else [(1, conditions_text (xt_conditions t))] :: captures"
  have "capture (matched t) 1 = map_of ?c0 1" unfolding matched_def by (rule tier_captured(5)) simp
  then have "captured (matched t) 1 = conditions_text (xt_conditions t)"
    by (cases "xt_conditions t") (simp_all add: captured_def conditions_text_def)
  moreover have "list_all valid_condition (xt_conditions t)" using assms by (simp add: editor_tier_def)
  ultimately have "read_conditions (captured (matched t) 1) = xt_conditions t" by (simp add: conditions_read)
  then show ?thesis using read_tier [OF assms, of 2 ?c0] by (simp add: matched_def)
qed

text \<open>The texts of several tiers, from the first match to the last.\<close>

lemma written_Cons: "\<exists>x s. written t = x # s"
  by (cases "written t") (simp_all add: written_tier_def)

lemma exec_written:
  "list_all editor_tier (t # ts) \<Longrightarrow>
   re_exec_all tierRe (written t @ concat (map (\<lambda>t. js '' : '' @ written t) ts) @ tail) = map matched (t # ts) @ re_exec_all tierRe tail"
proof (induction ts arbitrary: t)
  case Nil
  obtain x s where x: "written t = x # s" using written_Cons by blast
  have "leads tierRe (x # s @ tail) [] tail (matched t)" using written_match [of t tail] Nil x by simp
  then show ?case using exec_step(1) x by simp
next
  case (Cons u us)
  let ?tail = "js '' : '' @ written u @ concat (map (\<lambda>t. js '' : '' @ written t) us) @ tail"
  obtain x s where x: "written t = x # s" using written_Cons by blast
  have "leads tierRe (x # s @ ?tail) [] ?tail (matched t)" using written_match [of t ?tail] Cons.prems x by simp
  then have "re_exec_all tierRe (x # s @ ?tail) = matched t # re_exec_all tierRe ?tail" by (rule exec_step(1)) simp
  moreover have "re_exec_all tierRe ?tail = re_exec_all tierRe (written u @ concat (map (\<lambda>t. js '' : '' @ written t) us) @ tail)"
  proof -
    let ?r = "concat (map (\<lambda>t. js '' : '' @ written t) us) @ tail"
    obtain y r where y: "written u = y # r" using written_Cons by blast
    have "leads tierRe (y # r @ ?r) [] ?r (matched u)" using written_match [of u ?r] Cons.prems y by simp
    then show ?thesis using exec_step [of y "r @ ?r" ?r "matched u"] y by simp
  qed
  ultimately show ?case using Cons x by simp
qed

text \<open>The configurations that are written without loss: every tier but the last is conditional, or there is one tier.\<close>

definition editor_config :: "VisualConfig \<Rightarrow> bool" where
  "editor_config ts \<longleftrightarrow> ts \<noteq> [] \<and> list_all editor_tier ts \<and>
     (length ts = 1 \<or> list_all (\<lambda>t. xt_conditions t \<noteq> []) (butlast ts) \<and> xt_conditions (last ts) = [])"

lemma normal_fixed:
  assumes "editor_tier t"
  shows "normalizeVisualTier (as_partial t) = t"
proof -
  have "normal_cost (xt_costs t) field = xt_costs t field" for field
    using normal_base_cost [OF assms, of field] by (auto simp: normal_cost_def)
  then show ?thesis by (cases t) (simp add: normalizeVisualTier_def as_partial_def getTierCacheMode_def fun_eq_iff)
qed

lemma editor_config_fixed: "list_all editor_tier ts \<Longrightarrow> ts \<noteq> [] \<Longrightarrow> normalizeVisualConfig (Some ts) = ts"
  by (auto simp: normalizeVisualConfig_def list_all_iff normal_fixed intro: map_idI)

lemma tier_written:
  assumes "editor_tier t"
  shows "written t = (if xt_conditions t = [] then [] else conditions_text (xt_conditions t) @ js '' ? '') @ tier_text (xt_label t) t"
  by (simp add: written_tier_def tier_text_def body_of_tier [OF assms])

lemma written_conditions:
  "editor_tier t \<Longrightarrow> buildConditionStr (xt_conditions t) = conditions_text (xt_conditions t) \<and>
     (conditions_text (xt_conditions t) = [] \<longleftrightarrow> xt_conditions t = [])"
  using conditions_written conditions_text_empty by (simp add: editor_tier_def)

lemma conditions_head:
  assumes "editor_tier t" "xt_conditions t \<noteq> []"
  obtains x s where "written t = x # s" "x \<in> {112, 99, 108}"
proof -
  obtain c cs where c: "xt_conditions t = c # cs" using assms(2) by (cases "xt_conditions t") auto
  then have "ti_var c \<in> {js ''p'', js ''c'', js ''len''}" using assms(1) by (simp add: editor_tier_def valid_condition_def)
  then show thesis using that c by (auto simp: written_tier_def conditions_text_def tier_condition_text_def)
qed

lemma generate_single:
  assumes "editor_tier t"
  shows "generateExprFromVisualConfig (Some [t]) = written t @ (if xt_conditions t = [] then [] else js '' : p * 0 + c * 0'')"
  using assms written_conditions [OF assms] by (simp add: generateExprFromVisualConfig_def Let_def tier_written editor_tier_def)

lemma generate_several:
  assumes "editor_config (t # u # ts)"
  shows "generateExprFromVisualConfig (Some (t # u # ts)) = written t @ concat (map (\<lambda>t. js '' : '' @ written t) (u # ts))"
proof -
  let ?ts = "t # u # ts"
  have part: "tier_part (length ?ts) (i, ?ts ! i) = written (?ts ! i)" if i: "i < length ?ts" for i
  proof -
    have n: "editor_tier (?ts ! i)" using assms i by (simp only: editor_config_def list_all_length)
    have "Suc i < length ?ts \<longleftrightarrow> xt_conditions (?ts ! i) \<noteq> []"
    proof (cases "Suc i < length ?ts")
      case True
      then have "?ts ! i \<in> set (butlast ?ts)" by (metis length_butlast less_diff_conv nth_butlast nth_mem plus_1_eq_Suc add.commute)
      then show ?thesis using assms True by (auto simp: editor_config_def list_all_iff)
    next
      case False
      then have "?ts ! i = last ?ts" using i by (metis last_conv_nth length_greater_0_conv Suc_lessI diff_Suc_1 i list.distinct(1))
      then show ?thesis using assms False by (simp add: editor_config_def)
    qed
    then show ?thesis using n written_conditions [OF n]
      by (auto simp: tier_part_def Let_def tier_written editor_tier_def)
  qed
  have "map (tier_part (length ?ts)) (enumerate 0 ?ts) = map written ?ts"
    by (rule nth_equalityI) (simp_all only: length_map length_enumerate nth_map nth_enumerate_eq add_0 part)
  then show ?thesis unfolding generateExprFromVisualConfig_def option.case list.case by (simp only: join_Cons list.map map_map comp_def)
qed

lemma no_version: "x \<noteq> 118 \<Longrightarrow> without_version (x # s) = x # s"
  by (simp add: without_version_def first_match_def)

lemma no_single: "x \<noteq> 116 \<Longrightarrow> first_match singleRe (x # s) = None"
  by (simp add: singleRe_def tierPat_def first_match_def)

lemma parse_chain:
  assumes "list_all editor_tier ts" "ts \<noteq> []" "e = x # s" "x \<in> {112, 99, 108}"
    "re_exec_all tierRe e = map matched ts" "generateExprFromVisualConfig (Some ts) = e"
  shows "tryParseVisualConfig (Some e) = Some ts"
proof -
  have "map (\<lambda>m. normalizeVisualTier (matched_tier 2 (read_conditions (captured m 1)) m)) (map matched ts) = ts"
    unfolding map_map by (rule map_idI) (use assms(1) in \<open>simp only: comp_def matched_read list_all_iff\<close>)
  moreover have "without_version e = e" "first_match singleRe e = None"
    using assms(3,4) no_version [of x s] no_single [of x s] by auto
  ultimately show ?thesis using assms editor_config_fixed [OF assms(1,2)]
    by (simp add: tryParseVisualConfig_def Let_def)
qed

lemma exec_nothing: "re_exec_all tierRe [] = []" "re_exec_all tierRe (js '' : p * 0 + c * 0'') = []"
  by code_simp+

lemma parse_plain:
  assumes "editor_tier t" "xt_conditions t = []"
  shows "tryParseVisualConfig (Some (written t)) = Some [t]"
proof -
  let ?m = "tier_captures 1 (xt_label t) (cost_or_zero (xt_costs t INPUT_COST)) (cost_or_zero (xt_costs t OUTPUT_COST)) (tier_cost t) @ []"
  have "34 \<notin> set (xt_label t)" using assms(1) by (simp add: editor_tier_def)
  then have "leads (tierPat 1) (js ''tier('' @ [34] @ xt_label t @ [34] @ js '', '' @ body_text (cost_or_zero (xt_costs t INPUT_COST))
      (cost_or_zero (xt_costs t OUTPUT_COST)) (tier_cost t) @ js '')'' @ []) [] [] ?m"
    by (rule leads_tier [OF _ normal_cost_valid [OF assms(1)] normal_cost_valid [OF assms(1)] tier_cost_valid [OF assms(1)]])
  then have "leads (tierPat 1) (written t) [] [] ?m" by (simp add: written_tier_def assms(2))
  then have "leads singleRe (written t) [] [] ?m" unfolding singleRe_def using leads_end by (rule leads_seq)
  then have "first_match singleRe (written t) = Some ([], ?m)" by (rule first_match_leads)
  moreover have "without_version (written t) = written t" "written t \<noteq> []"
    using no_version [of 116] by (simp_all add: written_tier_def assms(2))
  moreover have "normalizeVisualTier (matched_tier 1 [] ?m) = t" using read_tier [OF assms(1), of 1 "[]"] assms(2) by simp
  ultimately show ?thesis using assms(1) editor_config_fixed [of "[t]"] by (simp add: tryParseVisualConfig_def)
qed

lemma tier_roundtrip:
  assumes "editor_config ts"
  shows "tryParseVisualConfig (Some (generateExprFromVisualConfig (Some ts))) = Some ts"
proof -
  have normal: "list_all editor_tier ts" "ts \<noteq> []" using assms by (simp_all add: editor_config_def)
  consider (plain) t where "ts = [t]" "xt_conditions t = []" | (cond) t where "ts = [t]" "xt_conditions t \<noteq> []"
    | (chain) t u us where "ts = t # u # us" using normal(2) by (cases ts; cases "tl ts") auto
  then show ?thesis
  proof cases
    case plain
    then show ?thesis using normal parse_plain [of t] by (simp add: generate_single)
  next
    case cond
    then have t: "editor_tier t" using normal by simp
    obtain x s where x: "written t = x # s" "x \<in> {112, 99, 108}" using conditions_head [OF t cond(2)] .
    show ?thesis
    proof (rule parse_chain [OF normal])
      show "generateExprFromVisualConfig (Some ts) = x # s @ js '' : p * 0 + c * 0''" using generate_single [OF t] cond x by simp
      show "re_exec_all tierRe (generateExprFromVisualConfig (Some ts)) = map matched ts"
        using exec_written [of t "[]" "js '' : p * 0 + c * 0''"] t cond generate_single [OF t] exec_nothing(2) by simp
    qed (use x in simp_all)
  next
    case chain
    then have t: "editor_tier t" "xt_conditions t \<noteq> []" using assms by (auto simp: editor_config_def)
    obtain x s where x: "written t = x # s" "x \<in> {112, 99, 108}" using conditions_head [OF t] .
    have g: "generateExprFromVisualConfig (Some ts) = written t @ concat (map (\<lambda>t. js '' : '' @ written t) (u # us))"
      using generate_several assms chain by blast
    show ?thesis
    proof (rule parse_chain [OF normal])
      show "generateExprFromVisualConfig (Some ts) = x # s @ concat (map (\<lambda>t. js '' : '' @ written t) (u # us))" using g x by simp
      show "re_exec_all tierRe (generateExprFromVisualConfig (Some ts)) = map matched ts"
        using exec_written [of t "u # us" "[]"] normal chain g exec_nothing(1) by simp
    qed (use x in simp_all)
  qed
qed

text \<open>What the editor can hold: the last tier of a chain may have conditions too. They are not written.\<close>

definition editor_draft :: "VisualConfig \<Rightarrow> bool" where
  "editor_draft ts \<longleftrightarrow> ts \<noteq> [] \<and> list_all editor_tier ts \<and>
     (length ts = 1 \<or> list_all (\<lambda>t. xt_conditions t \<noteq> []) (butlast ts))"

definition stored_config :: "VisualConfig \<Rightarrow> VisualConfig" where
  "stored_config ts = (if length ts \<le> 1 then ts else butlast ts @ [(last ts)\<lparr>xt_conditions := []\<rparr>])"

lemma stored_nth:
  assumes "i < length ts" "1 < length ts"
  shows "stored_config ts ! i = (if Suc i < length ts then ts ! i else (ts ! i)\<lparr>xt_conditions := []\<rparr>)"
proof (cases "Suc i < length ts")
  case False
  then have "i = length ts - 1" "ts \<noteq> []" using assms by auto
  then show ?thesis using assms by (auto simp: stored_config_def nth_append last_conv_nth)
qed (use assms in \<open>simp add: stored_config_def nth_append nth_butlast\<close>)

lemma editor_tier_unconditional: "editor_tier t \<Longrightarrow> editor_tier (t\<lparr>xt_conditions := []\<rparr>)"
  by (simp add: editor_tier_def as_partial_def getTierCacheMode_def)

lemma stored_editor_config:
  assumes "editor_draft ts"
  shows "editor_config (stored_config ts)"
proof (cases "length ts = 1")
  case True
  then show ?thesis using assms by (simp add: editor_draft_def editor_config_def stored_config_def)
next
  case False
  then have "\<not> length ts \<le> 1" using assms by (cases ts) (auto simp: editor_draft_def)
  then show ?thesis using assms False editor_tier_unconditional [of "last ts"]
    by (auto simp: editor_draft_def editor_config_def stored_config_def list_all_iff dest: in_set_butlastD)
qed

lemma length_stored: "length (stored_config ts) = length ts"
  by (auto simp: stored_config_def)

lemma generate_stored: "generateExprFromVisualConfig (Some (stored_config ts)) = generateExprFromVisualConfig (Some ts)"
proof (cases "length ts \<le> 1")
  case False
  have "map (tier_part (length ts)) (enumerate 0 (stored_config ts)) = map (tier_part (length ts)) (enumerate 0 ts)"
  proof (rule nth_equalityI)
    fix i assume "i < length (map (tier_part (length ts)) (enumerate 0 (stored_config ts)))"
    then have i: "i < length ts" "1 < length ts" using False by (simp_all add: length_stored)
    then show "map (tier_part (length ts)) (enumerate 0 (stored_config ts)) ! i = map (tier_part (length ts)) (enumerate 0 ts) ! i"
      by (simp add: nth_enumerate_eq length_stored stored_nth)
        (auto simp: tier_part_def Let_def tier_text_def buildTierBodyExpr_def)
  qed (simp add: length_stored)
  moreover obtain a b us where "ts = a # b # us" using False by (cases ts; cases "tl ts") auto
  moreover obtain c d vs where "stored_config ts = c # d # vs" using False length_stored [of ts]
    by (cases "stored_config ts"; cases "tl (stored_config ts)") auto
  ultimately show ?thesis using length_stored [of ts] unfolding generateExprFromVisualConfig_def by simp
qed (simp add: stored_config_def)

lemma draft_roundtrip:
  assumes "editor_draft ts"
  shows "tryParseVisualConfig (Some (generateExprFromVisualConfig (Some ts))) = Some (stored_config ts)"
  using tier_roundtrip [OF stored_editor_config [OF assms]] by (simp only: generate_stored)

section \<open>The estimator\<close>

text \<open>An estimate without an error is a cost that is finite and not negative.\<close>

lemma estimate_valid:
  assumes "er_error (evalExprLocally H e p c extra X) = None"
  shows "isFinite (er_cost (evalExprLocally H e p c extra X)) \<and> \<not> js_lt (er_cost (evalExprLocally H e p c extra X)) zero_num"
proof (cases "trim e = []")
  case False
  let ?r = "evaluate_compiled H (compile_source e) ((case X of Some X \<Rightarrow> X | None \<Rightarrow> empty_context)\<lparr>cx_tokens := Some
    (spread (buildEstimatorTokens p c extra) (case cx_tokens (case X of Some X \<Rightarrow> X | None \<Rightarrow> empty_context) of Some ts \<Rightarrow> ts | None \<Rightarrow> []))\<rparr>)"
  obtain s where s: "?r = Eval_success s" using assms False by (cases ?r) (auto simp: evalExprLocally_def Let_def)
  then obtain compiled X' where "evaluation_steps H compiled X' = Inr s"
    by (auto simp: evaluate_compiled_def split: CompilationResult.splits sum.splits)
  then have "isFinite (bs_cost s) \<and> \<not> js_lt (bs_cost s) zero_num" by (rule evaluation_steps_success) simp
  then show ?thesis using s False by (simp add: evalExprLocally_def Let_def)
qed (simp add: evalExprLocally_def zero_num_def)

end
