(* ===== verification/Condition_Display.thy ===== *)
theory Condition_Display
  imports Compile Display JS_Value
begin

text \<open>
  Conditions as text for the reader (\<^verbatim>\<open>features/pricing/lib/billing-expression/condition-display.ts\<close> and
  \<open>toIntlLocale\<close> of \<^verbatim>\<open>i18n/languages.ts\<close>). Translation and the \<open>Intl\<close> formatters belong to libraries and the
  host: they are the fields of a record, and may throw. Everything the texts depend on - ranges of a time
  function, grouping, time zones, parentheses - is modelled.
\<close>

section \<open>Locales and translation\<close>

record display_host =
  dh_translate :: "jsstr \<Rightarrow> (jsstr \<times> jsval) list \<Rightarrow> exn + jsstr"
  dh_canonical :: "jsstr \<Rightarrow> jsstr option"
  dh_weekday :: "jsstr option \<Rightarrow> int \<Rightarrow> exn + jsstr"
  dh_number :: "jsstr option \<Rightarrow> jsnum \<Rightarrow> exn + jsstr"

definition toIntlLocale :: "display_host \<Rightarrow> jsstr \<Rightarrow> jsstr option" where
  "toIntlLocale D v =
     (if v = [] then None
      else if v = js ''zhCN'' then Some (js ''zh-CN'')
      else if v = js ''zhTW'' then Some (js ''zh-TW'')
      else dh_canonical D v)"

text \<open>\<open>t(key, { ...options, interpolation: { escapeValue: false } })\<close>.\<close>

definition translate :: "display_host \<Rightarrow> jsstr \<Rightarrow> (jsstr \<times> jsval) list \<Rightarrow> exn + jsstr" where
  "translate D key options =
     dh_translate D key (options @ [(js ''interpolation'', JObj [(js ''escapeValue'', JBool False)])])"

section \<open>Ranges of time\<close>

datatype DescriptionKind = Calendar | Clock | Combined

record Description =
  ds_text :: jsstr
  ds_kind :: DescriptionKind
  ds_timezone :: jsstr
  ds_disjunction :: bool

record TimeComparison =
  cp_name :: jsstr
  cp_timezone :: jsstr
  cp_operator :: jsstr
  cp_value :: jsnum

definition DOMAINS :: "(jsstr \<times> int \<times> int) list" where
  "DOMAINS = [(js ''hour'', 0, 24), (js ''minute'', 0, 60), (js ''weekday'', 0, 7), (js ''month'', 1, 13), (js ''day'', 1, 32)]"

definition timeComparison :: "ExpressionNode \<Rightarrow> TimeComparison option" where
  "timeComparison node =
     (case node of
        Binary f (Call name (Literal (LStr zone) _ _ _ # _) _ _) (Literal (LNum v) _ _ _) _ _ \<Rightarrow>
          if f \<in> set [js ''=='', js ''>='', js ''>'', js ''<='', js ''<''] \<and> name \<in> set TIME_FUNCTIONS \<and> isInteger v
          then Some \<lparr>cp_name = name, cp_timezone = (if trim zone = [] then js ''UTC'' else trim zone),
                     cp_operator = f, cp_value = v\<rparr>
          else None
      | _ \<Rightarrow> None)"

text \<open>The loop over the comparisons: the range from \<open>start\<close> up to and without \<open>end\<close>.\<close>

definition narrow :: "TimeComparison \<Rightarrow> jsnum \<times> jsnum \<Rightarrow> jsnum \<times> jsnum" where
  "narrow c r =
     (case r of (start, stop) \<Rightarrow>
        let v = cp_value c; next = js_add v one_num
        in if cp_operator c = js ''>='' then (js_max start v, stop)
           else if cp_operator c = js ''>'' then (js_max start next, stop)
           else if cp_operator c = js ''<'' then (start, js_min stop v)
           else if cp_operator c = js ''<='' then (start, js_min stop next)
           else if cp_operator c = js ''=='' then (js_max start v, js_min stop next)
           else (start, stop))"

definition domain_of :: "jsstr \<Rightarrow> jsnum \<times> jsnum" where
  "domain_of name = (case map_of DOMAINS name of Some (a, b) \<Rightarrow> (num_of_int a, num_of_int b) | None \<Rightarrow> (NaN, NaN))"

definition time_bounds :: "TimeComparison list \<Rightarrow> jsnum \<times> jsnum" where
  "time_bounds cmps =
     (case cmps of [] \<Rightarrow> (NaN, NaN) | first # _ \<Rightarrow> fold narrow cmps (domain_of (cp_name first)))"

definition RANGE_TEXT :: jsstr where
  "RANGE_TEXT = js ''{{start}}'' @ [8211] @ js ''{{end}}''"

text \<open>\<open>String(x).padStart(2, '0') + ':00'\<close>.\<close>

definition hour_text :: "jsnum \<Rightarrow> jsstr" where
  "hour_text x = (let s = num_to_string x in replicate (2 - length s) 48 @ s @ js '':00'')"

text \<open>\<open>Date.UTC(2026, 0, 4 + offset)\<close>: the 4th of January 2026 is day 20457.\<close>

definition sunday_after :: "jsnum \<Rightarrow> int" where
  "sunday_after offset = (20457 + \<lfloor>num_val offset\<rfloor>) * 86400000"

definition range_text :: "display_host \<Rightarrow> jsstr \<Rightarrow> jsstr \<Rightarrow> jsnum \<Rightarrow> jsnum \<Rightarrow> exn + jsstr" where
  "range_text D locale name start stop =
     (let final = js_sub stop one_num; single = js_num_eq start final
      in if name = js ''hour'' then
           translate D RANGE_TEXT [(js ''start'', JStr (hour_text start)), (js ''end'', JStr (hour_text stop))]
         else if name = js ''weekday'' then
           bindR (dh_weekday D (toIntlLocale D locale) (sunday_after start)) (\<lambda>from.
           bindR (dh_weekday D (toIntlLocale D locale) (sunday_after final)) (\<lambda>to.
           if single then Inr from else translate D RANGE_TEXT [(js ''start'', JStr from), (js ''end'', JStr to)]))
         else
           bindR (if single then Inr (num_to_string start)
                  else translate D RANGE_TEXT [(js ''start'', JNum start), (js ''end'', JNum final)]) (\<lambda>shown.
           bindR (translate D
                    (if name = js ''minute'' then js ''Minute'' else if name = js ''month'' then js ''Month'' else js ''Day'')
                    []) (\<lambda>label.
           Inr (label @ js '': '' @ shown))))"

definition describeTimeRange :: "display_host \<Rightarrow> jsstr \<Rightarrow> TimeComparison list \<Rightarrow> exn + Description option" where
  "describeTimeRange D locale cmps =
     (case cmps of
        [] \<Rightarrow> Inr None
      | first # _ \<Rightarrow>
          (case time_bounds cmps of (start, stop) \<Rightarrow>
             if js_le stop start then Inr None
             else
               bindR (range_text D locale (cp_name first) start stop) (\<lambda>text.
               Inr (Some \<lparr>ds_text = text, ds_kind = (if cp_name first = js ''hour'' then Clock else Calendar),
                          ds_timezone = cp_timezone first, ds_disjunction = False\<rparr>))))"

section \<open>Conditions\<close>

text \<open>A loop that stops at \<open>null\<close> and at an exception.\<close>

fun mapRO :: "('a \<Rightarrow> 'e + 'b option) \<Rightarrow> 'a list \<Rightarrow> 'e + 'b list option" where
  "mapRO f [] = Inr (Some [])"
| "mapRO f (x # xs) =
     bindR (f x) (\<lambda>r.
       case r of
         None \<Rightarrow> Inr None
       | Some y \<Rightarrow> bindR (mapRO f xs) (\<lambda>rs. Inr (case rs of None \<Rightarrow> None | Some ys \<Rightarrow> Some (y # ys))))"

lemma mapRO_cong [fundef_cong]:
  assumes "xs = ys" and "\<And>x. x \<in> set ys \<Longrightarrow> f x = g x"
  shows "mapRO f xs = mapRO g ys"
proof -
  have "\<forall>x \<in> set ys. f x = g x \<Longrightarrow> mapRO f ys = mapRO g ys" for ys
    by (induction ys) simp_all
  then show ?thesis using assms by simp
qed

definition range_key :: "TimeComparison \<Rightarrow> jsstr" where
  "range_key c = cp_name c @ js '':'' @ cp_timezone c"

definition add_range :: "TimeComparison \<Rightarrow> (jsstr, TimeComparison list) js_map \<Rightarrow> (jsstr, TimeComparison list) js_map" where
  "add_range c ranges =
     (let range = (case map_of ranges (range_key c) of Some cs \<Rightarrow> cs | None \<Rightarrow> [])
      in js_map_set (range_key c) (range @ [c]) ranges)"

definition grouped :: "TimeComparison list \<Rightarrow> (jsstr, TimeComparison list) js_map" where
  "grouped cmps = fold add_range cmps []"

definition VARIABLE_LABELS :: "(jsstr \<times> jsstr) list" where
  "VARIABLE_LABELS = [(js ''p'', js ''Input''), (js ''c'', js ''Output''), (js ''len'', js ''Full input length'')]"

definition is_variable_comparison :: "ExpressionNode \<Rightarrow> (jsstr \<times> jsstr \<times> jsnum) option" where
  "is_variable_comparison node =
     (case node of
        Binary f (Variable x _ _) (Literal (LNum v) _ _ _) _ _ \<Rightarrow>
          if f \<in> set [js ''<'', js ''<='', js ''>'', js ''>='', js ''=='', js ''!=''] then Some (x, f, v) else None
      | _ \<Rightarrow> None)"

definition describe_variable :: "display_host \<Rightarrow> jsstr \<Rightarrow> jsstr \<times> jsstr \<times> jsnum \<Rightarrow> exn + Description option" where
  "describe_variable D locale vc =
     (case vc of (x, f, v) \<Rightarrow>
        (case map_of VARIABLE_LABELS x of
           None \<Rightarrow> Inr None
         | Some label \<Rightarrow>
             bindR (translate D label []) (\<lambda>name.
             bindR (dh_number D (toIntlLocale D locale) v) (\<lambda>shown.
             Inr (Some \<lparr>ds_text = name @ js '' '' @ f @ js '' '' @ shown, ds_kind = Combined, ds_timezone = [],
                        ds_disjunction = False\<rparr>)))))"

definition wrapped :: "jsstr \<Rightarrow> Description \<Rightarrow> jsstr" where
  "wrapped operator d =
     (if operator = js ''&&'' \<and> ds_disjunction d then js ''('' @ ds_text d @ js '')'' else ds_text d)"

definition join_parts :: "display_host \<Rightarrow> jsstr \<Rightarrow> Description \<Rightarrow> Description list \<Rightarrow> exn + jsstr" where
  "join_parts D operator first rest =
     foldR (\<lambda>d text.
         translate D (if operator = js ''&&'' then js ''{{first}} and {{second}}'' else js ''{{first}} or {{second}}'')
           [(js ''first'', JStr text), (js ''second'', JStr (wrapped operator d))])
       rest (wrapped operator first)"

text \<open>The end of the description of a conjunction or disjunction, from the descriptions of its parts.\<close>

definition combine_descriptions :: "display_host \<Rightarrow> jsstr \<Rightarrow> Description list \<Rightarrow> exn + Description option" where
  "combine_descriptions D operator parts =
     (let zones = fold set_add (filter (\<lambda>z. z \<noteq> []) (map ds_timezone parts)) [];
          calendars = filter (\<lambda>d. ds_kind d = Calendar) parts;
          clocks = filter (\<lambda>d. ds_kind d = Clock) parts
      in case parts of
           [] \<Rightarrow> Inr None
         | first # rest \<Rightarrow>
             if 1 < length zones then Inr None
             else if rest = [] then Inr (Some first)
             else if operator = js ''&&'' \<and> length parts = 2 \<and> length calendars = 1 \<and> length clocks = 1 then
               Inr (Some \<lparr>ds_text = ds_text (hd calendars) @ js '' '' @ ds_text (hd clocks), ds_kind = Combined,
                          ds_timezone = ds_timezone first, ds_disjunction = False\<rparr>)
             else
               bindR (join_parts D operator first rest) (\<lambda>text.
               Inr (Some \<lparr>ds_text = text, ds_kind = (if length clocks = length parts then Clock else Combined),
                          ds_timezone = (case zones of z # _ \<Rightarrow> z | [] \<Rightarrow> []), ds_disjunction = (operator = js ''||'')\<rparr>)))"

definition describe_ranges :: "display_host \<Rightarrow> jsstr \<Rightarrow> ExpressionNode list \<Rightarrow> exn + Description list option" where
  "describe_ranges D locale nodes =
     mapRO (\<lambda>r. describeTimeRange D locale (snd r)) (grouped (List.map_filter timeComparison nodes))"

function describeBillingCondition :: "display_host \<Rightarrow> jsstr \<Rightarrow> ExpressionNode \<Rightarrow> exn + Description option" where
  "describeBillingCondition D locale (Unary f x s e) =
     (if f = js ''!'' then
        bindR (describeBillingCondition D locale x) (\<lambda>r.
          case r of
            None \<Rightarrow> Inr None
          | Some d \<Rightarrow>
              bindR (translate D (js ''Outside these times: {{condition}}'') [(js ''condition'', JStr (ds_text d))]) (\<lambda>text.
              Inr (Some (d\<lparr>ds_text := text, ds_kind := Combined\<rparr>))))
      else Inr None)"
| "describeBillingCondition D locale (Binary f l r s e) =
     (case is_variable_comparison (Binary f l r s e) of
        Some vc \<Rightarrow> describe_variable D locale vc
      | None \<Rightarrow>
          (case timeComparison (Binary f l r s e) of
             Some c \<Rightarrow> describeTimeRange D locale [c]
           | None \<Rightarrow>
               if f \<noteq> js ''&&'' \<and> f \<noteq> js ''||'' then Inr None
               else
                 (let nodes = flattenBinary f l @ flattenBinary f r
                  in bindR (mapRO (describeBillingCondition D locale)
                              (filter (\<lambda>n. f = js ''||'' \<or> timeComparison n = None) nodes)) (\<lambda>described.
                     case described of
                       None \<Rightarrow> Inr None
                     | Some parts \<Rightarrow>
                         bindR (if f = js ''&&'' then describe_ranges D locale nodes else Inr (Some [])) (\<lambda>ranges.
                         case ranges of
                           None \<Rightarrow> Inr None
                         | Some others \<Rightarrow> combine_descriptions D f (parts @ others))))))"
| "describeBillingCondition D locale (Literal v i s e) = Inr None"
| "describeBillingCondition D locale (Variable x s e) = Inr None"
| "describeBillingCondition D locale (Call f args s e) = Inr None"
| "describeBillingCondition D locale (Conditional c y n s e) = Inr None"
  by pat_completeness auto
termination
  by (relation "measure (\<lambda>(_, _, node). size node)") (auto dest: size_flattenBinary)

definition formatBillingCondition :: "display_host \<Rightarrow> jsstr \<Rightarrow> jsstr \<Rightarrow> jsstr option" where
  "formatBillingCondition D locale src =
     (case compile_source src of
        Failed _ \<Rightarrow> None
      | Ready c \<Rightarrow>
          (case bindR (describeBillingCondition D locale (compiled_ast c)) (\<lambda>r.
                  case r of
                    None \<Rightarrow> Inr None
                  | Some d \<Rightarrow>
                      if ds_timezone d = [] then Inr (Some (ds_text d))
                      else
                        bindR (translate D (js ''{{condition}} ({{timezone}})'')
                                 [(js ''condition'', JStr (ds_text d)), (js ''timezone'', JStr (ds_timezone d))]) (\<lambda>text.
                        Inr (Some text))) of
             Inl _ \<Rightarrow> None
           | Inr text \<Rightarrow> text))"

end
