(* ===== verification/Display_Props.thy ===== *)
theory Display_Props
  imports Display
begin

text \<open>
  What the price tables say is what evaluation does: a token-tier chain lists its tiers in the order in
  which evaluation tries them, the tiers by time split the clock completely and without overlap, and
  task tiers mention declared facts only.
\<close>

section \<open>Token tiers agree with evaluation\<close>

definition condition_holds :: "BillingSimulationContext \<Rightarrow> TokenTierCondition \<Rightarrow> bool" where
  "condition_holds X c \<longleftrightarrow>
     (\<exists>x. context_token X (tc_var c) = JNum x \<and> compare_values (tc_op c) (JNum x) (JNum (tc_value c)) = Some True)"

definition tier_holds :: "BillingSimulationContext \<Rightarrow> TokenTier \<Rightarrow> bool" where
  "tier_holds X t \<longleftrightarrow> list_all (condition_holds X) (tt_conditions t)"

lemma mapO_append:
  "mapO f (xs @ ys) = (case mapO f xs of None \<Rightarrow> None | Some us \<Rightarrow> map_option (\<lambda>vs. us @ vs) (mapO f ys))"
  by (induction xs; cases "mapO f ys") (auto split: option.splits)

lemma variable_value_token:
  "variable_value X x pos = Inr v \<Longrightarrow> x \<noteq> js ''image_count'' \<Longrightarrow> \<exists>y. context_token X x = JNum y \<and> v = plain (JNum y)"
  by (auto simp: variable_value_def split: jsval.splits if_splits)

lemma tokenCondition_shape:
  assumes "tokenCondition part = Some c"
  obtains a b i a' b' s e where "part = Binary (tc_op c) (Variable (tc_var c) a b) (Literal (LNum (tc_value c)) i a' b') s e"
    "tc_op c \<in> set ORDER_OPERATORS" "tc_var c \<in> {js ''p'', js ''c'', js ''len''}"
  using assms by (auto simp: tokenCondition_def split: ExpressionNode.splits literal.splits if_splits)

lemma compare_order: "f \<in> set ORDER_OPERATORS \<Longrightarrow> \<exists>b. compare_values f (JNum x) (JNum y) = Some b"
  by (auto simp: compare_values_def ORDER_OPERATORS_def)

lemma binary_values_compare:
  assumes "f \<in> set ORDER_OPERATORS" "binary_values f (plain (JNum x)) r pos = Inr v" "rv_value r = JNum y"
  shows "compare_values f (JNum x) (JNum y) = Some b \<Longrightarrow> rv_value v = JBool b"
  using assms by (auto simp: binary_values_def ORDER_OPERATORS_def Let_def)

lemma evaluate_variable:
  "evaluate H rules X d (Variable x a b) st = Inr (v, st') \<Longrightarrow> st' = st \<and> variable_value X x a = Inr v"
  by (drule evaluate_step(1)) (auto simp: evaluateNode_def bindR_eq_Inr)

lemma evaluate_literal:
  "evaluate H rules X d (Literal l i a b) st = Inr (v, st') \<Longrightarrow> st' = st \<and> rv_value v = lit_val l"
  by (drule evaluate_step(1)) (auto simp: evaluateNode_def)

lemma literal_argument:
  assumes "string_arg (evaluate H rules X d) (Literal (LStr t) i s e # rest) 0 st = Inr (r, st')"
  shows "r = t \<and> st' = st"
proof -
  let ?ev = "evaluate H rules X d" and ?arg = "Literal (LStr t) i s e"
  have "string_of ?ev ?arg st = Inr (r, st')" using assms by (simp add: string_arg_def with_arg_def arg_at_def)
  then obtain w s0 where w: "?ev ?arg st = Inr (w, s0)" and c: "(case rv_value w of JStr s \<Rightarrow> Inr (s, s0)
      | _ \<Rightarrow> Inl (billing_error Type_code (js ''string argument'') (Some (node_start ?arg)))) = Inr (r, st')"
    unfolding string_of_def bindR_eq_Inr split_paired_Ex prod.case by blast
  then show ?thesis using evaluate_literal [OF w] by simp
qed

lemma evaluate_condition:
  assumes "tokenCondition n = Some c" "evaluate H rules X d n st = Inr (v, st')"
  shows "st' = st \<and> rv_value v = JBool (condition_holds X c)"
proof -
  from assms(1) obtain a b i a' b' s e where
    n: "n = Binary (tc_op c) (Variable (tc_var c) a b) (Literal (LNum (tc_value c)) i a' b') s e"
    and op: "tc_op c \<in> set ORDER_OPERATORS" and var: "tc_var c \<in> {js ''p'', js ''c'', js ''len''}"
    by (rule tokenCondition_shape)
  have "tc_op c \<noteq> js ''&&''" "tc_op c \<noteq> js ''||''" using op by (auto simp: ORDER_OPERATORS_def)
  then obtain l st1 r where ev: "evaluate H rules X (d + 1) (Variable (tc_var c) a b) st = Inr (l, st1)"
    "evaluate H rules X (d + 1) (Literal (LNum (tc_value c)) i a' b') st1 = Inr (r, st')"
    "binary_values (tc_op c) l r s = Inr v"
    using evaluate_step(1) [OF assms(2)] by (auto simp: n evaluateNode_def binary_of_def bindR_eq_Inr)
  have "tc_var c \<noteq> js ''image_count''" using var by auto
  then obtain y where y: "context_token X (tc_var c) = JNum y" "l = plain (JNum y)"
    using evaluate_variable [OF ev(1)] variable_value_token by blast
  obtain b where b: "compare_values (tc_op c) (JNum y) (JNum (tc_value c)) = Some b" using compare_order [OF op] by blast
  have "rv_value v = JBool b"
    using binary_values_compare [OF op ev(3) [unfolded y(2)] _ b] evaluate_literal [OF ev(2)] by simp
  then show ?thesis using evaluate_variable [OF ev(1)] evaluate_literal [OF ev(2)] y b by (auto simp: condition_holds_def)
qed

lemma evaluate_conditions:
  "mapO tokenCondition (flattenBinary (js ''&&'') n) = Some cs \<Longrightarrow> evaluate H rules X d n st = Inr (v, st') \<Longrightarrow>
     st' = st \<and> rv_value v = JBool (list_all (condition_holds X) cs)"
proof (induction "js ''&&''" n arbitrary: cs d st v st' rule: flattenBinary.induct)
  case (1 f l r s e)
  show ?case
  proof (cases "f = js ''&&''")
    case True
    obtain us vs where uv: "mapO tokenCondition (flattenBinary (js ''&&'') l) = Some us"
      "mapO tokenCondition (flattenBinary (js ''&&'') r) = Some vs" "cs = us @ vs"
      using "1.prems"(1) True by (auto simp: mapO_append split: option.splits)
    obtain a st1 where a: "boolean_of (evaluate H rules X (Suc d)) l st = Inr (a, st1)"
      and rest: "(if a then bindR (boolean_of (evaluate H rules X (Suc d)) r st1) (\<lambda>(b, st). Inr (plain (JBool b), st))
          else Inr (plain (JBool False), st1)) = Inr (v, st')"
      using evaluate_step(1) [OF "1.prems"(2)] True by (auto simp: evaluateNode_def binary_of_def elim!: bindR_pairE)
    have l: "st1 = st" "a = list_all (condition_holds X) us"
      using a "1.hyps"(1) [OF True uv(1)] by (auto simp: typed_iff)
    show ?thesis
    proof (cases a)
      case True
      then obtain b where b: "boolean_of (evaluate H rules X (Suc d)) r st = Inr (b, st')" "v = plain (JBool b)"
        using rest l by (auto simp: bindR_eq_Inr)
      then show ?thesis using "1.hyps"(2) [OF \<open>f = js ''&&''\<close> uv(2)] True l uv(3) by (auto simp: typed_iff)
    next
      case False
      then show ?thesis using rest l uv(3) by auto
    qed
  next
    case False
    then show ?thesis using "1.prems" evaluate_condition [of "Binary f l r s e"] by (auto split: option.splits)
  qed
qed (auto simp: tokenCondition_def)

text \<open>A tier call sets its label, and a fixed price as the table shows it.\<close>

definition shows_tier :: "TokenTier \<Rightarrow> rt \<Rightarrow> bool" where
  "shows_tier t st \<longleftrightarrow> rt_tier st = tt_label t \<and>
     (\<forall>amount. tt_fixedPrice t = Some amount \<longrightarrow> rt_unit st = Unit_request \<and> rt_fixed st = Some amount)"

lemma tokenTier_shape:
  assumes "tokenTier n cs = Some t"
  obtains i a b body s e where "n = Call (js ''tier'') [Literal (LStr (tt_label t)) i a b, body] s e"
    "tt_conditions t = cs" "\<not> tt_imageCount t" "tt_conditionText t = None"
    "\<And>amount. tt_fixedPrice t = Some amount \<Longrightarrow> \<exists>i a b s e. body = Call (js ''fixed'') [Literal (LNum amount) i a b] s e"
proof -
  obtain i a b body s e label where n: "n = Call (js ''tier'') [Literal (LStr label) i a b, body] s e"
    using assms by (auto simp: tokenTier_def split: ExpressionNode.splits list.splits literal.splits if_splits)
  have body: "(case (case body of Call g [Literal (LNum amount) _ _ _] _ _ \<Rightarrow> if g = js ''fixed'' then Some amount else None
                 | _ \<Rightarrow> None) of
         Some amount \<Rightarrow> Some ((plain_tier label cs [])\<lparr>tt_billingUnit := Some Unit_request, tt_fixedPrice := Some amount\<rparr>)
       | None \<Rightarrow> (case collect_prices (flattenBinary (js ''+'') body) [] of None \<Rightarrow> None
            | Some prices \<Rightarrow> if prices = [] then None else Some (plain_tier label cs prices))) = Some t"
    using assms n by (simp add: tokenTier_def)
  show ?thesis
  proof (cases "(case body of Call g [Literal (LNum amount) _ _ _] _ _ \<Rightarrow> if g = js ''fixed'' then Some amount else None
                 | _ \<Rightarrow> None)")
    case None
    then show ?thesis using body n that by (auto simp: plain_tier_def split: option.splits if_splits)
  next
    case (Some amount)
    then have "\<exists>i a b s e. body = Call (js ''fixed'') [Literal (LNum amount) i a b] s e"
      by (auto split: ExpressionNode.splits list.splits literal.splits if_splits)
    then show ?thesis using body n that Some by (auto simp: plain_tier_def)
  qed
qed

lemma evaluate_tokenTier:
  assumes "tokenTier n cs = Some t" "evaluate H rules X d n st = Inr (v, st')"
  shows "shows_tier t st'"
proof -
  from assms(1) obtain i a b body s e where n: "n = Call (js ''tier'') [Literal (LStr (tt_label t)) i a b, body] s e"
    and fx: "\<And>amount. tt_fixedPrice t = Some amount \<Longrightarrow> \<exists>i a b s e. body = Call (js ''fixed'') [Literal (LNum amount) i a b] s e"
    by (rule tokenTier_shape) blast
  obtain r st2 where ev: "evaluate H rules X (d + 1) body st = Inr (r, st2)" "st' = st2\<lparr>rt_tier := tt_label t\<rparr>"
    using evaluate_step(1) [OF assms(2)] unfolding n
    by (auto simp: evaluateNode_def call_of_def arg_iff arg_at_def bindR_eq_Inr dest!: evaluate_literal)
  have "rt_unit st2 = Unit_request \<and> rt_fixed st2 = Some amount" if fp: "tt_fixedPrice t = Some amount" for amount
  proof -
    obtain j u w x y where body: "body = Call (js ''fixed'') [Literal (LNum amount) j u w] x y" using fx [OF fp] by blast
    show ?thesis using evaluate_step(1) [OF ev(1)] unfolding body
      by (auto simp: evaluateNode_def call_of_def arg_iff arg_at_def bindR_eq_Inr dest!: evaluate_literal)
  qed
  then show ?thesis using ev(2) by (simp add: shows_tier_def)
qed

lemma tokenTier_plain:
  "tokenTier n cs = Some t \<Longrightarrow> tt_conditions t = cs \<and> tt_conditionText t = None"
  by (rule tokenTier_shape) auto

lemma tier_chain_evaluates:
  "tier_chain n = Some ts \<Longrightarrow> evaluate H rules X d n st = Inr (v, st') \<Longrightarrow>
     \<exists>t. find (tier_holds X) ts = Some t \<and> shows_tier t st'"
proof -
  have single: "tier_holds X t \<and> shows_tier t st'"
    if "tokenTier n [] = Some t" "evaluate H rules X d n st = Inr (v, st')" for n t d st v st'
    using evaluate_tokenTier [OF that] tokenTier_plain [OF that(1)] by (simp add: tier_holds_def)
  show "tier_chain n = Some ts \<Longrightarrow> evaluate H rules X d n st = Inr (v, st') \<Longrightarrow>
     \<exists>t. find (tier_holds X) ts = Some t \<and> shows_tier t st'"
proof (induction n arbitrary: ts d st v st' rule: tier_chain.induct)
  case (1 c y n s e)
  obtain cs t ts' where t: "tokenConditions c = Some cs" "tokenTier y cs = Some t" "tier_chain n = Some ts'" "ts = t # ts'"
    using "1.prems"(1) by (auto split: option.splits)
  let ?n = "Conditional c y n s e"
  obtain b st1 where b: "boolean_of (evaluate H rules X (d + 1)) c st = Inr (b, st1)"
    and r: "evaluate H rules X (d + 1) (if b then y else n) (mark_rule rules ?n b st1) = Inr (v, st')"
    using evaluate_step(1) [OF "1.prems"(2)] by (auto simp: evaluateNode_def Let_def elim!: bindR_pairE)
  have "b = list_all (condition_holds X) cs"
    using b t(1) evaluate_conditions [of c cs] by (auto simp: typed_iff tokenConditions_def)
  moreover have "tt_conditions t = cs" using tokenTier_plain [OF t(2)] by simp
  ultimately have h: "tier_holds X t = b" by (simp add: tier_holds_def)
  show ?case
  proof (cases b)
    case True
    then show ?thesis using evaluate_tokenTier [OF t(2)] r h t(4) by auto
  next
    case False
    then show ?thesis using "1.IH" [OF t(1,2) t(3)] r h t(4) by auto
  qed
qed (insert single, auto)
qed

lemma shows_tier_scaled: "shows_tier (t\<lparr>tt_imageCount := b\<rparr>) st = shows_tier t st"
  and tier_holds_scaled: "tier_holds X (t\<lparr>tt_imageCount := b\<rparr>) = tier_holds X t"
  by (simp_all add: shows_tier_def tier_holds_def)

lemma find_map: "find P (map f xs) = map_option f (find (\<lambda>x. P (f x)) xs)"
  by (induction xs) auto

lemma evaluate_image_count:
  "is_image_count n \<Longrightarrow> evaluate H rules X d n st = Inr (v, st') \<Longrightarrow> st' = st"
  by (cases n) (auto simp: is_image_count_def dest: evaluate_variable)

lemma readTokenTierChain_cases:
  assumes "readTokenTierChain n = Some ts"
  obtains "audio_tiers n = Some ts" | "tier_chain n = Some ts"
  | l r s e m us where "n = Binary (js ''*'') l r s e" "is_image_count l \<and> m = r \<or> is_image_count r \<and> m = l"
      "readTokenTierChain m = Some us" "ts = map (\<lambda>t. t\<lparr>tt_imageCount := True\<rparr>) us"
proof (cases "audio_tiers n")
  case (Some us)
  then show ?thesis using assms that(1) by (subst (asm) readTokenTierChain.simps) simp
next
  case None
  show ?thesis
  proof (cases n)
    case (Binary f l r s e)
    show ?thesis
    proof (cases "f = js ''*'' \<and> is_image_count l")
      case True
      then show ?thesis using assms None Binary that(3) [of l r s e r] by (subst (asm) readTokenTierChain.simps) auto
    next
      case False
      show ?thesis
      proof (cases "f = js ''*'' \<and> is_image_count r")
        case True
        then show ?thesis using assms None Binary False that(3) [of l r s e l]
          by (subst (asm) readTokenTierChain.simps) auto
      next
        case False
        then show ?thesis using assms None Binary that(2) \<open>\<not> (f = js ''*'' \<and> is_image_count l)\<close>
          by (subst (asm) readTokenTierChain.simps) auto
      qed
    qed
  qed (use assms None that(2) in \<open>subst (asm) readTokenTierChain.simps, simp\<close>)+
qed

lemma tier_chain_nonempty: "tier_chain m = Some us \<Longrightarrow> us \<noteq> []"
  by (cases m) (auto split: option.splits)

lemma audio_tiers_nonempty: "audio_tiers n = Some us \<Longrightarrow> us \<noteq> []"
  by (auto simp: audio_tiers_def split: ExpressionNode.splits if_splits option.splits)

lemma readTokenTierChain_nonempty: "readTokenTierChain n = Some ts \<Longrightarrow> ts \<noteq> []"
proof (induction n arbitrary: ts rule: measure_induct_rule [of size])
  case (less n)
  from less.prems show ?case
  proof (cases rule: readTokenTierChain_cases)
    case (3 l r s e m us)
    then have "size m < size n" by auto
    then show ?thesis using less.IH 3(3,4) by blast
  qed (auto dest: tier_chain_nonempty audio_tiers_nonempty)
qed

text \<open>The audio table has its own condition texts; every other table is a chain tried in order.\<close>

lemma audio_tiers_texts: "audio_tiers n = Some us \<Longrightarrow> \<exists>t \<in> set us. tt_conditionText t \<noteq> None"
  by (auto simp: audio_tiers_def split: ExpressionNode.splits if_splits option.splits)

lemma readTokenTierChain_evaluates:
  "readTokenTierChain n = Some ts \<Longrightarrow> \<forall>t \<in> set ts. tt_conditionText t = None \<Longrightarrow>
     evaluate H rules X d n st = Inr (v, st') \<Longrightarrow> \<exists>t. find (tier_holds X) ts = Some t \<and> shows_tier t st'"
proof (induction n arbitrary: ts d st v st' rule: measure_induct_rule [of size])
  case (less n)
  from less.prems(1) show ?case
  proof (cases rule: readTokenTierChain_cases)
    case 1
    then show ?thesis using audio_tiers_texts less.prems(2) by fastforce
  next
    case 2
    then show ?thesis using tier_chain_evaluates less.prems(3) by blast
  next
    case (3 l r s e m us)
    obtain a st1 b where ev: "evaluate H rules X (d + 1) l st = Inr (a, st1)"
      "evaluate H rules X (d + 1) r st1 = Inr (b, st')"
      using binary_times_states [OF less.prems(3) [unfolded 3(1)]] by blast
    obtain d' st0 w where m: "evaluate H rules X d' m st0 = Inr (w, st')"
      using ev 3(2) evaluate_image_count by blast
    have "size m < size n" "\<forall>t \<in> set us. tt_conditionText t = None" using 3(1,2,4) less.prems(2) by auto
    then obtain t where "find (tier_holds X) us = Some t" "shows_tier t st'" using less.IH [OF _ 3(3) _ m] by blast
    then show ?thesis using 3(4) by (simp add: find_map tier_holds_scaled shows_tier_scaled)
  qed
qed

section \<open>Tiers by time split the clock\<close>

text \<open>
  The conditions of the branches form a decision tree: where every condition on the way has a value,
  exactly the tiers of one leaf are current.
\<close>

definition current_for :: "(ExpressionNode \<Rightarrow> bool option) \<Rightarrow> (ExpressionNode \<times> bool) list \<Rightarrow> bool" where
  "current_for val path \<longleftrightarrow> list_all (\<lambda>(c, m). val c = Some m) path"

lemma time_leaf_conditions:
  "time_leaf src n path = Some tiers \<Longrightarrow> tiers \<noteq> [] \<and> (\<forall>t \<in> set tiers. tm_conditions t = path)"
  by (auto simp: time_leaf_def time_tier_def dest: readTokenTierChain_nonempty split: option.splits if_splits)

lemma timeTierBranches_cases:
  assumes "timeTierBranches src n path = Inr (Some tiers)"
  obtains "time_leaf src n path = Some tiers"
  | c y m s e a b where "n = Conditional c y m s e" "isTimeCondition c = Inr True"
      "timeTierBranches src y (path @ [(c, True)]) = Inr (Some a)"
      "timeTierBranches src m (path @ [(c, False)]) = Inr (Some b)" "tiers = a @ b"
  using assms by (cases n) (auto simp: bindR_eq_Inr split: if_splits option.splits)

lemma timeTierBranches_paths:
  "timeTierBranches src n path = Inr (Some tiers) \<Longrightarrow> tiers \<noteq> [] \<and> (\<forall>t \<in> set tiers. \<exists>q. tm_conditions t = path @ q)"
proof (induction n arbitrary: path tiers rule: measure_induct_rule [of size])
  case (less n)
  from less.prems(1) show ?case
  proof (cases rule: timeTierBranches_cases)
    case 1
    then show ?thesis using time_leaf_conditions by fastforce
  next
    case (2 c y m s e a b)
    have "size y < size n" "size m < size n" using 2(1) by auto
    then show ?thesis using less.IH [OF _ 2(3)] less.IH [OF _ 2(4)] 2(5) by fastforce
  qed
qed

text \<open>Where every condition has a value, the current tiers are those of one leaf, and there are some.\<close>

definition one_leaf :: "(ExpressionNode \<Rightarrow> bool option) \<Rightarrow> (ExpressionNode \<times> bool) list \<Rightarrow> TimeTokenTier list \<Rightarrow> bool" where
  "one_leaf val path tiers \<longleftrightarrow>
     (\<exists>q. filter (\<lambda>t. current_for val (tm_conditions t)) tiers = filter (\<lambda>t. tm_conditions t = path @ q) tiers \<and>
       filter (\<lambda>t. tm_conditions t = path @ q) tiers \<noteq> [])"

lemma one_leaf_append:
  assumes "one_leaf val (path @ [(c, k)]) a" "val c = Some k"
    "\<forall>t \<in> set b. \<exists>q. tm_conditions t = path @ (c, \<not> k) # q"
  shows "one_leaf val path (a @ b)" "one_leaf val path (b @ a)"
proof -
  obtain q where q: "filter (\<lambda>t. current_for val (tm_conditions t)) a = filter (\<lambda>t. tm_conditions t = path @ (c, k) # q) a"
    "filter (\<lambda>t. tm_conditions t = path @ (c, k) # q) a \<noteq> []"
    using assms(1) by (auto simp: one_leaf_def)
  have b: "filter (\<lambda>t. current_for val (tm_conditions t)) b = []" "filter (\<lambda>t. tm_conditions t = path @ (c, k) # q) b = []"
    using assms(2,3) by (auto simp: filter_empty_conv current_for_def)
  show "one_leaf val path (a @ b)" "one_leaf val path (b @ a)"
    unfolding one_leaf_def by (rule exI [of _ "(c, k) # q"], simp add: q b)+
qed

lemma timeTierBranches_current:
  "timeTierBranches src n path = Inr (Some tiers) \<Longrightarrow> current_for val path \<Longrightarrow>
     \<forall>t \<in> set tiers. \<forall>p \<in> set (tm_conditions t). val (fst p) \<noteq> None \<Longrightarrow> one_leaf val path tiers"
proof (induction n arbitrary: path tiers rule: measure_induct_rule [of size])
  case (less n)
  from less.prems(1) show ?case
  proof (cases rule: timeTierBranches_cases)
    case 1
    then have "tiers \<noteq> []" "\<forall>t \<in> set tiers. tm_conditions t = path" by (auto dest: time_leaf_conditions)
    then show ?thesis unfolding one_leaf_def using less.prems(2)
      by (intro exI [of _ "[]"]) (auto simp: filter_empty_conv intro!: filter_cong)
  next
    case (2 c y m s e a b)
    have pa: "a \<noteq> []" "\<forall>t \<in> set a. \<exists>q. tm_conditions t = path @ (c, True) # q"
      and pb: "\<forall>t \<in> set b. \<exists>q. tm_conditions t = path @ (c, False) # q"
      using timeTierBranches_paths [OF 2(3)] timeTierBranches_paths [OF 2(4)] by auto
    obtain t q where t: "t \<in> set tiers" "tm_conditions t = path @ (c, True) # q"
      using pa 2(5) by (cases a) auto
    have "val c \<noteq> None" using bspec [OF bspec [OF less.prems(3) t(1)], of "(c, True)"] t(2) by simp
    then obtain k where k: "val c = Some k" by blast
    show ?thesis
    proof (cases k)
      case True
      have "one_leaf val (path @ [(c, True)]) a"
        using less.prems(2,3) k True 2(1,5)
        by (intro less.IH [OF _ 2(3)]) (auto simp: current_for_def)
      then show ?thesis using one_leaf_append(1) [of val path c True] k True pb 2(5) by simp
    next
      case False
      have "one_leaf val (path @ [(c, False)]) b"
        using less.prems(2,3) k False 2(1,5)
        by (intro less.IH [OF _ 2(4)]) (auto simp: current_for_def)
      then show ?thesis using one_leaf_append(2) [of val path c False] k False pa(2) 2(5) by simp
    qed
  qed
qed

section \<open>Task tiers mention declared facts\<close>

definition condition_ok :: "BillingUsageSchema \<Rightarrow> bool \<Rightarrow> TaskCondition \<Rightarrow> bool" where
  "condition_ok schema includeBoolean c \<longleftrightarrow>
     (\<exists>d. map_of schema (kc_field c) = Some d \<and>
       (if uf_type d = Some Field_boolean then includeBoolean \<and> kc_value c \<in> {js ''true'', js ''false''}
        else \<exists>values. uf_enum d = Some values \<and> kc_value c \<in> set values))"

definition prices_ok :: "BillingUsageSchema \<Rightarrow> (jsstr, jsnum) js_map \<Rightarrow> bool" where
  "prices_ok schema prices \<longleftrightarrow> distinct (map fst prices) \<and>
     (\<forall>field \<in> set (map fst prices). \<exists>d. map_of schema field = Some d \<and> uf_type d = Some Field_number \<and> has_unit d)"

definition task_tier_ok :: "BillingUsageSchema \<Rightarrow> bool \<Rightarrow> TaskTier \<Rightarrow> bool" where
  "task_tier_ok schema includeBoolean t \<longleftrightarrow> list_all (condition_ok schema includeBoolean) (kt_conditions t) \<and>
     kt_unitPrices t \<noteq> [] \<and> prices_ok schema (kt_unitPrices t)"

text \<open>The tiers so far: each has a condition, and none is shadowed by an earlier one.\<close>

definition unshadowed :: "TaskTier list \<Rightarrow> bool" where
  "unshadowed ts \<longleftrightarrow> (\<forall>i < length ts. \<not> shadowed (take i ts) (kt_conditions (ts ! i)))"

definition task_table_ok :: "BillingUsageSchema \<Rightarrow> bool \<Rightarrow> TaskTier list \<Rightarrow> bool" where
  "task_table_ok schema includeBoolean ts \<longleftrightarrow> ts \<noteq> [] \<and> list_all (task_tier_ok schema includeBoolean) ts \<and>
     kt_conditions (last ts) = [] \<and> (\<forall>t \<in> set (butlast ts). kt_conditions t \<noteq> []) \<and> unshadowed ts"

lemma task_term_ok:
  assumes "task_term schema ib n = Some (Term_condition c)"
  shows "condition_ok schema ib c"
proof -
  obtain f l r s e where "n = Binary f l r s e" using assms by (cases n) (auto simp: task_term_def)
  moreover then obtain v i a b where "r = Literal v i a b" using assms by (cases r) (auto simp: task_term_def)
  ultimately obtain field where n: "n = Binary f l (Literal v i a b) s e" "f = js ''==''" "usage_field l = Some field"
    using assms by (auto simp: task_term_def split: if_splits option.splits)
  obtain d where d: "map_of schema field = Some d"
    using assms n by (cases "map_of schema field"; cases v) (auto simp: task_term_def split: bool.splits)
  have eq: "task_term schema ib n = (if uf_type d = Some Field_boolean
      then (case v of LBool b \<Rightarrow> if ib then Some (Term_condition \<lparr>kc_field = field,
              kc_value = (if b then js ''true'' else js ''false'')\<rparr>) else None | _ \<Rightarrow> None)
      else (case (v, uf_enum d) of (LStr s, Some values) \<Rightarrow>
              (let c = \<lparr>kc_field = field, kc_value = s\<rparr> in Some (if s \<in> set values then Term_condition c else Term_unreachable))
            | _ \<Rightarrow> None))"
    unfolding task_term_def n(1,2) by (simp add: n(3) d)
  show ?thesis
  proof (cases "uf_type d = Some Field_boolean")
    case True
    then have "c \<in> {\<lparr>kc_field = field, kc_value = js ''true''\<rparr>, \<lparr>kc_field = field, kc_value = js ''false''\<rparr>} \<and> ib"
      using assms unfolding eq by (cases v) (simp_all split: if_splits)
    then show ?thesis using True d by (auto simp: condition_ok_def)
  next
    case False
    then obtain x vs where "c = \<lparr>kc_field = field, kc_value = x\<rparr>" "uf_enum d = Some vs" "x \<in> set vs"
      using assms unfolding eq by (cases v; cases "uf_enum d") (simp_all add: Let_def split: if_splits, metis)
    then show ?thesis using False d by (simp add: condition_ok_def)
  qed
qed

lemma taskConditions_ok:
  "taskConditions n schema ib = Some (Reachable cs) \<Longrightarrow> list_all (condition_ok schema ib) cs"
proof -
  have "list_all (condition_ok schema ib) (concat (map (\<lambda>t. case t of Term_condition c \<Rightarrow> [c] | _ \<Rightarrow> []) terms))"
    if "mapO (task_term schema ib) ns = Some terms" for ns terms
    using that by (induction ns arbitrary: terms) (auto dest: task_term_ok split: option.splits TermOutcome.splits)
  then show "taskConditions n schema ib = Some (Reachable cs) \<Longrightarrow> list_all (condition_ok schema ib) cs"
    by (auto simp: taskConditions_def split: option.splits if_splits)
qed

lemma prices_ok_snoc:
  "prices_ok schema ps \<Longrightarrow> map_of ps field = None \<Longrightarrow> map_of schema field = Some d \<Longrightarrow> uf_type d = Some Field_number \<Longrightarrow>
     has_unit d \<Longrightarrow> prices_ok schema (ps @ [(field, price)])"
  by (auto simp: prices_ok_def map_of_eq_None_iff)

lemma task_prices_step:
  assumes "task_prices schema (n # ns) k ps = Some r" "prices_ok schema ps"
  obtains k' ps' where "task_prices schema ns k' ps' = Some r" "prices_ok schema ps'"
proof (cases "nonnegativePriceLiteral n")
  case (Some v)
  then show ?thesis using assms that by (auto split: if_splits)
next
  case None
  let ?inner = "case n of Binary f l r _ _ \<Rightarrow>
      if f = js ''/'' then (if is_million_literal r then Some (True, l) else None) else Some (False, n) | _ \<Rightarrow> Some (False, n)"
  obtain sc inner where inner: "?inner = Some (sc, inner)"
    using assms(1) None by (cases ?inner) auto
  obtain f l m s e where b: "inner = Binary f l m s e" using assms(1) None inner by (cases inner) auto
  obtain field price where fp: "f = js ''*''" "usage_field l = Some field" "nonnegativePriceLiteral m = Some price"
    using assms(1) None inner b by (auto split: bool.splits option.splits)
  show ?thesis
  proof (cases "map_of schema field")
    case None': None
    then show ?thesis using assms None inner b fp that by auto
  next
    case (Some d)
    then show ?thesis using assms None inner b fp that prices_ok_snoc [OF assms(2) _ Some] by (auto split: if_splits)
  qed
qed

lemma task_prices_ok:
  "task_prices schema ns k ps = Some (k', ps') \<Longrightarrow> prices_ok schema ps \<Longrightarrow> prices_ok schema ps'"
proof (induction ns arbitrary: k ps)
  case (Cons n ns)
  then show ?case by (blast elim: task_prices_step)
qed simp

lemma taskTier_ok:
  assumes "taskTier n cs schema = Some t" "list_all (condition_ok schema ib) cs"
  shows "task_tier_ok schema ib t \<and> kt_conditions t = cs"
proof -
  obtain ns k where "task_prices schema ns None [] = Some (k, kt_unitPrices t)" "kt_unitPrices t \<noteq> []" "kt_conditions t = cs"
    using assms(1) by (auto simp: taskTier_def split: ExpressionNode.splits list.splits literal.splits option.splits if_splits)
  moreover then have "prices_ok schema (kt_unitPrices t)" using task_prices_ok prices_ok_def by fastforce
  ultimately show ?thesis using assms(2) by (simp add: task_tier_ok_def)
qed

lemma unshadowed_snoc: "unshadowed ts \<Longrightarrow> \<not> shadowed ts (kt_conditions t) \<Longrightarrow> unshadowed (ts @ [t])"
  by (auto simp: unshadowed_def nth_append less_Suc_eq)

lemma shadowed_empty: "\<forall>t \<in> set ts. kt_conditions t \<noteq> [] \<Longrightarrow> \<not> shadowed ts []"
  by (auto simp: shadowed_def list_ex_iff list_all_iff neq_Nil_conv)

lemma task_table_snoc:
  assumes "taskTier n [] schema = Some t" "list_all (task_tier_ok schema ib) ts" "\<forall>t \<in> set ts. kt_conditions t \<noteq> []"
    "unshadowed ts"
  shows "task_table_ok schema ib (ts @ [t])"
  using taskTier_ok [OF assms(1), of ib] assms(2-) unshadowed_snoc [OF assms(4)] shadowed_empty [OF assms(3)]
  by (simp add: task_table_ok_def)

lemma task_chain_ok:
  "task_chain schema ib n ts = Some us \<Longrightarrow> list_all (task_tier_ok schema ib) ts \<Longrightarrow>
     \<forall>t \<in> set ts. kt_conditions t \<noteq> [] \<Longrightarrow> unshadowed ts \<Longrightarrow> task_table_ok schema ib us"
proof (induction schema ib n ts rule: task_chain.induct)
  case (1 schema ib c y n s e ts)
  show ?case
  proof (cases "taskConditions c schema ib")
    case None
    then show ?thesis using "1.prems"(1) by simp
  next
    case (Some r)
    show ?thesis
    proof (cases r)
      case Unreachable
      then show ?thesis using "1.IH"(1) [OF Some Unreachable] "1.prems" Some by simp
    next
      case (Reachable cs)
      show ?thesis
      proof (cases "shadowed ts cs")
        case True
        then show ?thesis using "1.IH"(2) [OF Some Reachable True] "1.prems" Some Reachable by simp
      next
        case False
        then obtain t where t: "taskTier y cs schema = Some t" using "1.prems"(1) Some Reachable by (auto split: option.splits)
        have tok: "task_tier_ok schema ib t" "kt_conditions t = cs"
          using taskTier_ok [OF t taskConditions_ok] Some Reachable by auto
        show ?thesis
        proof (cases "cs = []")
          case True
          then show ?thesis using task_table_snoc [of y schema t ib ts] t "1.prems" Some Reachable False by simp
        next
          case ne: False
          show ?thesis
            using "1.IH"(3) [OF Some Reachable False t ne] "1.prems" Some Reachable False t ne tok
            by (simp add: unshadowed_snoc)
        qed
      qed
    qed
  qed
qed (auto intro: task_table_snoc)

end
