(* ===== verification/Condition_Props.thy ===== *)
theory Condition_Props
  imports Condition_Display Display_Props
begin

text \<open>
  The range shown for comparisons of a time function is exact: it holds the values of the function that
  satisfy every comparison and no others, also where the numbers compared with are outside the domain or
  beyond the exact integers.
\<close>

section \<open>Comparisons\<close>

definition comparison_holds :: "TimeComparison \<Rightarrow> jsnum \<Rightarrow> bool" where
  "comparison_holds c x =
     (let v = cp_value c
      in if cp_operator c = js ''>='' then js_le v x
         else if cp_operator c = js ''>'' then js_lt v x
         else if cp_operator c = js ''<'' then js_lt x v
         else if cp_operator c = js ''<='' then js_le x v
         else js_num_eq x v)"

definition in_range :: "jsnum \<Rightarrow> jsnum \<times> jsnum \<Rightarrow> bool" where
  "in_range x r \<longleftrightarrow> js_le (fst r) x \<and> js_lt x (snd r)"

definition valid_comparison :: "TimeComparison \<Rightarrow> bool" where
  "valid_comparison c \<longleftrightarrow> cp_operator c \<in> set [js ''=='', js ''>='', js ''>'', js ''<='', js ''<''] \<and> isInteger (cp_value c)"

lemma flattenBinary_not_empty: "flattenBinary f n \<noteq> []"
  by (induction f n rule: flattenBinary.induct) simp_all

lemma timeComparison_valid: "timeComparison node = Some c \<Longrightarrow> valid_comparison c \<and> cp_name c \<in> set TIME_FUNCTIONS"
  by (auto simp: timeComparison_def valid_comparison_def split: ExpressionNode.splits list.splits literal.splits if_splits)

lemma js_le_max: "js_le (js_max a b) x \<longleftrightarrow> js_le a x \<and> js_le b x"
  by (cases a; cases b; cases x) (auto simp: js_le_def js_max_def)

lemma js_lt_min: "js_lt x (js_min a b) \<longleftrightarrow> js_lt x a \<and> js_lt x b"
  by (cases a; cases b; cases x) (auto simp: js_min_def)

lemma isInteger_int:
  assumes "isInteger v"
  obtains s m n where "v = Fin s m" "num_val v = of_int n"
proof (cases v)
  case (Fin s m)
  then have "of_int \<lfloor>m\<rfloor> = m" using assms by (simp only: isInteger.simps)
  then obtain n where "m = of_int n" by metis
  then have "num_val v = of_int (if s then - n else n)" using Fin by simp
  then show thesis using that Fin by blast
qed (use assms in simp_all)

text \<open>The successor of an integer is exact, or beyond all values of the domains.\<close>

lemma successor:
  assumes "isInteger v" "num_val v = of_int n"
  shows "n + 1 \<le> 0 \<and> (js_add v one_num = Inf True \<or> isFinite (js_add v one_num) \<and> num_val (js_add v one_num) \<le> 0) \<or>
    0 < n + 1 \<and> isFinite (js_add v one_num) \<and> num_val (js_add v one_num) = of_int (n + 1) \<or>
    2 ^ 53 < n + 1 \<and> (js_add v one_num = Inf False \<or> isFinite (js_add v one_num) \<and> 2 ^ 53 \<le> num_val (js_add v one_num))"
proof -
  obtain s m where v: "v = Fin s m" using isInteger_int [OF assms(1)] by blast
  have sum: "num_val v + num_val one_num = of_int (n + 1)" using assms(2) by (simp add: one_num_def)
  have "js_add v one_num = (let x = num_val v + num_val one_num in if x = 0 then Fin False 0 else mk_num (x < 0) \<bar>x\<bar>)"
    by (simp add: v one_num_def Let_def)
  then have e: "js_add v one_num = (if n + 1 = 0 then Fin False 0 else mk_num (n + 1 < 0) (of_int \<bar>n + 1\<bar>))"
    unfolding sum Let_def of_int_eq_0_iff of_int_less_0_iff of_int_abs [symmetric] .
  consider "n + 1 = 0" | "n + 1 < 0" | "0 < n + 1" "n + 1 \<le> 2 ^ 53" | "2 ^ 53 < n + 1" by linarith
  then show ?thesis
  proof cases
    case 1
    then show ?thesis using e by simp
  next
    case 2
    then show ?thesis using e dround_nonneg [of "of_int \<bar>n + 1\<bar>"] by (auto simp: mk_num_def Let_def)
  next
    case 3
    then have "js_add v one_num = Fin False (of_int (n + 1))" using e mk_num_int [of "n + 1" False] by simp
    then show ?thesis using 3 by simp
  next
    case 4
    have "(of_int (2 ^ 53) :: rat) \<le> of_int (n + 1)" using 4 by (simp only: of_int_le_iff)
    then have "dround (of_int (2 ^ 53)) \<le> dround (of_int (n + 1))" by (intro dround_mono) simp_all
    then have "2 ^ 53 \<le> dround (of_int (n + 1))" using dround_int [of "2 ^ 53"] by simp
    then show ?thesis using 4 e by (auto simp: mk_num_def Let_def)
  qed
qed

lemma successor_bound:
  assumes "isInteger v" "0 \<le> k" "k < 2 ^ 53"
  shows "js_lt (Fin False (of_int k)) (js_add v one_num) \<longleftrightarrow> js_le (Fin False (of_int k)) v"
    and "js_le (js_add v one_num) (Fin False (of_int k)) \<longleftrightarrow> js_lt v (Fin False (of_int k))"
proof -
  obtain s m n where v: "v = Fin s m" "num_val v = of_int n" using isInteger_int [OF assms(1)] .
  have le: "js_le (Fin False (of_int k)) v \<longleftrightarrow> k \<le> n"
    using v by (auto simp: js_le_def isFinite_num_val)
  have big: "of_int k < (2 ^ 53 :: rat)" using assms(3) by (metis of_int_less_iff of_int_numeral of_int_power)
  have small: "(0::rat) \<le> of_int k" using assms(2) by simp
  consider "n + 1 \<le> 0" "js_add v one_num = Inf True \<or> isFinite (js_add v one_num) \<and> num_val (js_add v one_num) \<le> 0"
    | "isFinite (js_add v one_num)" "num_val (js_add v one_num) = of_int (n + 1)"
    | "2 ^ 53 < n + 1" "js_add v one_num = Inf False \<or> isFinite (js_add v one_num) \<and> 2 ^ 53 \<le> num_val (js_add v one_num)"
    using successor [OF assms(1) v(2)] by blast
  then have lt: "js_lt (Fin False (of_int k)) (js_add v one_num) \<longleftrightarrow> k \<le> n"
  proof cases
    case 1
    then show ?thesis using small assms(2) by (auto simp: isFinite_num_val)
  next
    case 2
    then show ?thesis by (simp add: isFinite_num_val zless_add1_eq less_le flip: of_int_less_iff) linarith
  next
    case 3
    then show ?thesis using big assms(3) by (auto simp: isFinite_num_val)
  qed
  then show "js_lt (Fin False (of_int k)) (js_add v one_num) \<longleftrightarrow> js_le (Fin False (of_int k)) v" using le by simp
  have "js_add v one_num \<noteq> NaN" using successor [OF assms(1) v(2)] by auto
  then show "js_le (js_add v one_num) (Fin False (of_int k)) \<longleftrightarrow> js_lt v (Fin False (of_int k))"
    using lt le v by (auto simp: js_le_def)
qed

section \<open>Ranges\<close>

lemma in_narrow:
  assumes "valid_comparison c" "0 \<le> k" "k < 2 ^ 53"
  shows "in_range (Fin False (of_int k)) (narrow c r) \<longleftrightarrow> in_range (Fin False (of_int k)) r \<and> comparison_holds c (Fin False (of_int k))"
proof -
  have i: "isInteger (cp_value c)" using assms(1) by (simp add: valid_comparison_def)
  then obtain s m where v: "cp_value c = Fin s m" by (rule isInteger_int)
  have eq: "js_num_eq x (cp_value c) \<longleftrightarrow> js_le (cp_value c) x \<and> js_le x (cp_value c)" if "x = Fin False (of_int k)" for x
    unfolding that v js_le_def by auto
  show ?thesis
    using assms(1) successor_bound [OF i assms(2,3)] eq
    unfolding valid_comparison_def in_range_def narrow_def comparison_holds_def Let_def
    by (cases r) (auto simp: js_le_max js_lt_min)
qed

lemma in_fold_narrow:
  assumes "list_all valid_comparison cs" "0 \<le> k" "k < 2 ^ 53"
  shows "in_range (Fin False (of_int k)) (fold narrow cs r) \<longleftrightarrow>
    in_range (Fin False (of_int k)) r \<and> list_all (\<lambda>c. comparison_holds c (Fin False (of_int k))) cs"
  using assms(1) by (induction cs arbitrary: r) (auto simp: in_narrow [OF _ assms(2,3)])

text \<open>A start that lies below all bounds is a whole number.\<close>

definition whole :: "jsnum \<Rightarrow> bool" where
  "whole x \<longleftrightarrow> x \<noteq> NaN \<and> (isFinite x \<longrightarrow> num_val x < 2 ^ 53 \<longrightarrow> 0 \<le> num_val x \<longrightarrow> (\<exists>n. num_val x = of_int n))"

lemma whole_value: "isInteger v \<Longrightarrow> whole v"
  by (rule isInteger_int) (auto simp: whole_def)

lemma whole_successor: "isInteger v \<Longrightarrow> whole (js_add v one_num)"
proof -
  assume i: "isInteger v"
  then obtain s m n where v: "v = Fin s m" "num_val v = of_int n" by (rule isInteger_int)
  have z: "\<exists>j. q = of_int j" if "q \<le> 0" "0 \<le> q" for q :: rat using that by (intro exI [of _ 0]) simp
  from successor [OF i v(2)] show ?thesis
  proof (elim disjE conjE)
    assume "isFinite (js_add v one_num)" "num_val (js_add v one_num) = of_int (n + 1)"
    then show ?thesis unfolding whole_def by (intro conjI impI exI [of _ "n + 1"]) auto
  qed (use z in \<open>auto simp: whole_def\<close>)
qed

lemma whole_max: "whole a \<Longrightarrow> whole b \<Longrightarrow> whole (js_max a b)"
  by (auto simp: js_max_def)

lemma whole_narrow: "valid_comparison c \<Longrightarrow> whole (fst r) \<Longrightarrow> whole (fst (narrow c r))"
  by (cases r) (auto simp: narrow_def Let_def valid_comparison_def whole_max whole_value whole_successor)

lemma whole_fold: "list_all valid_comparison cs \<Longrightarrow> whole (fst r) \<Longrightarrow> whole (fst (fold narrow cs r))"
  by (induction cs arbitrary: r) (auto simp: whole_narrow)

lemma narrow_keeps:
  assumes "valid_comparison c"
  shows "js_le a (fst r) \<Longrightarrow> js_le a (fst (narrow c r))" and "js_le (snd r) b \<Longrightarrow> js_le (snd (narrow c r)) b"
    and "snd r \<noteq> NaN \<Longrightarrow> snd (narrow c r) \<noteq> NaN"
proof -
  have "isInteger (cp_value c)" using assms by (simp add: valid_comparison_def)
  then obtain s m where v: "cp_value c = Fin s m" by (rule isInteger_int)
  have n: "js_add (cp_value c) one_num \<noteq> NaN" "cp_value c \<noteq> NaN"
    using assms whole_successor by (auto simp: valid_comparison_def whole_def v)
  have mx: "js_le a x \<Longrightarrow> y \<noteq> NaN \<Longrightarrow> js_le a (js_max x y)" for x y
    by (cases a; cases x; cases y) (auto simp: js_le_def js_max_def)
  have mn: "js_le x b \<Longrightarrow> y \<noteq> NaN \<Longrightarrow> js_le (js_min x y) b" for x y
    by (cases b; cases x; cases y) (auto simp: js_le_def js_min_def split: if_splits)
  have nn: "x \<noteq> NaN \<Longrightarrow> y \<noteq> NaN \<Longrightarrow> js_min x y \<noteq> NaN" for x y by (auto simp: js_min_def)
  show "js_le a (fst r) \<Longrightarrow> js_le a (fst (narrow c r))" using n mx by (cases r) (auto simp: narrow_def Let_def)
  show "js_le (snd r) b \<Longrightarrow> js_le (snd (narrow c r)) b" using n mn by (cases r) (auto simp: narrow_def Let_def)
  show "snd r \<noteq> NaN \<Longrightarrow> snd (narrow c r) \<noteq> NaN" using n nn by (cases r) (auto simp: narrow_def Let_def)
qed

lemma fold_narrow_keeps:
  assumes "list_all valid_comparison cs"
  shows "js_le a (fst r) \<Longrightarrow> js_le a (fst (fold narrow cs r))" and "js_le (snd r) b \<Longrightarrow> js_le (snd (fold narrow cs r)) b"
    and "snd r \<noteq> NaN \<Longrightarrow> snd (fold narrow cs r) \<noteq> NaN"
  using assms by (induction cs arbitrary: r) (simp_all add: narrow_keeps)

text \<open>The values a time function takes.\<close>

definition time_value :: "jsstr \<Rightarrow> int \<Rightarrow> bool" where
  "time_value name k = (case map_of DOMAINS name of Some (lo, hi) \<Rightarrow> lo \<le> k \<and> k < hi | None \<Rightarrow> False)"

lemma domain_bounds:
  assumes "name \<in> set TIME_FUNCTIONS"
  obtains lo hi where "map_of DOMAINS name = Some (lo, hi)" "domain_of name = (Fin False (of_int lo), Fin False (of_int hi))"
    "0 \<le> lo" "hi < 2 ^ 53"
  using assms by (auto simp: TIME_FUNCTIONS_def DOMAINS_def domain_of_def num_of_int_def mk_num_numeral)

lemma range_exact:
  assumes "cs \<noteq> []" "list_all valid_comparison cs" "cp_name (hd cs) \<in> set TIME_FUNCTIONS" "time_value (cp_name (hd cs)) k"
  shows "in_range (Fin False (of_int k)) (time_bounds cs) \<longleftrightarrow> list_all (\<lambda>c. comparison_holds c (Fin False (of_int k))) cs"
proof -
  obtain lo hi where d: "map_of DOMAINS (cp_name (hd cs)) = Some (lo, hi)"
    "domain_of (cp_name (hd cs)) = (Fin False (of_int lo), Fin False (of_int hi))" "0 \<le> lo" "hi < 2 ^ 53"
    using domain_bounds [OF assms(3)] .
  have k: "lo \<le> k" "k < hi" using assms(4) d(1) by (auto simp: time_value_def)
  then have "in_range (Fin False (of_int k)) (domain_of (cp_name (hd cs)))" by (simp add: d(2) in_range_def js_le_def)
  then show ?thesis using in_fold_narrow [OF assms(2), of k "domain_of (cp_name (hd cs))"] k d(3,4) assms(1)
    by (cases cs) (simp_all add: time_bounds_def)
qed

lemma range_empty:
  assumes "cs \<noteq> []" "list_all valid_comparison cs" "cp_name (hd cs) \<in> set TIME_FUNCTIONS"
  shows "js_le (snd (time_bounds cs)) (fst (time_bounds cs)) \<longleftrightarrow>
    \<not> (\<exists>k. time_value (cp_name (hd cs)) k \<and> in_range (Fin False (of_int k)) (time_bounds cs))"
proof -
  obtain lo hi where d: "map_of DOMAINS (cp_name (hd cs)) = Some (lo, hi)"
    "domain_of (cp_name (hd cs)) = (Fin False (of_int lo), Fin False (of_int hi))" "0 \<le> lo" "hi < 2 ^ 53"
    using domain_bounds [OF assms(3)] .
  let ?r = "fold narrow cs (Fin False (of_int lo), Fin False (of_int hi))"
  have r: "time_bounds cs = ?r" using assms(1) d(2) by (cases cs) (simp_all add: time_bounds_def)
  have w: "whole (fst ?r)" using whole_fold [OF assms(2)] whole_value [of "Fin False (of_int lo)"] by simp
  have lower: "js_le (Fin False (of_int lo)) (fst ?r)" and upper: "js_le (snd ?r) (Fin False (of_int hi))" and nn: "snd ?r \<noteq> NaN"
    by (rule fold_narrow_keeps [OF assms(2)]; simp add: js_le_def)+
  have "\<exists>k. time_value (cp_name (hd cs)) k \<and> in_range (Fin False (of_int k)) ?r" if "\<not> js_le (snd ?r) (fst ?r)"
  proof -
    have lt: "js_lt (fst ?r) (snd ?r)" using that nn w by (auto simp: js_le_def whole_def)
    have fin: "isFinite (fst ?r)" "num_val (fst ?r) < of_int hi" "of_int lo \<le> num_val (fst ?r)"
      using lt lower upper by (cases "fst ?r"; cases "snd ?r"; auto simp: js_le_def)+
    have "of_int hi < (2 ^ 53 :: rat)" using d(4) by (metis of_int_less_iff of_int_numeral of_int_power)
    moreover have "(0::rat) \<le> of_int lo" using d(3) by simp
    ultimately obtain n where n: "num_val (fst ?r) = of_int n" using w fin unfolding whole_def by force
    have "in_range (Fin False (of_int n)) ?r"
      using lt fin(1) n by (cases "fst ?r"; cases "snd ?r") (auto simp: in_range_def js_le_def)
    moreover have "time_value (cp_name (hd cs)) n" using fin n d(1) by (simp add: time_value_def)
    ultimately show ?thesis by blast
  qed
  moreover have "\<not> js_le (snd ?r) (fst ?r)" if "in_range x ?r" for x
    using that by (cases x; cases "fst ?r"; cases "snd ?r") (auto simp: in_range_def js_le_def)
  ultimately show ?thesis unfolding r by blast
qed

lemma describe_empty:
  assumes "cs \<noteq> []" "list_all valid_comparison cs" "cp_name (hd cs) \<in> set TIME_FUNCTIONS"
  shows "describeTimeRange D locale cs = Inr None \<longleftrightarrow>
    \<not> (\<exists>k. time_value (cp_name (hd cs)) k \<and> list_all (\<lambda>c. comparison_holds c (Fin False (of_int k))) cs)"
proof -
  have "describeTimeRange D locale cs = Inr None \<longleftrightarrow> js_le (snd (time_bounds cs)) (fst (time_bounds cs))"
    using assms(1) by (cases cs) (auto simp: describeTimeRange_def bindR_eq_Inr split: prod.splits)
  then show ?thesis using range_empty [OF assms] range_exact [OF assms] by blast
qed

section \<open>Evaluation\<close>

text \<open>A state whose readings of the clock are those of one moment.\<close>

definition clock_at :: "host \<Rightarrow> int option \<Rightarrow> rt \<Rightarrow> bool" where
  "clock_at H now st \<longleftrightarrow> rt_now st = now \<and> times.valid H now (rt_times st)"

lemma clock_kept: "evaluate H rules X d n st = Inr (v, st') \<Longrightarrow> clock_at H now st \<Longrightarrow> clock_at H now st'"
  using clock.evaluate_keeps by (fastforce simp: clock_at_def times_kept_def)

lemma time_call_value:
  assumes "evaluate H rules X d (Call name (Literal (LStr zone) i a b # rest) s e) st = Inr (v, st')"
    "name \<in> set TIME_FUNCTIONS" "clock_at H now st"
  obtains vals where "timeInBillingZone H now (trim zone) = Inr vals" "rv_value v = JNum (time_field name vals)"
proof -
  obtain t s1 vals s2 where t: "string_arg (evaluate H rules X (d + 1)) (Literal (LStr zone) i a b # rest) 0 st = Inr (t, s1)"
    and z: "zone_time H (trim t) s1 = Inr (vals, s2)" and v: "rv_value v = JNum (time_field name vals)"
    using evaluate_step(1) [OF assms(1)] assms(2)
    by (auto simp: evaluateNode_def call_of_def TIME_FUNCTIONS_def bindR_eq_Inr)
  have "t = zone" "s1 = st" using literal_argument [OF t] by simp_all
  then have "timeInBillingZone H now (trim zone) = Inr vals"
    using zone_time_value [of H st "trim zone"] assms(3) z by (simp add: clock_at_def)
  then show thesis using that v by blast
qed

lemma zone_default: "timeInBillingZone H now (if trim zone = [] then js ''UTC'' else trim zone) = timeInBillingZone H now (trim zone)"
proof -
  have "trim (js ''UTC'') = js ''UTC''" "trim [] = []" by code_simp+
  then show ?thesis by (cases "trim zone = []") (simp_all only: timeInBillingZone_def trim_idem Let_def if_True if_False refl list.distinct if_cancel)
qed

lemma comparison_evaluates:
  assumes "timeComparison node = Some c" "clock_at H now st" "evaluate H rules X d node st = Inr (v, st')"
    "timeInBillingZone H now (cp_timezone c) = Inr vals"
  shows "rv_value v = JBool (comparison_holds c (time_field (cp_name c) vals))"
proof -
  obtain zone i a b rest s e i' a' b' s' e' where
    n: "node = Binary (cp_operator c) (Call (cp_name c) (Literal (LStr zone) i a b # rest) s e) (Literal (LNum (cp_value c)) i' a' b') s' e'"
    and z: "cp_timezone c = (if trim zone = [] then js ''UTC'' else trim zone)"
    using assms(1) by (auto simp: timeComparison_def split: ExpressionNode.splits list.splits literal.splits if_splits)
  have op: "cp_operator c \<in> set [js ''=='', js ''>='', js ''>'', js ''<='', js ''<'']" and name: "cp_name c \<in> set TIME_FUNCTIONS"
    using timeComparison_valid [OF assms(1)] by (auto simp: valid_comparison_def)
  obtain l s1 r where ev: "evaluate H rules X (d + 1) (Call (cp_name c) (Literal (LStr zone) i a b # rest) s e) st = Inr (l, s1)"
    "evaluate H rules X (d + 1) (Literal (LNum (cp_value c)) i' a' b') s1 = Inr (r, st')" "binary_values (cp_operator c) l r s' = Inr v"
    using evaluate_step(1) [OF assms(3)] op by (auto simp: n evaluateNode_def binary_of_def bindR_eq_Inr)
  obtain w where "timeInBillingZone H now (trim zone) = Inr w" "rv_value l = JNum (time_field (cp_name c) w)"
    using time_call_value [OF ev(1) name assms(2)] .
  then have "rv_value l = JNum (time_field (cp_name c) vals)" using assms(4) unfolding z zone_default by simp
  moreover have "rv_value r = JNum (cp_value c)" using evaluate_literal [OF ev(2)] by simp
  ultimately show ?thesis using ev(3) op
    by (auto simp: binary_values_def compare_values_def comparison_holds_def Let_def)
qed

lemma conjunction_evaluates:
  "mapO timeComparison (flattenBinary (js ''&&'') n) = Some cs \<Longrightarrow> list_all (\<lambda>c. cp_timezone c = zone) cs \<Longrightarrow>
   timeInBillingZone H now zone = Inr vals \<Longrightarrow> clock_at H now st \<Longrightarrow> evaluate H rules X d n st = Inr (v, st') \<Longrightarrow>
   rv_value v = JBool (list_all (\<lambda>c. comparison_holds c (time_field (cp_name c) vals)) cs)"
proof (induction "js ''&&''" n arbitrary: cs d st v st' rule: flattenBinary.induct)
  case (1 f l r s e)
  show ?case
  proof (cases "f = js ''&&''")
    case True
    obtain us vs where uv: "mapO timeComparison (flattenBinary (js ''&&'') l) = Some us"
      "mapO timeComparison (flattenBinary (js ''&&'') r) = Some vs" "cs = us @ vs"
      using "1.prems"(1) True by (auto simp: mapO_append split: option.splits)
    obtain a s1 where a: "boolean_of (evaluate H rules X (Suc d)) l st = Inr (a, s1)"
      and rest: "(if a then bindR (boolean_of (evaluate H rules X (Suc d)) r s1) (\<lambda>(b, st). Inr (plain (JBool b), st))
          else Inr (plain (JBool False), s1)) = Inr (v, st')"
      using evaluate_step(1) [OF "1.prems"(5)] True by (auto simp: evaluateNode_def binary_of_def elim!: bindR_pairE)
    have l: "clock_at H now s1" "a = list_all (\<lambda>c. comparison_holds c (time_field (cp_name c) vals)) us"
      using a "1.hyps"(1) [OF True uv(1) _ "1.prems"(3,4)] "1.prems"(2,4) uv(3) clock_kept by (auto simp: typed_iff)
    show ?thesis
    proof (cases a)
      case True
      then obtain b where b: "boolean_of (evaluate H rules X (Suc d)) r s1 = Inr (b, st')" "v = plain (JBool b)"
        using rest by (auto simp: bindR_eq_Inr)
      then show ?thesis using "1.hyps"(2) [OF \<open>f = js ''&&''\<close> uv(2) _ "1.prems"(3) l(1)] True l(2) "1.prems"(2) uv(3)
        by (auto simp: typed_iff)
    next
      case False
      then show ?thesis using rest l uv(3) by auto
    qed
  next
    case False
    then obtain c where "timeComparison (Binary f l r s e) = Some c" "cs = [c]"
      using "1.prems"(1) by (auto split: option.splits)
    then show ?thesis using comparison_evaluates [OF _ "1.prems"(4,5)] "1.prems"(2,3) by simp
  qed
qed (auto simp: timeComparison_def)

text \<open>The range shown for a conjunction is what the condition evaluates to at every reading of the clock.\<close>

lemma range_evaluates:
  assumes "mapO timeComparison (flattenBinary (js ''&&'') n) = Some cs" "list_all (\<lambda>c. cp_name c = name \<and> cp_timezone c = zone) cs"
    "clock_at H now st" "evaluate H rules X d n st = Inr (v, st')" "timeInBillingZone H now zone = Inr vals"
    "time_field name vals = Fin False (of_int k)" "time_value name k"
  shows "rv_value v = JBool (in_range (Fin False (of_int k)) (time_bounds cs))"
proof -
  have "map timeComparison (flattenBinary (js ''&&'') n) = map Some cs" using assms(1) by (simp add: mapO_eq_Some)
  then have "\<exists>m. timeComparison m = Some c" if "c \<in> set cs" for c
    using that by (metis (no_types, lifting) image_eqI image_iff list.set_map)
  then have valid: "list_all valid_comparison cs" and names: "\<forall>c \<in> set cs. cp_name c \<in> set TIME_FUNCTIONS"
    using timeComparison_valid by (auto simp: list_all_iff)
  have ne: "cs \<noteq> []"
    using mapO_length [OF assms(1)] flattenBinary_not_empty [of "js ''&&''" n] by auto
  then have hd: "cp_name (hd cs) = name" "hd cs \<in> set cs" using assms(2) by (auto simp: list_all_iff)
  have "rv_value v = JBool (list_all (\<lambda>c. comparison_holds c (time_field (cp_name c) vals)) cs)"
    using conjunction_evaluates [OF assms(1) _ assms(5,3,4)] assms(2) by (simp add: list_all_iff)
  also have "list_all (\<lambda>c. comparison_holds c (time_field (cp_name c) vals)) cs = list_all (\<lambda>c. comparison_holds c (Fin False (of_int k))) cs"
    using assms(2,6) by (auto simp: list_all_iff)
  also have "\<dots> = in_range (Fin False (of_int k)) (time_bounds cs)"
    using range_exact [OF ne valid] names hd assms(7) by auto
  finally show ?thesis .
qed

end
