(* ===== verification/Task_Expr.thy ===== *)
theory Task_Expr
  imports Billing_Expr JS_Object
begin

text \<open>
  Prices of tasks (\<^verbatim>\<open>features/pricing/lib/task-expr.ts\<close>): tiers with conditions on enumerated facts, the matrix
  with one row per combination of facts, the price of a sample, and the expression text both are written
  as and read from. The order of names is \<open>localeCompare\<close>, a parameter of the operations that sort.
\<close>

section \<open>Configurations\<close>

record TaskVisualTier =
  vt_label :: jsstr
  vt_conditions :: "TaskCondition list"
  vt_constant :: jsnum
  vt_unitPrices :: "(jsstr, jsnum) js_map"

type_synonym TaskVisualConfig = "TaskVisualTier list"

record TaskMatrixRow =
  mr_combination :: "(jsstr, jsstr) js_map"
  mr_constant :: jsnum
  mr_unitPrices :: "(jsstr, jsnum) js_map"

type_synonym TaskMatrixConfig = "TaskMatrixRow list"

datatype TaskPart = Part_constant jsnum | Part_usage (part_field: jsstr) (part_amount: jsnum) (part_quantity: jsnum)
    (part_unitPrice: jsnum)

record TaskPreviewResult =
  pr_tier :: TaskVisualTier
  pr_total :: jsnum
  pr_parts :: "TaskPart list"

definition has_enum :: "UsageField \<Rightarrow> bool" where
  "has_enum d = (case uf_enum d of Some xs \<Rightarrow> xs \<noteq> [] | None \<Rightarrow> False)"

definition enum_values :: "UsageField \<Rightarrow> jsstr list" where
  "enum_values d = (case uf_enum d of Some xs \<Rightarrow> xs | None \<Rightarrow> [])"

definition getTaskNumberFields :: "comparison \<Rightarrow> BillingUsageSchema option \<Rightarrow> (jsstr \<times> UsageField) list" where
  "getTaskNumberFields cmp schema =
     (case schema of
        None \<Rightarrow> []
      | Some schema \<Rightarrow> sort_entries cmp (filter (\<lambda>(_, d). uf_type d = Some Field_number \<and> has_unit d) schema))"

definition getTaskEnumFields :: "comparison \<Rightarrow> BillingUsageSchema option \<Rightarrow> (jsstr \<times> UsageField) list" where
  "getTaskEnumFields cmp schema =
     (case schema of
        None \<Rightarrow> []
      | Some schema \<Rightarrow> sort_entries cmp (filter (\<lambda>(_, d). has_enum d) schema))"

text \<open>The nested loops over the fields, the combinations so far and the values.\<close>

definition extend_combinations ::
  "jsstr \<times> UsageField \<Rightarrow> (jsstr, jsstr) js_map list \<Rightarrow> (jsstr, jsstr) js_map list" where
  "extend_combinations f combinations =
     concat (map (\<lambda>combination. map (\<lambda>v. object_with (fst f) v combination) (enum_values (snd f))) combinations)"

definition getTaskEnumCombinations :: "comparison \<Rightarrow> BillingUsageSchema option \<Rightarrow> (jsstr, jsstr) js_map list" where
  "getTaskEnumCombinations cmp schema = fold extend_combinations (getTaskEnumFields cmp schema) [[]]"

definition createDefaultTaskVisualConfig :: "comparison \<Rightarrow> BillingUsageSchema \<Rightarrow> TaskVisualConfig" where
  "createDefaultTaskVisualConfig cmp schema =
     [\<lparr>vt_label = js ''base'', vt_conditions = [], vt_constant = zero_num,
       vt_unitPrices = fromEntries (map (\<lambda>(field, _). (field, zero_num)) (getTaskNumberFields cmp (Some schema)))\<rparr>]"

definition createDefaultTaskMatrixConfig :: "comparison \<Rightarrow> BillingUsageSchema \<Rightarrow> TaskMatrixConfig" where
  "createDefaultTaskMatrixConfig cmp schema =
     (let unitPrices = fromEntries (map (\<lambda>(field, _). (field, zero_num)) (getTaskNumberFields cmp (Some schema)))
      in map (\<lambda>combination. \<lparr>mr_combination = combination, mr_constant = zero_num, mr_unitPrices = unitPrices\<rparr>)
           (getTaskEnumCombinations cmp (Some schema)))"

section \<open>Matrices\<close>

definition taskMatrixRowLabel :: "comparison \<Rightarrow> (jsstr, jsstr) js_map \<Rightarrow> jsstr" where
  "taskMatrixRowLabel cmp combination =
     (let vs = map snd (sort_entries cmp combination) in if vs \<noteq> [] then join [183] vs else js ''base'')"

text \<open>\<open>a === b\<close> on numbers that may be missing, and \<open>prices[field] ?? 0\<close>.\<close>

definition equal_prices :: "jsnum option \<Rightarrow> jsnum option \<Rightarrow> bool" where
  "equal_prices a b = (case (a, b) of (Some x, Some y) \<Rightarrow> js_num_eq x y | (None, None) \<Rightarrow> True | _ \<Rightarrow> False)"

definition price_or_zero :: "(jsstr, jsnum) js_map \<Rightarrow> jsstr \<Rightarrow> jsnum" where
  "price_or_zero prices field = (case map_of prices field of Some v \<Rightarrow> v | None \<Rightarrow> zero_num)"

definition field_prices :: "(jsstr \<times> UsageField) list \<Rightarrow> (jsstr, jsnum) js_map \<Rightarrow> (jsstr, jsnum) js_map" where
  "field_prices numberFields prices = fromEntries (map (\<lambda>(field, _). (field, price_or_zero prices field)) numberFields)"

definition is_uniform :: "(jsstr \<times> UsageField) list \<Rightarrow> TaskMatrixRow \<Rightarrow> TaskMatrixConfig \<Rightarrow> bool" where
  "is_uniform numberFields firstRow rows =
     list_all (\<lambda>row. js_num_eq (mr_constant row) (mr_constant firstRow) \<and>
       list_all (\<lambda>(field, _). equal_prices (map_of (mr_unitPrices row) field) (map_of (mr_unitPrices firstRow) field))
         numberFields) rows"

definition row_conditions :: "comparison \<Rightarrow> TaskMatrixRow \<Rightarrow> TaskCondition list" where
  "row_conditions cmp row =
     map (\<lambda>(field, v). \<lparr>kc_field = field, kc_value = v\<rparr>) (sort_entries cmp (mr_combination row))"

definition taskMatrixToTiers :: "comparison \<Rightarrow> TaskMatrixConfig \<Rightarrow> BillingUsageSchema \<Rightarrow> TaskVisualTier list" where
  "taskMatrixToTiers cmp config schema =
     (let numberFields = getTaskNumberFields cmp (Some schema)
      in case config of
           [] \<Rightarrow> []
         | firstRow # _ \<Rightarrow>
             if numberFields = [] then []
             else if is_uniform numberFields firstRow config then
               [\<lparr>vt_label = js ''base'', vt_conditions = [], vt_constant = mr_constant firstRow,
                 vt_unitPrices = field_prices numberFields (mr_unitPrices firstRow)\<rparr>]
             else
               map (\<lambda>(index, row).
                 \<lparr>vt_label = taskMatrixRowLabel cmp (mr_combination row),
                  vt_conditions = (if Suc index = length config then [] else row_conditions cmp row),
                  vt_constant = mr_constant row,
                  vt_unitPrices = field_prices numberFields (mr_unitPrices row)\<rparr>) (enumerate 0 config))"

definition covers :: "(jsstr, jsstr) js_map \<Rightarrow> TaskTier \<Rightarrow> bool" where
  "covers combination tier = list_all (\<lambda>c. map_of combination (kc_field c) = Some (kc_value c)) (kt_conditions tier)"

text \<open>The matrix of a list of tiers that ends in one without conditions; no tier names a field twice.\<close>

definition matrix_row ::
  "(jsstr \<times> UsageField) list \<Rightarrow> TaskTier list \<Rightarrow> TaskTier \<Rightarrow> (jsstr, jsstr) js_map \<Rightarrow> TaskMatrixRow" where
  "matrix_row numberFields tiers fallbackTier combination =
     (let tier = (case find (covers combination) tiers of Some t \<Rightarrow> t | None \<Rightarrow> fallbackTier)
      in \<lparr>mr_combination = combination, mr_constant = kt_constant tier,
          mr_unitPrices = field_prices numberFields (kt_unitPrices tier)\<rparr>)"

definition matrix_of_tiers :: "comparison \<Rightarrow> BillingUsageSchema \<Rightarrow> TaskTier list \<Rightarrow> TaskMatrixConfig option" where
  "matrix_of_tiers cmp schema tiers =
     (if tiers = [] \<or> kt_conditions (last tiers) \<noteq> [] then None
      else if list_ex (\<lambda>tier. \<not> distinct (map kc_field (kt_conditions tier))) tiers then None
      else Some (map (matrix_row (getTaskNumberFields cmp (Some schema)) tiers (last tiers))
             (getTaskEnumCombinations cmp (Some schema))))"

definition tryParseTaskMatrixConfig ::
  "comparison \<Rightarrow> jsstr option \<Rightarrow> BillingUsageSchema \<Rightarrow> exn + TaskMatrixConfig option" where
  "tryParseTaskMatrixConfig cmp expr schema =
     (case expr of
        None \<Rightarrow> Inr None
      | Some e \<Rightarrow>
          if e = [] then Inr None
          else bindR (parseTaskTiersFromExpr e (Some schema) False) (\<lambda>tiers. Inr (matrix_of_tiers cmp schema tiers)))"

section \<open>Tiers\<close>

definition finite_price :: "jsnum \<Rightarrow> bool" where
  "finite_price x \<longleftrightarrow> isFinite x \<and> \<not> js_lt x zero_num"

text \<open>\<open>tier.label || (index === 0 ? 'base' : ...)\<close>.\<close>

definition tier_name :: "nat \<Rightarrow> jsstr \<Rightarrow> jsstr" where
  "tier_name index label =
     (if label \<noteq> [] then label else if index = 0 then js ''base'' else js ''tier_'' @ digits_of (int index + 1))"

definition clamp_price :: "jsnum \<Rightarrow> jsnum" where
  "clamp_price x = (if isFinite x \<and> js_le zero_num x then x else zero_num)"

definition normalize_tier ::
  "jsstr list \<Rightarrow> (jsstr, jsstr list) js_map \<Rightarrow> nat \<times> TaskVisualTier \<Rightarrow> TaskVisualTier" where
  "normalize_tier numberFields enumFields = (\<lambda>(index, tier).
     \<lparr>vt_label = tier_name index (vt_label tier),
      vt_conditions = filter (\<lambda>c. case map_of enumFields (kc_field c) of Some vs \<Rightarrow> kc_value c \<in> set vs | None \<Rightarrow> False)
        (vt_conditions tier),
      vt_constant = clamp_price (vt_constant tier),
      vt_unitPrices = fromEntries (map (\<lambda>field. (field,
        clamp_price (case map_of (vt_unitPrices tier) field of Some v \<Rightarrow> v | None \<Rightarrow> NaN))) numberFields)\<rparr>)"

definition normalizeTaskVisualConfig :: "comparison \<Rightarrow> TaskVisualConfig option \<Rightarrow> BillingUsageSchema \<Rightarrow> TaskVisualConfig" where
  "normalizeTaskVisualConfig cmp config schema =
     (case config of
        None \<Rightarrow> createDefaultTaskVisualConfig cmp schema
      | Some tiers \<Rightarrow>
          if tiers = [] then createDefaultTaskVisualConfig cmp schema
          else
            map (normalize_tier (map fst (getTaskNumberFields cmp (Some schema)))
                  (map (\<lambda>(field, d). (field, enum_values d)) (getTaskEnumFields cmp (Some schema))))
              (enumerate 0 tiers))"

section \<open>Text\<close>

definition usage_call :: "jsstr \<Rightarrow> jsstr" where
  "usage_call field = js ''u('' @ json_string field @ js '')''"

definition generateTaskTierBody :: "TaskVisualTier \<Rightarrow> (jsstr \<times> UsageField) list \<Rightarrow> jsstr" where
  "generateTaskTierBody tier numberFields =
     join (js '' + '')
       ((if js_lt zero_num (vt_constant tier) then [num_to_string (vt_constant tier)] else []) @
        map (\<lambda>(field, d).
          usage_call field @ js '' * '' @ num_to_string (price_or_zero (vt_unitPrices tier) field) @
          (if uf_unit d = Some (js ''token'') then js '' / 1000000'' else [])) numberFields)"

definition generateTaskTierCall :: "TaskVisualTier \<Rightarrow> (jsstr \<times> UsageField) list \<Rightarrow> jsstr" where
  "generateTaskTierCall tier numberFields =
     js ''tier('' @ json_string (vt_label tier) @ js '', '' @ generateTaskTierBody tier numberFields @ js '')''"

definition generateTaskCondition :: "TaskCondition list \<Rightarrow> jsstr" where
  "generateTaskCondition conditions =
     join (js '' && '') (map (\<lambda>c. usage_call (kc_field c) @ js '' == '' @ json_string (kc_value c)) conditions)"

text \<open>The loop over the tiers; \<open>None\<close> where a tier that is not the last one has no condition.\<close>

fun tier_texts :: "(jsstr \<times> UsageField) list \<Rightarrow> TaskVisualTier list \<Rightarrow> jsstr list option" where
  "tier_texts numberFields [] = Some []"
| "tier_texts numberFields [tier] = Some [generateTaskTierCall tier numberFields]"
| "tier_texts numberFields (tier # tiers) =
     (let condition = generateTaskCondition (vt_conditions tier)
      in if condition = [] then None
         else map_option (\<lambda>rest. (condition @ js '' ? '' @ generateTaskTierCall tier numberFields) # rest)
                (tier_texts numberFields tiers))"

definition generateTaskExprFromConfig :: "comparison \<Rightarrow> TaskVisualConfig option \<Rightarrow> BillingUsageSchema \<Rightarrow> jsstr" where
  "generateTaskExprFromConfig cmp config schema =
     (let numberFields = getTaskNumberFields cmp (Some schema)
      in if numberFields = [] then []
         else
           (case tier_texts numberFields (normalizeTaskVisualConfig cmp config schema) of
              Some parts \<Rightarrow> join (js '' : '') parts
            | None \<Rightarrow> []))"

definition visual_tier :: "TaskTier \<Rightarrow> TaskVisualTier" where
  "visual_tier tier =
     \<lparr>vt_label = kt_label tier, vt_conditions = kt_conditions tier, vt_constant = kt_constant tier,
      vt_unitPrices = kt_unitPrices tier\<rparr>"

definition tryParseTaskVisualConfig ::
  "comparison \<Rightarrow> jsstr option \<Rightarrow> BillingUsageSchema \<Rightarrow> exn + TaskVisualConfig option" where
  "tryParseTaskVisualConfig cmp expr schema =
     (case expr of
        None \<Rightarrow> Inr None
      | Some e \<Rightarrow>
          if e = [] then Inr None
          else
            bindR (parseTaskTiersFromExpr e (Some schema) False) (\<lambda>tiers.
              Inr (if tiers = [] then None
                   else Some (normalizeTaskVisualConfig cmp (Some (map visual_tier tiers)) schema))))"

section \<open>Previews\<close>

definition sample_matches :: "(jsstr, jsval) js_map \<Rightarrow> TaskVisualTier \<Rightarrow> bool" where
  "sample_matches sample tier =
     list_all (\<lambda>c. map_of sample (kc_field c) = Some (JStr (kc_value c))) (vt_conditions tier)"

definition matchedTier :: "(jsstr, jsval) js_map \<Rightarrow> TaskVisualConfig \<Rightarrow> TaskVisualTier option" where
  "matchedTier sample tiers =
     (if tiers = [] then None
      else Some (case find (sample_matches sample) (butlast tiers) of Some t \<Rightarrow> t | None \<Rightarrow> last tiers))"

text \<open>\<open>Number(sample[field])\<close> for a fact that is a number, a text or missing.\<close>

definition fact_number :: "jsval option \<Rightarrow> jsnum" where
  "fact_number v = (case v of Some (JNum x) \<Rightarrow> x | Some (JStr s) \<Rightarrow> js_Number s | _ \<Rightarrow> NaN)"

definition is_token_field :: "BillingUsageSchema option \<Rightarrow> jsstr \<Rightarrow> bool" where
  "is_token_field schema field =
     (case schema of
        Some schema \<Rightarrow> (case map_of schema field of Some d \<Rightarrow> uf_unit d = Some (js ''token'') | None \<Rightarrow> False)
      | None \<Rightarrow> False)"

text \<open>The loop over the unit prices; \<open>None\<close> where a price, a quantity or an amount is invalid.\<close>

fun usage_parts ::
  "BillingUsageSchema option \<Rightarrow> (jsstr, jsval) js_map \<Rightarrow> (jsstr, jsnum) js_map \<Rightarrow> TaskPart list option" where
  "usage_parts schema sample [] = Some []"
| "usage_parts schema sample ((field, unitPrice) # prices) =
     (if \<not> finite_price unitPrice then None
      else if js_num_eq unitPrice zero_num then usage_parts schema sample prices
      else
        (let quantity = fact_number (map_of sample field)
         in if \<not> finite_price quantity then None
            else
              (let amount = (if is_token_field schema field then js_div (js_mul quantity unitPrice) million
                             else js_mul quantity unitPrice)
               in if \<not> isFinite amount then None
                  else map_option (\<lambda>parts. Part_usage field amount quantity unitPrice # parts)
                         (usage_parts schema sample prices))))"

definition part_term :: "BillingUsageSchema option \<Rightarrow> TaskPart \<Rightarrow> jsstr list" where
  "part_term schema part =
     (case part of
        Part_usage field amount quantity unitPrice \<Rightarrow>
          if field = [] then []
          else [usage_call field @ js '' * '' @ num_to_string unitPrice @
                (if is_token_field schema field then js '' / 1000000'' else [])]
      | Part_constant _ \<Rightarrow> [])"

definition part_usage :: "TaskPart \<Rightarrow> (jsstr, jsval) js_map \<Rightarrow> (jsstr, jsval) js_map" where
  "part_usage part usage =
     (case part of
        Part_usage field amount quantity unitPrice \<Rightarrow> if field = [] then usage else object_with field (JNum quantity) usage
      | Part_constant _ \<Rightarrow> usage)"

definition preview_text :: "BillingUsageSchema option \<Rightarrow> TaskVisualTier \<Rightarrow> TaskPart list \<Rightarrow> jsstr" where
  "preview_text schema tier parts =
     js ''tier('' @ json_string (vt_label tier) @ js '', '' @
     join (js '' + '') (num_to_string (vt_constant tier) # concat (map (part_term schema) parts)) @ js '')''"

definition evaluateTaskVisualConfig ::
  "host \<Rightarrow> TaskVisualConfig \<Rightarrow> (jsstr, jsval) js_map \<Rightarrow> BillingUsageSchema option \<Rightarrow> TaskPreviewResult option" where
  "evaluateTaskVisualConfig H tiers sample schema =
     (case matchedTier sample tiers of
        None \<Rightarrow> None
      | Some tier \<Rightarrow>
          if \<not> finite_price (vt_constant tier) then None
          else
            (case usage_parts schema sample (vt_unitPrices tier) of
               None \<Rightarrow> None
             | Some usageParts \<Rightarrow>
                 (let parts = (if js_lt zero_num (vt_constant tier) then [Part_constant (vt_constant tier)] else []) @ usageParts
                  in case evaluate_compiled H (compile_source (preview_text schema tier parts))
                        \<lparr>cx_imageCount = None, cx_tokens = None, cx_request = None,
                         cx_usage = Some (fold part_usage parts sample), cx_now = None\<rparr> of
                       Eval_success s \<Rightarrow> Some \<lparr>pr_tier = tier, pr_total = bs_cost s, pr_parts = parts\<rparr>
                     | _ \<Rightarrow> None)))"

record UsageExample =
  ue_label :: jsstr
  ue_facts :: "(jsstr, jsval) js_map"

definition evaluateTaskUsageExamples ::
  "host \<Rightarrow> comparison \<Rightarrow> jsstr option \<Rightarrow> BillingUsageSchema option \<Rightarrow> UsageExample list option \<Rightarrow> exn + (jsstr \<times> jsnum) list" where
  "evaluateTaskUsageExamples H cmp expr schema examples =
     (case (expr, schema, examples) of
        (Some e, Some schema, Some examples) \<Rightarrow>
          if e = [] \<or> examples = [] then Inr []
          else
            bindR (splitBillingExprAndRequestRules e) (\<lambda>(billingExpr, _).
            bindR (tryParseTaskVisualConfig cmp (Some billingExpr) schema) (\<lambda>config.
            Inr (case config of
                   None \<Rightarrow> []
                 | Some config \<Rightarrow>
                     concat (map (\<lambda>example.
                       case evaluateTaskVisualConfig H config (ue_facts example) (Some schema) of
                         Some result \<Rightarrow> [(ue_label example, pr_total result)]
                       | None \<Rightarrow> []) examples))))
      | _ \<Rightarrow> Inr [])"

end
