(* ===== verification/Task_Display.thy ===== *)
theory Task_Display
  imports Display JS_Object "HOL-Library.Monad_Syntax"
begin

text \<open>
  Task prices with conditions on declared facts and on the time
  (\<^verbatim>\<open>features/pricing/lib/billing-expression/task-display.ts\<close>): for each combination of facts the expression is
  computed symbolically as branches, each a linear price with the time conditions under which it applies.
  The budget of steps (\<open>remaining\<close>) is passed along; \<open>null\<close> is \<open>None\<close>, and since no caller recovers from
  it, the budget is not kept there. Trees come from the compiler, so calls have all their arguments.
\<close>

section \<open>Conditions\<close>

record PriceBranch =
  pb_label :: "jsstr option"
  pb_constant :: jsnum
  pb_prices :: "(jsstr, jsnum) js_map"
  pb_times :: "(jsstr, bool) js_map"

record TaskDisplayContext =
  dc_source :: jsstr
  dc_schema :: BillingUsageSchema
  dc_facts :: "(jsstr, literal) js_map"

definition MAX_DISPLAY_ROWS :: nat where
  "MAX_DISPLAY_ROWS = 128"

datatype DisplayCondition = Known bool | Described jsstr

text \<open>\<open>--context.remaining < 0\<close>.\<close>

definition spend :: "int \<Rightarrow> int option" where
  "spend remaining = (if remaining - 1 < 0 then None else Some (remaining - 1))"

text \<open>\<open>u("field")\<close> compared with a literal: the field and the literal.\<close>

definition usage_probe :: "ExpressionNode \<Rightarrow> ExpressionNode \<Rightarrow> (jsstr \<times> literal) option" where
  "usage_probe probe lit =
     (case (probe, lit) of
        (Call f (Literal (LStr key) _ _ _ # _) _ _, Literal v _ _ _) \<Rightarrow> if f = js ''u'' then Some (key, v) else None
      | _ \<Rightarrow> None)"

definition fact_condition :: "TaskDisplayContext \<Rightarrow> jsstr \<Rightarrow> jsstr \<Rightarrow> literal \<Rightarrow> DisplayCondition option" where
  "fact_condition C operator key v =
     (case (map_of (dc_facts C) key, map_of (dc_schema C) key) of
        (Some known, Some definition) \<Rightarrow>
          (let compared = Some (Known (if operator = js ''=='' then known = v else known \<noteq> v))
           in if uf_type definition = Some Field_boolean then (case v of LBool _ \<Rightarrow> compared | _ \<Rightarrow> None)
              else
                (case v of
                   LStr s \<Rightarrow>
                     if (case uf_enum definition of Some values \<Rightarrow> s \<in> set values | None \<Rightarrow> False) then compared
                     else Some (Known (operator = js ''!=''))
                 | _ \<Rightarrow> None))
      | _ \<Rightarrow> None)"

definition is_number_literal :: "ExpressionNode \<Rightarrow> bool" where
  "is_number_literal n = (case n of Literal (LNum _) _ _ _ \<Rightarrow> True | _ \<Rightarrow> False)"

definition is_call :: "ExpressionNode \<Rightarrow> bool" where
  "is_call n = (case n of Call _ _ _ _ \<Rightarrow> True | _ \<Rightarrow> False)"

definition is_zone_call :: "ExpressionNode \<Rightarrow> bool" where
  "is_zone_call n =
     (case n of
        Call f (Literal (LStr zone) _ _ _ # _) _ _ \<Rightarrow> f \<in> set TIME_FUNCTIONS \<and> trim zone \<noteq> js ''Local''
      | _ \<Rightarrow> False)"

definition time_comparison :: "TaskDisplayContext \<Rightarrow> ExpressionNode \<Rightarrow> DisplayCondition option" where
  "time_comparison C node =
     (case node of
        Binary f l r s e \<Rightarrow>
          if f \<in> set [js ''=='', js ''!='', js ''<'', js ''<='', js ''>'', js ''>=''] \<and> (is_call l \<or> is_call r) \<and>
             (is_number_literal l \<or> is_zone_call l) \<and> (is_number_literal r \<or> is_zone_call r)
          then Some (Described (slice (dc_source C) s e)) else None
      | _ \<Rightarrow> None)"

definition comparison_condition :: "TaskDisplayContext \<Rightarrow> jsstr \<Rightarrow> ExpressionNode \<Rightarrow> ExpressionNode \<Rightarrow> nat \<Rightarrow> nat \<Rightarrow> DisplayCondition option" where
  "comparison_condition C f l r s e =
     (case (if f = js ''=='' \<or> f = js ''!='' then (case usage_probe l r of Some p \<Rightarrow> Some p | None \<Rightarrow> usage_probe r l) else None) of
        Some (key, v) \<Rightarrow> fact_condition C f key v
      | None \<Rightarrow> time_comparison C (Binary f l r s e))"

text \<open>Both sides of a conjunction or a disjunction, which are evaluated in any case.\<close>

definition combine_conditions :: "jsstr \<Rightarrow> DisplayCondition \<Rightarrow> DisplayCondition \<Rightarrow> DisplayCondition" where
  "combine_conditions operator a b =
     (let short = (operator = js ''||'')
      in if a = Known short \<or> b = Known short then Known short
         else
           (case (a, b) of
              (Known _, _) \<Rightarrow> b
            | (_, Known _) \<Rightarrow> a
            | (Described x, Described y) \<Rightarrow>
                Described (js ''('' @ x @ js '') '' @ operator @ js '' ('' @ y @ js '')'')))"

definition negate_condition :: "DisplayCondition \<Rightarrow> DisplayCondition" where
  "negate_condition c = (case c of Known b \<Rightarrow> Known (\<not> b) | Described x \<Rightarrow> Described (js ''!('' @ x @ js '')''))"

fun taskDisplayCondition :: "TaskDisplayContext \<Rightarrow> ExpressionNode \<Rightarrow> int \<Rightarrow> (DisplayCondition \<times> int) option" where
  "taskDisplayCondition C (Literal v i s e) n =
     do { n \<leftarrow> spend n; (case v of LBool b \<Rightarrow> Some (Known b, n) | _ \<Rightarrow> None) }"
| "taskDisplayCondition C (Unary f x s e) n =
     do { n \<leftarrow> spend n;
          if f = js ''!'' then do { (c, n) \<leftarrow> taskDisplayCondition C x n; Some (negate_condition c, n) } else None }"
| "taskDisplayCondition C (Binary f l r s e) n =
     do { n \<leftarrow> spend n;
          if f = js ''&&'' \<or> f = js ''||'' then
            do { (a, n) \<leftarrow> taskDisplayCondition C l n;
                 (b, n) \<leftarrow> taskDisplayCondition C r n;
                 Some (combine_conditions f a b, n) }
          else do { c \<leftarrow> comparison_condition C f l r s e; Some (c, n) } }"
| "taskDisplayCondition C node n = None"

section \<open>Linear prices\<close>

definition has_quantity :: "PriceBranch \<Rightarrow> bool" where
  "has_quantity b \<longleftrightarrow> pb_prices b \<noteq> []"

definition sum_prices :: "(jsstr, jsnum) js_map \<Rightarrow> (jsstr, jsnum) js_map \<Rightarrow> (jsstr, jsnum) js_map" where
  "sum_prices a b =
     map (\<lambda>field. (field,
       js_add (case map_of a field of Some v \<Rightarrow> v | None \<Rightarrow> zero_num)
              (case map_of b field of Some v \<Rightarrow> v | None \<Rightarrow> zero_num)))
       (fold set_add (map fst b) (map fst a))"

definition amounts_ok :: "jsnum \<Rightarrow> (jsstr, jsnum) js_map \<Rightarrow> bool" where
  "amounts_ok constant prices \<longleftrightarrow> list_all (\<lambda>v. isFinite v \<and> js_le zero_num v) (constant # map snd prices)"

text \<open>The constant and the prices of a sum, a product or a quotient of two branches.\<close>

definition combine_amounts :: "jsstr \<Rightarrow> PriceBranch \<Rightarrow> PriceBranch \<Rightarrow> (jsnum \<times> (jsstr, jsnum) js_map) option" where
  "combine_amounts operator a b =
     (if operator = js ''+'' then Some (js_add (pb_constant a) (pb_constant b), sum_prices (pb_prices a) (pb_prices b))
      else if (has_quantity a \<and> has_quantity b) \<or> (operator = js ''/'' \<and> (has_quantity b \<or> js_le (pb_constant b) zero_num)) then None
      else
        (let quantity = (if has_quantity a then a else b);
             factor = (if operator = js ''/'' then js_div one_num (pb_constant b)
                       else if has_quantity a then pb_constant b else pb_constant a);
             constant = (if operator = js ''/'' then js_div (pb_constant a) (pb_constant b)
                         else js_mul (pb_constant a) (pb_constant b))
         in Some (constant, map (\<lambda>(field, price). (field, js_mul price factor)) (pb_prices quantity))))"

definition contradictory :: "(jsstr, bool) js_map \<Rightarrow> (jsstr, bool) js_map \<Rightarrow> bool" where
  "contradictory a b = list_ex (\<lambda>(key, v). case map_of b key of Some w \<Rightarrow> w \<noteq> v | None \<Rightarrow> False) a"

definition merge_times :: "(jsstr, bool) js_map \<Rightarrow> (jsstr, bool) js_map \<Rightarrow> (jsstr, bool) js_map" where
  "merge_times a b = fold (\<lambda>(key, v) m. js_map_set key v m) b a"

text \<open>One pair of branches: \<open>None\<close> where the whole price is refused, no branch where the times contradict.\<close>

definition combine_branches :: "jsstr \<Rightarrow> PriceBranch \<Rightarrow> PriceBranch \<Rightarrow> PriceBranch list option" where
  "combine_branches operator a b =
     (if pb_label a \<noteq> None \<and> pb_label b \<noteq> None then None
      else if contradictory (pb_times a) (pb_times b) then Some []
      else
        do { (constant, prices) \<leftarrow> combine_amounts operator a b;
             if amounts_ok constant prices
             then Some [\<lparr>pb_label = (case pb_label a of Some l \<Rightarrow> Some l | None \<Rightarrow> pb_label b), pb_constant = constant,
                         pb_prices = prices, pb_times = merge_times (pb_times a) (pb_times b)\<rparr>]
             else None })"

definition combine_all :: "jsstr \<Rightarrow> PriceBranch list \<Rightarrow> PriceBranch list \<Rightarrow> PriceBranch list option" where
  "combine_all operator left right =
     (if MAX_DISPLAY_ROWS < length left * length right then None
      else map_option concat (mapO (\<lambda>(a, b). combine_branches operator a b) (List.product left right)))"

text \<open>The branches of one side of a condition, without those that contradict it.\<close>

definition under_condition :: "jsstr \<Rightarrow> bool \<Rightarrow> PriceBranch list \<Rightarrow> PriceBranch list" where
  "under_condition condition matches branches =
     map (\<lambda>b. b\<lparr>pb_times := merge_times [(condition, matches)] (pb_times b)\<rparr>)
       (filter (\<lambda>b. case map_of (pb_times b) condition of Some m \<Rightarrow> m = matches | None \<Rightarrow> True) branches)"

definition plain_branch :: "jsnum \<Rightarrow> (jsstr, jsnum) js_map \<Rightarrow> PriceBranch" where
  "plain_branch constant prices = \<lparr>pb_label = None, pb_constant = constant, pb_prices = prices, pb_times = []\<rparr>"

function taskPriceBranches :: "TaskDisplayContext \<Rightarrow> ExpressionNode \<Rightarrow> int \<Rightarrow> (PriceBranch list \<times> int) option" where
  "taskPriceBranches C (Literal v i s e) n =
     do { n \<leftarrow> spend n;
          (case v of LNum x \<Rightarrow> if js_le zero_num x then Some ([plain_branch x []], n) else None | _ \<Rightarrow> None) }"
| "taskPriceBranches C (Call f args s e) n =
     do { n \<leftarrow> spend n;
          (case args of
             Literal (LStr text) _ _ _ # rest \<Rightarrow>
               if f = js ''u'' then
                 (case map_of (dc_schema C) text of
                    Some d \<Rightarrow>
                      if uf_type d = Some Field_number \<and> has_unit d
                      then Some ([plain_branch zero_num [(text, one_num)]], n) else None
                  | None \<Rightarrow> None)
               else if f = js ''tier'' then
                 (case rest of
                    body # _ \<Rightarrow>
                      do { (branches, n) \<leftarrow> taskPriceBranches C body n;
                           if list_ex (\<lambda>b. pb_label b \<noteq> None) branches then None
                           else Some (map (\<lambda>b. b\<lparr>pb_label := Some text\<rparr>) branches, n) }
                  | [] \<Rightarrow> None)
               else None
           | _ \<Rightarrow> None) }"
| "taskPriceBranches C (Conditional c y m s e) n =
     do { n \<leftarrow> spend n;
          (condition, n) \<leftarrow> taskDisplayCondition C c n;
          (case condition of
             Known True \<Rightarrow> taskPriceBranches C y n
           | Known False \<Rightarrow> taskPriceBranches C m n
           | Described t \<Rightarrow>
               do { (yes, n) \<leftarrow> taskPriceBranches C y n;
                    (no, n) \<leftarrow> taskPriceBranches C m n;
                    let branches = under_condition t True yes @ under_condition t False no;
                    if length branches \<le> MAX_DISPLAY_ROWS then Some (branches, n) else None }) }"
| "taskPriceBranches C (Binary f l r s e) n =
     do { n \<leftarrow> spend n;
          if f \<in> {js ''+'', js ''*'', js ''/''} then
            do { (left, n) \<leftarrow> taskPriceBranches C l n;
                 (right, n) \<leftarrow> taskPriceBranches C r n;
                 branches \<leftarrow> combine_all f left right;
                 Some (branches, n) }
          else None }"
| "taskPriceBranches C (Variable x s e) n = None"
| "taskPriceBranches C (Unary f x s e) n = None"
  by pat_completeness auto
termination
  by (relation "measure (\<lambda>(_, node, _). size node)") auto

section \<open>Tables\<close>

text \<open>The fields of the expression, and whether every one is a declared name.\<close>

definition field_visitor :: "BillingUsageSchema \<Rightarrow> ExpressionNode \<Rightarrow> jsstr list \<times> bool \<Rightarrow> exn + jsstr list \<times> bool" where
  "field_visitor schema node s =
     (case s of (names, valid) \<Rightarrow>
        Inr (case node of
               Call f args _ _ \<Rightarrow>
                 if f \<noteq> js ''u'' then (names, valid)
                 else
                   (case args of
                      Literal (LStr key) _ _ _ # _ \<Rightarrow>
                        if map_of schema key \<noteq> None then (set_add key names, valid) else (names, False)
                    | _ \<Rightarrow> (names, False))
             | _ \<Rightarrow> (names, valid)))"

definition field_values :: "UsageField \<Rightarrow> literal list" where
  "field_values d =
     (if uf_type d = Some Field_boolean then [LBool False, LBool True]
      else (case uf_enum d of Some values \<Rightarrow> map LStr values | None \<Rightarrow> []))"

fun expand_facts ::
  "BillingUsageSchema \<Rightarrow> jsstr list \<Rightarrow> (jsstr, literal) js_map list \<Rightarrow> (jsstr, literal) js_map list option" where
  "expand_facts schema [] combinations = Some combinations"
| "expand_facts schema (field # names) combinations =
     (case map_of schema field of
        None \<Rightarrow> None
      | Some d \<Rightarrow>
          if uf_type d = Some Field_number then expand_facts schema names combinations
          else if field_values d = [] \<or> MAX_DISPLAY_ROWS < length combinations * length (field_values d) then None
          else expand_facts schema names
                 (concat (map (\<lambda>facts. map (\<lambda>v. object_with field v facts) (field_values d)) combinations)))"

definition fact_text :: "literal \<Rightarrow> jsstr" where
  "fact_text v =
     (case v of LStr s \<Rightarrow> s | LBool b \<Rightarrow> (if b then js ''true'' else js ''false'') | LNum x \<Rightarrow> num_to_string x | LNull \<Rightarrow> js ''null'')"

definition branch_unitPrices :: "BillingUsageSchema \<Rightarrow> jsstr list \<Rightarrow> PriceBranch \<Rightarrow> (jsstr, jsnum) js_map" where
  "branch_unitPrices schema names branch =
     own_order (concat (map (\<lambda>field.
       case map_of schema field of
         Some d \<Rightarrow>
           if uf_type d = Some Field_number \<and> has_unit d
           then [(field, js_mul (case map_of (pb_prices branch) field of Some v \<Rightarrow> v | None \<Rightarrow> zero_num)
                           (if uf_unit d = Some (js ''token'') then million else one_num))]
           else []
       | None \<Rightarrow> []) names))"

definition times_text :: "(jsstr, bool) js_map \<Rightarrow> jsstr" where
  "times_text ts =
     join (js '' && '') (map (\<lambda>(condition, matches).
       (if matches then js ''('' else js ''!('') @ condition @ js '')'') ts)"

definition branch_tier ::
  "BillingUsageSchema \<Rightarrow> jsstr list \<Rightarrow> (jsstr, literal) js_map \<Rightarrow> PriceBranch \<Rightarrow> TaskTier option" where
  "branch_tier schema names facts branch =
     (case pb_label branch of
        None \<Rightarrow> None
      | Some label \<Rightarrow>
          (let unitPrices = branch_unitPrices schema names branch;
               conditionText = times_text (pb_times branch)
           in if unitPrices = [] \<or> \<not> list_all (\<lambda>p. isFinite (snd p)) unitPrices then None
              else Some \<lparr>kt_conditionText = (if conditionText = [] then None else Some conditionText), kt_label = label,
                         kt_conditions = map (\<lambda>(field, v). \<lparr>kc_field = field, kc_value = fact_text v\<rparr>) facts,
                         kt_constant = pb_constant branch, kt_unitPrices = unitPrices\<rparr>))"

text \<open>The loop over the combinations of facts, with the tiers so far and the budget that is left.\<close>

fun display_tiers ::
  "jsstr \<Rightarrow> BillingUsageSchema \<Rightarrow> ExpressionNode \<Rightarrow> jsstr list \<Rightarrow> (jsstr, literal) js_map list \<Rightarrow> TaskTier list \<Rightarrow> int \<Rightarrow>
     TaskTier list option" where
  "display_tiers src schema ast names [] tiers n = Some tiers"
| "display_tiers src schema ast names (facts # combinations) tiers n =
     (case taskPriceBranches \<lparr>dc_source = src, dc_schema = schema, dc_facts = facts\<rparr> ast n of
        None \<Rightarrow> None
      | Some (branches, n) \<Rightarrow>
          if MAX_DISPLAY_ROWS < length tiers + length branches then None
          else
            (case mapO (branch_tier schema names facts) branches of
               None \<Rightarrow> None
             | Some rows \<Rightarrow> display_tiers src schema ast names combinations (tiers @ rows) n))"

definition conditional_pricing :: "CompilationResult \<Rightarrow> jsstr \<Rightarrow> BillingUsageSchema \<Rightarrow> exn + TaskTier list option" where
  "conditional_pricing compiled src schema =
     (case compiled of
        Failed _ \<Rightarrow> Inr None
      | Ready c \<Rightarrow>
          bindR (visitExpression (compiled_ast c) (field_visitor schema) ([], True)) (\<lambda>(names, valid).
          Inr (if \<not> valid then None
               else
                 (case expand_facts schema names [[]] of
                    None \<Rightarrow> None
                  | Some combinations \<Rightarrow> display_tiers src schema (compiled_ast c) names combinations [] 20000))))"

definition readConditionalTaskPricing :: "jsstr \<Rightarrow> BillingUsageSchema \<Rightarrow> exn + TaskTier list option" where
  "readConditionalTaskPricing src schema = conditional_pricing (compile_source src) src schema"

end
