(* ===== verification/Task_Matrix_Display.thy ===== *)
theory Task_Matrix_Display
  imports Task_Expr Task_Display
begin

text \<open>
  Task tables of the marketplace (\<^verbatim>\<open>features/pricing/lib/task-matrix-display.ts\<close>): the matrix as rows, and the
  tiers with conditions for the fallback where exactly one combination of facts is left for it. The last
  part shows that the named fallback stands for the same tasks as the fallback without conditions.
\<close>

section \<open>Tables\<close>

definition matrix_display_row :: "comparison \<Rightarrow> TaskMatrixRow \<Rightarrow> TaskTier" where
  "matrix_display_row cmp row =
     \<lparr>kt_conditionText = None, kt_label = taskMatrixRowLabel cmp (mr_combination row), kt_conditions = row_conditions cmp row,
      kt_constant = mr_constant row, kt_unitPrices = mr_unitPrices row\<rparr>"

definition getTaskMatrixDisplayTiers ::
  "comparison \<Rightarrow> jsstr option \<Rightarrow> BillingUsageSchema option \<Rightarrow> exn + TaskTier list option" where
  "getTaskMatrixDisplayTiers cmp expr schema =
     (case schema of
        None \<Rightarrow> Inr None
      | Some schema \<Rightarrow>
          if getTaskEnumFields cmp (Some schema) = [] then Inr None
          else
            bindR (tryParseTaskMatrixConfig cmp expr schema) (\<lambda>matrix.
            Inr (map_option (map (matrix_display_row cmp)) matrix)))"

definition fact_values :: "BillingUsageSchema \<Rightarrow> jsstr \<Rightarrow> jsstr list" where
  "fact_values schema field =
     (case map_of schema field of
        None \<Rightarrow> []
      | Some d \<Rightarrow>
          if uf_type d = Some Field_boolean then [js ''false'', js ''true'']
          else (case uf_enum d of Some vs \<Rightarrow> vs | None \<Rightarrow> []))"

definition condition_on :: "jsstr \<Rightarrow> jsstr \<Rightarrow> TaskCondition" where
  "condition_on field v = \<lparr>kc_field = field, kc_value = v\<rparr>"

text \<open>The loop over the fields, which gives up where there are too many combinations.\<close>

fun fact_combinations :: "BillingUsageSchema \<Rightarrow> jsstr list \<Rightarrow> TaskCondition list list \<Rightarrow> TaskCondition list list option" where
  "fact_combinations schema [] combinations = Some combinations"
| "fact_combinations schema (field # names) combinations =
     (if fact_values schema field = [] \<or> 256 < length combinations * length (fact_values schema field) then None
      else fact_combinations schema names
             (concat (map (\<lambda>combination. map (\<lambda>v. combination @ [condition_on field v]) (fact_values schema field)) combinations)))"

definition taken_by :: "TaskCondition list \<Rightarrow> TaskTier \<Rightarrow> bool" where
  "taken_by combination tier = list_all (\<lambda>c. c \<in> set combination) (kt_conditions tier)"

definition condition_fields :: "TaskTier list \<Rightarrow> jsstr list" where
  "condition_fields tiers = sort (fold set_add (concat (map (\<lambda>t. map kc_field (kt_conditions t)) tiers)) [])"

definition name_fallback :: "BillingUsageSchema \<Rightarrow> TaskTier list \<Rightarrow> TaskTier list" where
  "name_fallback schema tiers =
     (let previous = butlast tiers
      in case fact_combinations schema (condition_fields previous) [[]] of
           None \<Rightarrow> tiers
         | Some combinations \<Rightarrow>
             (case filter (\<lambda>combination. \<not> list_ex (taken_by combination) previous) combinations of
                [rest] \<Rightarrow> previous @ [(last tiers)\<lparr>kt_conditions := rest\<rparr>]
              | _ \<Rightarrow> tiers))"

definition getTaskPricingDisplayTiers :: "jsstr option \<Rightarrow> BillingUsageSchema option \<Rightarrow> exn + TaskTier list" where
  "getTaskPricingDisplayTiers expr schema =
     (let source = (case expr of Some e \<Rightarrow> e | None \<Rightarrow> [])
      in bindR (parseTaskTiersFromExpr source schema True) (\<lambda>tiers.
           case schema of
             None \<Rightarrow> Inr tiers
           | Some schema \<Rightarrow>
               if tiers = [] \<and> source \<noteq> [] then
                 bindR (splitBillingExprAndRequestRules source) (\<lambda>(billingExpr, _).
                 bindR (readConditionalTaskPricing billingExpr schema) (\<lambda>r.
                 Inr (case r of Some rows \<Rightarrow> rows | None \<Rightarrow> [])))
               else if length tiers < 2 then Inr tiers
               else Inr (name_fallback schema tiers)))"

section \<open>The named fallback\<close>

text \<open>Facts of a task, and the tiers they satisfy.\<close>

definition satisfies :: "(jsstr \<Rightarrow> jsstr) \<Rightarrow> TaskTier \<Rightarrow> bool" where
  "satisfies \<sigma> t = list_all (\<lambda>c. \<sigma> (kc_field c) = kc_value c) (kt_conditions t)"

definition facts_of :: "(jsstr \<Rightarrow> jsstr) \<Rightarrow> jsstr list \<Rightarrow> TaskCondition list" where
  "facts_of \<sigma> names = map (\<lambda>f. condition_on f (\<sigma> f)) names"

lemma combinations_facts:
  "fact_combinations schema names cs = Some ds \<Longrightarrow> list_all (\<lambda>f. \<sigma> f \<in> set (fact_values schema f)) names \<Longrightarrow>
   c \<in> set cs \<Longrightarrow> c @ facts_of \<sigma> names \<in> set ds"
proof (induction schema names cs arbitrary: c rule: fact_combinations.induct)
  case (2 schema field names cs)
  have "c @ [condition_on field (\<sigma> field)] \<in>
      set (concat (map (\<lambda>combination. map (\<lambda>v. combination @ [condition_on field v]) (fact_values schema field)) cs))"
    using "2.prems"(2,3) by auto
  then show ?case using "2.IH" [of "c @ [condition_on field (\<sigma> field)]"] "2.prems"(1,2) by (auto simp: facts_of_def split: if_splits)
qed (simp add: facts_of_def)

lemma combinations_from_facts:
  "fact_combinations schema names cs = Some ds \<Longrightarrow> d \<in> set ds \<Longrightarrow> distinct names \<Longrightarrow>
   \<exists>c \<in> set cs. \<exists>\<sigma>. list_all (\<lambda>f. \<sigma> f \<in> set (fact_values schema f)) names \<and> d = c @ facts_of \<sigma> names"
proof (induction schema names cs rule: fact_combinations.induct)
  case (2 schema field names cs)
  from "2.IH" "2.prems" obtain c v \<sigma> where c: "c \<in> set cs" "v \<in> set (fact_values schema field)"
    "list_all (\<lambda>f. \<sigma> f \<in> set (fact_values schema f)) names" "d = (c @ [condition_on field v]) @ facts_of \<sigma> names"
    by (fastforce split: if_splits)
  have "facts_of (\<sigma>(field := v)) names = facts_of \<sigma> names" using "2.prems"(3) by (auto simp: facts_of_def)
  then show ?case using c "2.prems"(3)
    by (intro bexI [of _ c] exI [of _ "\<sigma>(field := v)"]) (auto simp: facts_of_def list_all_iff)
qed (simp add: facts_of_def)

lemma in_facts_of: "c \<in> set (facts_of \<sigma> names) \<longleftrightarrow> kc_field c \<in> set names \<and> \<sigma> (kc_field c) = kc_value c"
  by (cases c) (auto simp: facts_of_def condition_on_def)

lemma satisfies_taken:
  "set (map kc_field (kt_conditions t)) \<subseteq> set names \<Longrightarrow> taken_by (facts_of \<sigma> names) t \<longleftrightarrow> satisfies \<sigma> t"
  by (auto simp: taken_by_def satisfies_def in_facts_of list_all_iff)

lemma condition_fields_set: "set (condition_fields tiers) = (\<Union>t \<in> set tiers. kc_field ` set (kt_conditions t))"
proof -
  have "set (fold set_add xs ys) = set ys \<union> set xs" for xs ys :: "jsstr list" by (induction xs arbitrary: ys) auto
  then show ?thesis by (simp add: condition_fields_def)
qed

lemma condition_fields_distinct: "distinct (condition_fields tiers)"
proof -
  have "distinct ys \<Longrightarrow> distinct (fold set_add xs ys)" for xs ys :: "jsstr list" by (induction xs arbitrary: ys) auto
  then show ?thesis by (simp add: condition_fields_def)
qed

lemma named_fallback:
  assumes "name_fallback schema tiers = previous @ [row]" "previous = butlast tiers" "row \<noteq> last tiers"
    "list_all (\<lambda>f. \<sigma> f \<in> set (fact_values schema f)) (condition_fields previous)"
  shows "satisfies \<sigma> row \<longleftrightarrow> \<not> list_ex (satisfies \<sigma>) previous"
proof -
  let ?names = "condition_fields previous"
  have changed: "tiers \<noteq> previous @ [row]" using assms(3) by auto
  obtain ds where ds: "fact_combinations schema ?names [[]] = Some ds"
    and one: "filter (\<lambda>d. \<not> list_ex (taken_by d) previous) ds = [kt_conditions row]"
    using assms(1,2) changed
    by (auto simp: name_fallback_def Let_def split: option.splits list.splits)
  have sub: "set (map kc_field (kt_conditions t)) \<subseteq> set ?names" if "t \<in> set previous" for t
    using that by (auto simp: condition_fields_set)
  have taken: "list_ex (taken_by (facts_of \<rho> ?names)) previous \<longleftrightarrow> list_ex (satisfies \<rho>) previous" for \<rho>
    using satisfies_taken [OF sub] by (auto simp: list_ex_iff)
  have "kt_conditions row \<in> set (filter (\<lambda>d. \<not> list_ex (taken_by d) previous) ds)" unfolding one by simp
  then obtain \<rho> where \<rho>: "kt_conditions row = facts_of \<rho> ?names" "\<not> list_ex (satisfies \<rho>) previous"
    using combinations_from_facts [OF ds _ condition_fields_distinct, of "kt_conditions row"] taken by auto
  have row: "satisfies \<sigma> row \<longleftrightarrow> (\<forall>f \<in> set ?names. \<sigma> f = \<rho> f)"
    by (auto simp: satisfies_def \<rho>(1) facts_of_def condition_on_def list_all_iff)
  show ?thesis
  proof
    assume "satisfies \<sigma> row"
    then have "facts_of \<sigma> ?names = facts_of \<rho> ?names" using row by (auto simp: facts_of_def)
    then show "\<not> list_ex (satisfies \<sigma>) previous" using taken [of \<sigma>] taken [of \<rho>] \<rho>(2) by simp
  next
    assume "\<not> list_ex (satisfies \<sigma>) previous"
    moreover have "facts_of \<sigma> ?names \<in> set ds" using combinations_facts [OF ds assms(4), of "[]"] by simp
    ultimately have "facts_of \<sigma> ?names \<in> set (filter (\<lambda>d. \<not> list_ex (taken_by d) previous) ds)" using taken by simp
    then have "facts_of \<sigma> ?names = kt_conditions row" unfolding one by simp
    then show "satisfies \<sigma> row" by (auto simp: row \<rho>(1) facts_of_def condition_on_def)
  qed
qed

lemma name_fallback_shape:
  assumes "name_fallback schema tiers \<noteq> tiers"
  obtains rest where "name_fallback schema tiers = butlast tiers @ [(last tiers)\<lparr>kt_conditions := rest\<rparr>]"
  using assms by (auto simp: name_fallback_def Let_def split: option.splits list.splits)

lemma displayed_fallback:
  assumes "parseTaskTiersFromExpr e (Some schema) True = Inr tiers" "2 \<le> length tiers"
    "getTaskPricingDisplayTiers (Some e) (Some schema) = Inr rows" "rows \<noteq> tiers"
    "list_all (\<lambda>f. \<sigma> f \<in> set (fact_values schema f)) (condition_fields (butlast tiers))"
  shows "butlast rows = butlast tiers" "\<exists>rest. last rows = (last tiers)\<lparr>kt_conditions := rest\<rparr>"
    "satisfies \<sigma> (last rows) \<longleftrightarrow> \<not> list_ex (satisfies \<sigma>) (butlast rows)"
proof -
  have rows: "rows = name_fallback schema tiers"
    using assms(1-3) by (auto simp: getTaskPricingDisplayTiers_def Let_def split: if_splits)
  then obtain rest where r: "rows = butlast tiers @ [(last tiers)\<lparr>kt_conditions := rest\<rparr>]"
    using assms(4) name_fallback_shape by metis
  show "butlast rows = butlast tiers" "\<exists>rest. last rows = (last tiers)\<lparr>kt_conditions := rest\<rparr>" using r by auto
  have ne: "(last tiers)\<lparr>kt_conditions := rest\<rparr> \<noteq> last tiers"
  proof
    assume "(last tiers)\<lparr>kt_conditions := rest\<rparr> = last tiers"
    then have "rows = tiers" using r assms(2) by (metis append_butlast_last_id list.size(3) not_numeral_le_zero)
    then show False using assms(4) by simp
  qed
  show "satisfies \<sigma> (last rows) \<longleftrightarrow> \<not> list_ex (satisfies \<sigma>) (butlast rows)"
    using named_fallback [OF r [unfolded rows] refl ne assms(5)] r by simp
qed

end
