(* ===== verification/Breakdown_Match.thy ===== *)
theory Breakdown_Match
  imports Task_Matrix_Display
begin

text \<open>
  The row of a price table that a settled request hit (\<^verbatim>\<open>features/pricing/lib/breakdown-tier-match.ts\<close>): rows are
  compared by label, and by the facts of the task where the label does not decide.
\<close>

datatype BreakdownMatchTier = Token_row ParsedTier | Task_row TaskTier

datatype usage_fact = Fact_text jsstr | Fact_number jsnum

type_synonym usage_facts = "(jsstr, usage_fact) js_map"

fun row_label :: "BreakdownMatchTier \<Rightarrow> jsstr" where
  "row_label (Token_row t) = pt_label t"
| "row_label (Task_row t) = kt_label t"

definition tierMatchesNormalizedLabel :: "host \<Rightarrow> BreakdownMatchTier \<Rightarrow> jsstr \<Rightarrow> bool" where
  "tierMatchesNormalizedLabel H tier label \<longleftrightarrow> label \<noteq> [] \<and> normalizeTierLabel H (Some (row_label tier)) = label"

text \<open>\<open>String(fact)\<close>; a fact that is missing is \<open>undefined\<close>.\<close>

definition usage_text :: "usage_fact option \<Rightarrow> jsstr" where
  "usage_text v =
     (case v of Some (Fact_text s) \<Rightarrow> s | Some (Fact_number x) \<Rightarrow> num_to_string x | None \<Rightarrow> js ''undefined'')"

definition has_text :: "jsstr option \<Rightarrow> bool" where
  "has_text t = (case t of Some s \<Rightarrow> s \<noteq> [] | None \<Rightarrow> False)"

text \<open>The check of unit and fixed price, for rows of token tables.\<close>

definition unit_excludes :: "BreakdownMatchTier \<Rightarrow> BillingUnit option \<Rightarrow> jsnum option \<Rightarrow> bool" where
  "unit_excludes tier billingUnit fixedPrice =
     (case (tier, billingUnit) of
        (Token_row t, Some unit) \<Rightarrow>
          (case pt_billingUnit t of Some u \<Rightarrow> u | None \<Rightarrow> Unit_token) \<noteq> unit \<or>
          (unit = Unit_request \<and> fixedPrice \<noteq> None \<and> \<not> equal_prices (pt_fixedPrice t) fixedPrice)
      | _ \<Rightarrow> False)"

text \<open>Rows that share the label of the hit: the facts decide, unless the row also depends on the time.\<close>

definition shared_label_match :: "TaskTier \<Rightarrow> usage_facts option \<Rightarrow> bool" where
  "shared_label_match t facts =
     (case facts of
        None \<Rightarrow> False
      | Some fs \<Rightarrow>
          \<not> has_text (kt_conditionText t) \<and> kt_conditions t \<noteq> [] \<and>
          list_all (\<lambda>c. usage_text (map_of fs (kc_field c)) = kc_value c) (kt_conditions t))"

definition facts_match :: "TaskTier \<Rightarrow> usage_facts option \<Rightarrow> bool" where
  "facts_match t facts =
     (case facts of
        None \<Rightarrow> False
      | Some fs \<Rightarrow>
          kt_conditions t \<noteq> [] \<and> \<not> has_text (kt_conditionText t) \<and>
          list_all (\<lambda>c. map_of fs (kc_field c) \<noteq> None \<and> usage_text (map_of fs (kc_field c)) = kc_value c) (kt_conditions t))"

definition isBreakdownTierMatched ::
  "host \<Rightarrow> BreakdownMatchTier \<Rightarrow> BreakdownMatchTier list \<Rightarrow> jsstr option \<Rightarrow> usage_facts option \<Rightarrow> BillingUnit option \<Rightarrow> jsnum option \<Rightarrow> bool" where
  "isBreakdownTierMatched H tier tiers matchedTierLabel facts billingUnit fixedPrice =
     (if unit_excludes tier billingUnit fixedPrice then False
      else
        (let label = normalizeTierLabel H matchedTierLabel;
             same = filter (\<lambda>candidate. tierMatchesNormalizedLabel H candidate label) tiers
         in if tierMatchesNormalizedLabel H tier label then
              (case tier of
                 Task_row t \<Rightarrow> if 1 < length same then shared_label_match t facts else True
               | Token_row _ \<Rightarrow> True)
            else if same \<noteq> [] then False
            else (case tier of Task_row t \<Rightarrow> facts_match t facts | Token_row _ \<Rightarrow> False)))"

section \<open>Which rows are hit\<close>

text \<open>Where one row has the label, it is the only row that can be hit.\<close>

lemma label_decides:
  assumes "filter (\<lambda>candidate. tierMatchesNormalizedLabel H candidate (normalizeTierLabel H label)) tiers = [row]"
    "tier \<in> set tiers"
  shows "isBreakdownTierMatched H tier tiers label facts billingUnit fixedPrice \<longleftrightarrow>
    tier = row \<and> \<not> unit_excludes tier billingUnit fixedPrice"
proof -
  let ?P = "\<lambda>candidate. tierMatchesNormalizedLabel H candidate (normalizeTierLabel H label)"
  have "row \<in> set (filter ?P tiers)" using assms(1) by simp
  then have "?P row" by simp
  moreover have "tier = row" if "?P tier"
  proof -
    have "tier \<in> set (filter ?P tiers)" using that assms(2) by simp
    then show ?thesis using assms(1) by simp
  qed
  ultimately show ?thesis using assms(1) by (auto simp: isBreakdownTierMatched_def Let_def split: BreakdownMatchTier.splits)
qed

text \<open>Of task rows that the label does not tell apart, two that are hit agree on every fact both name.\<close>

lemma hits_agree:
  assumes "Task_row s \<in> set tiers" "Task_row t \<in> set tiers"
    "isBreakdownTierMatched H (Task_row s) tiers label facts bu fp"
    "isBreakdownTierMatched H (Task_row t) tiers label facts bu fp"
    "length (filter (\<lambda>candidate. tierMatchesNormalizedLabel H candidate (normalizeTierLabel H label)) tiers) \<noteq> 1"
    "c \<in> set (kt_conditions s)" "d \<in> set (kt_conditions t)" "kc_field c = kc_field d"
  shows "kc_value c = kc_value d"
proof -
  let ?same = "filter (\<lambda>candidate. tierMatchesNormalizedLabel H candidate (normalizeTierLabel H label)) tiers"
  have shown: "\<exists>fs. facts = Some fs \<and> list_all (\<lambda>c. usage_text (map_of fs (kc_field c)) = kc_value c) (kt_conditions r)"
    if "Task_row r \<in> set tiers" "isBreakdownTierMatched H (Task_row r) tiers label facts bu fp" "1 < length ?same \<or> ?same = []" for r
    using that by (auto simp: isBreakdownTierMatched_def Let_def shared_label_match_def facts_match_def unit_excludes_def
        list_all_iff filter_empty_conv split: if_splits option.splits)
  have "1 < length ?same \<or> ?same = []" using assms(5) by (cases "length ?same") auto
  then show ?thesis using shown [OF assms(1,3)] shown [OF assms(2,4)] assms(6-8) by (auto simp: list_all_iff)
qed

end
