(* ===== verification/Task_Display_Props.thy ===== *)
theory Task_Display_Props
  imports Task_Display Display_Props
begin

text \<open>
  The rows of a conditional task table: for every assignment of truth values to the time conditions exactly
  one branch applies, and it has the label and the price that the expression has under that assignment.
\<close>

section \<open>Times\<close>

definition applies_at :: "(jsstr \<Rightarrow> bool) \<Rightarrow> PriceBranch \<Rightarrow> bool" where
  "applies_at \<tau> b \<longleftrightarrow> (\<forall>k v. map_of (pb_times b) k = Some v \<longrightarrow> \<tau> k = v)"

abbreviation times_distinct :: "PriceBranch \<Rightarrow> bool" where
  "times_distinct b \<equiv> distinct (map fst (pb_times b))"

lemma map_of_merge:
  "distinct (map fst b) \<Longrightarrow> map_of (merge_times a b) k = (case map_of b k of Some v \<Rightarrow> Some v | None \<Rightarrow> map_of a k)"
  unfolding merge_times_def
proof (induction b arbitrary: a)
  case (Cons p b)
  obtain j v where p: "p = (j, v)" by (cases p)
  have "map_of b j = None" using Cons.prems p by (simp add: map_of_eq_None_iff)
  then show ?case using Cons p by (auto simp: js_map_get_set split: option.splits)
qed simp

lemma distinct_merge: "distinct (map fst a) \<Longrightarrow> distinct (map fst (merge_times a b))"
  unfolding merge_times_def by (rule distinct_fold_set)

lemma contradictory_iff:
  assumes "distinct (map fst a)"
  shows "contradictory a b \<longleftrightarrow> (\<exists>k v w. map_of a k = Some v \<and> map_of b k = Some w \<and> w \<noteq> v)"
proof -
  have "(case p of (key, v) \<Rightarrow> case map_of b key of Some w \<Rightarrow> w \<noteq> v | None \<Rightarrow> False)
      \<longleftrightarrow> (\<exists>w. map_of b (fst p) = Some w \<and> w \<noteq> snd p)" for p
    by (cases p) (simp split: option.splits)
  then have "contradictory a b \<longleftrightarrow> (\<exists>k v. (k, v) \<in> set a \<and> (\<exists>w. map_of b k = Some w \<and> w \<noteq> v))"
    unfolding contradictory_def list_ex_iff Bex_def split_paired_Ex by (simp only: fst_conv snd_conv)
  then show ?thesis using assms by (simp add: map_of_eq_Some_iff)
qed

lemma applies_merge:
  assumes "times_distinct a" "times_distinct b" "\<not> contradictory (pb_times a) (pb_times b)"
    "pb_times x = merge_times (pb_times a) (pb_times b)"
  shows "applies_at \<tau> x \<longleftrightarrow> applies_at \<tau> a \<and> applies_at \<tau> b"
proof -
  have x: "map_of (pb_times x) k = (case map_of (pb_times b) k of Some v \<Rightarrow> Some v | None \<Rightarrow> map_of (pb_times a) k)" for k
    unfolding assms(4) by (rule map_of_merge [OF assms(2)])
  have same: "w = v" if "map_of (pb_times a) k = Some v" "map_of (pb_times b) k = Some w" for k v w
    using assms(3) that unfolding contradictory_iff [OF assms(1)] by blast
  have "map_of (pb_times x) k = Some v \<longleftrightarrow> map_of (pb_times a) k = Some v \<or> map_of (pb_times b) k = Some v" for k v
    using x [of k] same [of k v] by (cases "map_of (pb_times b) k") auto
  then show ?thesis unfolding applies_at_def by blast
qed

lemma applies_contradictory:
  assumes "times_distinct a" "applies_at \<tau> a" "applies_at \<tau> b"
  shows "\<not> contradictory (pb_times a) (pb_times b)"
  using assms(2,3) unfolding contradictory_iff [OF assms(1)] applies_at_def by fastforce

section \<open>The price under an assignment\<close>

text \<open>The conditions without the budget of steps.\<close>

fun condition_of :: "TaskDisplayContext \<Rightarrow> ExpressionNode \<Rightarrow> DisplayCondition option" where
  "condition_of C (Literal v i s e) = (case v of LBool b \<Rightarrow> Some (Known b) | _ \<Rightarrow> None)"
| "condition_of C (Unary f x s e) = (if f = js ''!'' then map_option negate_condition (condition_of C x) else None)"
| "condition_of C (Binary f l r s e) =
     (if f = js ''&&'' \<or> f = js ''||'' then
        do { a \<leftarrow> condition_of C l; b \<leftarrow> condition_of C r; Some (combine_conditions f a b) }
      else comparison_condition C f l r s e)"
| "condition_of C node = None"

lemma condition_budget: "taskDisplayCondition C node n = Some (c, n') \<Longrightarrow> condition_of C node = Some c"
proof (induction node arbitrary: n c n')
  case (Literal v i s e)
  then show ?case by (auto split: bind_splits literal.splits)
next
  case (Unary f x s e)
  from Unary.prems obtain k d m where "f = js ''!''" "taskDisplayCondition C x k = Some (d, m)" "c = negate_condition d"
    by (auto split: bind_splits if_splits)
  then show ?case using Unary.IH by simp
next
  case (Binary f l r s e)
  show ?case
  proof (cases "f = js ''&&'' \<or> f = js ''||''")
    case True
    then obtain k a m b where "taskDisplayCondition C l k = Some (a, m)" "taskDisplayCondition C r m = Some (b, n')"
      "c = combine_conditions f a b"
      using Binary.prems by (auto split: bind_splits)
    then show ?thesis using True Binary.IH(1) [of k a m] Binary.IH(2) [of m b n'] by auto
  next
    case False
    then show ?thesis using Binary.prems by (auto split: bind_splits)
  qed
qed auto

definition decided :: "(jsstr \<Rightarrow> bool) \<Rightarrow> DisplayCondition \<Rightarrow> bool" where
  "decided \<tau> c = (case c of Known b \<Rightarrow> b | Described t \<Rightarrow> \<tau> t)"

text \<open>The price of an expression where every time condition is decided: no branches and no budget.\<close>

function price_under :: "(jsstr \<Rightarrow> bool) \<Rightarrow> TaskDisplayContext \<Rightarrow> ExpressionNode \<Rightarrow> PriceBranch option" where
  "price_under \<tau> C (Literal v i s e) =
     (case v of LNum x \<Rightarrow> if js_le zero_num x then Some (plain_branch x []) else None | _ \<Rightarrow> None)"
| "price_under \<tau> C (Call f args s e) =
     (case args of
        Literal (LStr text) _ _ _ # rest \<Rightarrow>
          if f = js ''u'' then
            (case map_of (dc_schema C) text of
               Some d \<Rightarrow>
                 if uf_type d = Some Field_number \<and> has_unit d then Some (plain_branch zero_num [(text, one_num)]) else None
             | None \<Rightarrow> None)
          else if f = js ''tier'' then
            (case rest of
               body # _ \<Rightarrow>
                 do { b \<leftarrow> price_under \<tau> C body;
                      if pb_label b \<noteq> None then None else Some (b\<lparr>pb_label := Some text\<rparr>) }
             | [] \<Rightarrow> None)
          else None
      | _ \<Rightarrow> None)"
| "price_under \<tau> C (Conditional c y m s e) =
     do { condition \<leftarrow> condition_of C c; if decided \<tau> condition then price_under \<tau> C y else price_under \<tau> C m }"
| "price_under \<tau> C (Binary f l r s e) =
     (if f \<in> {js ''+'', js ''*'', js ''/''} then
        do { a \<leftarrow> price_under \<tau> C l; b \<leftarrow> price_under \<tau> C r; map_option hd (combine_branches f a b) }
      else None)"
| "price_under \<tau> C (Variable x s e) = None"
| "price_under \<tau> C (Unary f x s e) = None"
  by pat_completeness auto
termination
  by (relation "measure (\<lambda>(_, _, node). size node)") auto

definition untimed :: "PriceBranch \<Rightarrow> PriceBranch" where
  "untimed b = b\<lparr>pb_times := []\<rparr>"

lemma untimed_simps [simp]: "pb_label (untimed b) = pb_label b" "pb_times (untimed b) = []"
  by (simp_all add: untimed_def)

section \<open>Exactly one branch\<close>

text \<open>What the result of a computation of branches is under an assignment.\<close>

definition one_branch :: "(jsstr \<Rightarrow> bool) \<Rightarrow> PriceBranch option \<Rightarrow> PriceBranch list \<Rightarrow> bool" where
  "one_branch \<tau> price bs \<longleftrightarrow> list_all times_distinct bs \<and> (\<exists>b. filter (applies_at \<tau>) bs = [b] \<and> price = Some (untimed b))"

lemma one_plain: "one_branch \<tau> (Some (plain_branch x ps)) [plain_branch x ps]"
  by (simp add: one_branch_def plain_branch_def applies_at_def untimed_def)

lemma one_label:
  assumes "one_branch \<tau> price bs"
  shows "one_branch \<tau> (map_option (\<lambda>b. b\<lparr>pb_label := Some t\<rparr>) price) (map (\<lambda>b. b\<lparr>pb_label := Some t\<rparr>) bs)"
proof -
  have "applies_at \<tau> (b\<lparr>pb_label := Some t\<rparr>) = applies_at \<tau> b" for b by (simp add: applies_at_def)
  then show ?thesis using assms by (auto simp: one_branch_def list_all_iff filter_map o_def untimed_def)
qed

lemma under_times:
  assumes "times_distinct b"
  shows "map_of (pb_times (b\<lparr>pb_times := merge_times [(t, m)] (pb_times b)\<rparr>)) k
    = (case map_of (pb_times b) k of Some v \<Rightarrow> Some v | None \<Rightarrow> if k = t then Some m else None)"
  using map_of_merge [OF assms, of "[(t, m)]" k] by (auto split: option.splits)

lemma applies_under:
  assumes "times_distinct b" "case map_of (pb_times b) t of Some m' \<Rightarrow> m' = m | None \<Rightarrow> True"
  shows "applies_at \<tau> (b\<lparr>pb_times := merge_times [(t, m)] (pb_times b)\<rparr>) \<longleftrightarrow> \<tau> t = m \<and> applies_at \<tau> b"
proof -
  let ?x = "b\<lparr>pb_times := merge_times [(t, m)] (pb_times b)\<rparr>"
  have x: "map_of (pb_times ?x) k = Some v \<longleftrightarrow> (k = t \<and> v = m) \<or> map_of (pb_times b) k = Some v" for k v
    unfolding under_times [OF assms(1)] using assms(2) by (cases "map_of (pb_times b) k"; cases "k = t") auto
  show ?thesis unfolding applies_at_def x by auto
qed

lemma under_filter:
  assumes "list_all times_distinct bs"
  shows "filter (applies_at \<tau>) (under_condition t m bs)
    = (if \<tau> t = m then map (\<lambda>b. b\<lparr>pb_times := merge_times [(t, m)] (pb_times b)\<rparr>) (filter (applies_at \<tau>) bs) else [])"
  using assms
proof (induction bs)
  case Nil
  then show ?case by (simp add: under_condition_def)
next
  case (Cons b bs)
  let ?in = "case map_of (pb_times b) t of Some m' \<Rightarrow> m' = m | None \<Rightarrow> True"
  have IH: "filter (applies_at \<tau>) (under_condition t m bs)
    = (if \<tau> t = m then map (\<lambda>b. b\<lparr>pb_times := merge_times [(t, m)] (pb_times b)\<rparr>) (filter (applies_at \<tau>) bs) else [])"
    using Cons by simp
  have u: "under_condition t m (b # bs) =
      (if ?in then [b\<lparr>pb_times := merge_times [(t, m)] (pb_times b)\<rparr>] else []) @ under_condition t m bs"
    by (simp add: under_condition_def)
  show ?case
  proof (cases ?in)
    case True
    then show ?thesis using applies_under [where b = b and t = t and m = m and \<tau> = \<tau>] Cons.prems IH unfolding u by simp
  next
    case False
    then have "\<tau> t = m \<Longrightarrow> \<not> applies_at \<tau> b" by (auto simp: applies_at_def split: option.splits)
    then show ?thesis using False IH unfolding u by simp
  qed
qed

lemma one_condition:
  assumes "one_branch \<tau> yes ys" "one_branch \<tau> no ns"
  shows "one_branch \<tau> (if \<tau> t then yes else no) (under_condition t True ys @ under_condition t False ns)"
proof -
  have "list_all times_distinct (under_condition t m bs)" for m bs
    by (auto simp: under_condition_def list_all_iff intro: distinct_merge)
  then show ?thesis using assms under_filter [of ys \<tau> t True] under_filter [of ns \<tau> t False]
    by (auto simp: one_branch_def untimed_def)
qed

lemma combine_amounts_untimed: "combine_amounts f (untimed a) (untimed b) = combine_amounts f a b"
  by (simp add: combine_amounts_def untimed_def has_quantity_def)

lemma combine_pair:
  assumes "combine_branches f a b = Some q" "times_distinct a" "times_distinct b"
  shows "list_all times_distinct q" "filter (applies_at \<tau>) q = (if applies_at \<tau> a \<and> applies_at \<tau> b then q else [])"
    "applies_at \<tau> a \<Longrightarrow> applies_at \<tau> b \<Longrightarrow> \<exists>x. q = [x] \<and> combine_branches f (untimed a) (untimed b) = Some [untimed x]"
proof -
  consider (skip) "q = []" "contradictory (pb_times a) (pb_times b)"
    | (one) x where "q = [x]" "\<not> contradictory (pb_times a) (pb_times b)" "pb_times x = merge_times (pb_times a) (pb_times b)"
        "combine_branches f (untimed a) (untimed b) = Some [untimed x]"
  proof (cases "contradictory (pb_times a) (pb_times b)")
    case True
    then show thesis using assms(1) that(1) by (auto simp: combine_branches_def split: if_splits)
  next
    case False
    then obtain c ps where c: "combine_amounts f a b = Some (c, ps)" "amounts_ok c ps"
      using assms(1) by (auto simp: combine_branches_def split: if_splits bind_splits)
    have l: "\<not> (pb_label a \<noteq> None \<and> pb_label b \<noteq> None)" using assms(1) by (auto simp: combine_branches_def split: if_split_asm)
    let ?x = "\<lparr>pb_label = (case pb_label a of Some l \<Rightarrow> Some l | None \<Rightarrow> pb_label b), pb_constant = c, pb_prices = ps,
      pb_times = merge_times (pb_times a) (pb_times b)\<rparr>"
    have "q = [?x]" using assms(1) False c l unfolding combine_branches_def by (auto split: if_split_asm)
    moreover have "combine_branches f (untimed a) (untimed b) = Some [untimed ?x]"
      using c l unfolding combine_branches_def combine_amounts_untimed
      by (auto simp: untimed_def contradictory_def merge_times_def split: option.splits)
    ultimately show thesis using that(2) [of ?x] False by simp
  qed
  note cases = this
  show "list_all times_distinct q" using cases assms(2) by cases (simp_all add: distinct_merge)
  show "filter (applies_at \<tau>) q = (if applies_at \<tau> a \<and> applies_at \<tau> b then q else [])"
    using cases by cases (simp_all add: applies_merge [OF assms(2,3)])
  assume "applies_at \<tau> a" "applies_at \<tau> b"
  then show "\<exists>x. q = [x] \<and> combine_branches f (untimed a) (untimed b) = Some [untimed x]"
    using cases applies_contradictory [OF assms(2)] by cases blast+
qed

lemma filter_product: "filter (\<lambda>p. P (fst p) \<and> Q (snd p)) (List.product xs ys) = List.product (filter P xs) (filter Q ys)"
  by (induction xs) (auto simp: filter_map o_def)

lemma concat_if: "concat (map (\<lambda>p. if P p then g p else []) ps) = concat (map g (filter P ps))"
  by (induction ps) auto

lemma one_combine:
  assumes "one_branch \<tau> pl ls" "one_branch \<tau> pr rs" "combine_all f ls rs = Some bs"
  shows "one_branch \<tau> (do { a \<leftarrow> pl; b \<leftarrow> pr; map_option hd (combine_branches f a b) }) bs"
proof -
  obtain a b where a: "filter (applies_at \<tau>) ls = [a]" "pl = Some (untimed a)" and b: "filter (applies_at \<tau>) rs = [b]" "pr = Some (untimed b)"
    and d: "list_all times_distinct ls" "list_all times_distinct rs" using assms(1,2) by (auto simp: one_branch_def)
  let ?ps = "List.product ls rs"
  define g where "g p = the (combine_branches f (fst p) (snd p))" for p
  obtain qs where q: "mapO (\<lambda>(a, b). combine_branches f a b) ?ps = Some qs" "bs = concat qs"
    using assms(3) by (auto simp: combine_all_def split: if_splits)
  then have m: "map (\<lambda>p. combine_branches f (fst p) (snd p)) ?ps = map Some qs" by (simp add: mapO_eq_Some split_def)
  have g: "combine_branches f (fst p) (snd p) = Some (g p)" if "p \<in> set ?ps" for p
  proof -
    have "combine_branches f (fst p) (snd p) \<in> set (map Some qs)" unfolding m [symmetric] using that by auto
    then show ?thesis by (auto simp: g_def)
  qed
  then have "map Some (map g ?ps) = map Some qs" unfolding m [symmetric] by simp
  then have "map g ?ps = qs" by (simp only: inj_map_eq_map [OF inj_Some])
  then have bs: "bs = concat (map g ?ps)" using q(2) by simp
  have pd: "times_distinct (fst p)" "times_distinct (snd p)" if "p \<in> set ?ps" for p
    using that d by (auto simp: list_all_iff)
  note pair = combine_pair [OF g pd]
  have "filter (applies_at \<tau>) bs = concat (map (\<lambda>p. filter (applies_at \<tau>) (g p)) ?ps)" by (simp add: bs filter_concat o_def)
  also have "\<dots> = concat (map (\<lambda>p. if applies_at \<tau> (fst p) \<and> applies_at \<tau> (snd p) then g p else []) ?ps)"
    using pair(2) by (intro arg_cong [where f = concat] map_cong refl) blast
  also have "\<dots> = g (a, b)" unfolding concat_if filter_product a(1) b(1) by simp
  finally have f: "filter (applies_at \<tau>) bs = g (a, b)" .
  have ab: "(a, b) \<in> set ?ps" "applies_at \<tau> a" "applies_at \<tau> b"
    using a(1) b(1) by (auto simp: filter_eq_Cons_iff)
  then obtain x where "g (a, b) = [x]" "combine_branches f (untimed a) (untimed b) = Some [untimed x]"
    using pair(3) [OF ab(1) ab(1) ab(1), of \<tau>] by auto
  moreover have "list_all times_distinct bs" using pair(1) by (auto simp: bs list_all_iff)
  ultimately show ?thesis using f a(2) b(2) by (simp add: one_branch_def)
qed

lemma branches_under:
  "taskPriceBranches C node n = Some (bs, n') \<Longrightarrow> one_branch \<tau> (price_under \<tau> C node) bs"
proof (induction C node n arbitrary: bs n' rule: taskPriceBranches.induct)
  case (1 C v i s e n)
  then show ?case using one_plain by (auto split: bind_splits literal.splits if_splits)
next
  case (2 C f args s e n)
  from "2.prems" obtain m where m: "spend n = Some m" by (auto split: bind_splits)
  from "2.prems" obtain t i s' e' rest where a: "args = Literal (LStr t) i s' e' # rest"
    by (auto split: bind_splits list.splits ExpressionNode.splits literal.splits)
  show ?case
  proof (cases "f = js ''u''")
    case True
    then show ?thesis using "2.prems" one_plain by (auto simp: a split: bind_splits option.splits if_splits)
  next
    case False
    then obtain body rest' where r: "f = js ''tier''" "rest = body # rest'"
      using "2.prems" by (auto simp: a split: bind_splits list.splits if_splits)
    then obtain cs where cs: "taskPriceBranches C body m = Some (cs, n')" "\<not> list_ex (\<lambda>b. pb_label b \<noteq> None) cs"
      "bs = map (\<lambda>b. b\<lparr>pb_label := Some t\<rparr>) cs"
      using "2.prems" m by (auto simp: a split: bind_splits if_splits)
    have one: "one_branch \<tau> (price_under \<tau> C body) cs" using "2.IH" [OF m a refl refl False r cs(1)] .
    then obtain b where b: "filter (applies_at \<tau>) cs = [b]" "price_under \<tau> C body = Some (untimed b)"
      unfolding one_branch_def by blast
    have "b \<in> set (filter (applies_at \<tau>) cs)" unfolding b(1) by simp
    then have "price_under \<tau> C (Call f args s e) = map_option (\<lambda>b. b\<lparr>pb_label := Some t\<rparr>) (price_under \<tau> C body)"
      using cs(2) r False b(2) by (auto simp: a list_ex_iff untimed_def)
    then show ?thesis using one_label [OF one] cs(3) by simp
  qed
next
  case (3 C c y m s e n)
  from "3.prems" obtain k d k' where k: "spend n = Some k" "taskDisplayCondition C c k = Some (d, k')"
    by (auto split: bind_splits)
  note c = condition_budget [OF k(2)]
  show ?case
  proof (cases d)
    case (Known b)
    then show ?thesis using "3.prems" "3.IH"(1) [OF k(1) k(2) refl Known] "3.IH"(2) [OF k(1) k(2) refl Known] k c
      by (cases b) (simp_all add: decided_def)
  next
    case (Described t)
    then obtain ys j ns where b: "taskPriceBranches C y k' = Some (ys, j)" "taskPriceBranches C m j = Some (ns, n')"
      "bs = under_condition t True ys @ under_condition t False ns"
      using "3.prems" k by (auto simp: Let_def split: bind_splits if_splits)
    have "one_branch \<tau> (price_under \<tau> C y) ys" "one_branch \<tau> (price_under \<tau> C m) ns"
      using "3.IH"(3) [OF k(1) k(2) refl Described b(1)] "3.IH"(4) [OF k(1) k(2) refl Described b(1) refl b(2)] by blast+
    then show ?thesis using one_condition [of \<tau> _ ys _ ns t] c Described b(3) by (simp add: decided_def)
  qed
next
  case (4 C f l r s e n)
  from "4.prems" obtain k ls j rs where f: "f \<in> {js ''+'', js ''*'', js ''/''}" and k: "spend n = Some k"
    and b: "taskPriceBranches C l k = Some (ls, j)" "taskPriceBranches C r j = Some (rs, n')" "combine_all f ls rs = Some bs"
    by (auto split: bind_splits if_splits)
  have "one_branch \<tau> (price_under \<tau> C l) ls" "one_branch \<tau> (price_under \<tau> C r) rs"
    using "4.IH"(1) [OF k f b(1)] "4.IH"(2) [OF k f b(1) refl b(2)] by blast+
  then show ?case using one_combine [OF _ _ b(3)] f by simp
qed auto

section \<open>Known conditions\<close>

text \<open>The facts of a combination: declared values, which the task of the context has.\<close>

definition declared_fact :: "BillingUsageSchema \<Rightarrow> jsstr \<Rightarrow> literal \<Rightarrow> bool" where
  "declared_fact schema key v \<longleftrightarrow> (\<exists>d. map_of schema key = Some d \<and> v \<in> set (field_values d))"

definition facts_hold :: "TaskDisplayContext \<Rightarrow> BillingSimulationContext \<Rightarrow> bool" where
  "facts_hold C X \<longleftrightarrow> (\<exists>usage. cx_usage X = Some usage \<and>
     (\<forall>key v. map_of (dc_facts C) key = Some v \<longrightarrow>
        declared_fact (dc_schema C) key v \<and> map_of usage key = Some (lit_val v)))"

lemma evaluate_usage:
  assumes "evaluate H rules X d (Call (js ''u'') (Literal (LStr key) i a b # rest) s e) st = Inr (v, st')" "cx_usage X = Some usage"
  shows "rv_value v = (case map_of usage key of Some w \<Rightarrow> w | None \<Rightarrow> JNull)"
proof -
  obtain t s' where t: "string_arg (evaluate H rules X (d + 1)) (Literal (LStr key) i a b # rest) 0 st = Inr (t, s')"
    and v: "v = plain (case map_of usage t of Some w \<Rightarrow> w | None \<Rightarrow> JNull)"
    using evaluate_step(1) [OF assms(1)] assms(2)
    by (auto simp: evaluateNode_def call_of_def request_function_def bindR_eq_Inr)
  show ?thesis using literal_argument [OF t] v by simp
qed

lemma probe_values:
  assumes "usage_probe p q = Some (key, w)" "evaluate H rules X d p st = Inr (a, st1)" "evaluate H rules X d' q st2 = Inr (b, st3)"
    "cx_usage X = Some usage" "map_of usage key = Some u"
  shows "rv_value a = u \<and> rv_value b = lit_val w"
proof -
  obtain i x y rest s e j z t where p: "p = Call (js ''u'') (Literal (LStr key) i x y # rest) s e" and q: "q = Literal w j z t"
    using assms(1) by (auto simp: usage_probe_def split: ExpressionNode.splits list.splits literal.splits if_splits)
  show ?thesis using evaluate_usage [OF assms(2) [unfolded p] assms(4)] evaluate_literal [OF assms(3) [unfolded q]] assms(5) by simp
qed

lemma strict_eq_facts:
  "v \<in> set (field_values d) \<Longrightarrow> strict_eq (lit_val v) (lit_val w) = (v = w) \<and> strict_eq (lit_val w) (lit_val v) = (v = w) \<and> \<not> is_object (lit_val v)"
  by (cases w) (auto simp: field_values_def split: if_splits option.splits)

lemma fact_condition_value:
  assumes "fact_condition C f key w = Some (Known b)" "f = js ''=='' \<or> f = js ''!=''" "map_of (dc_facts C) key = Some v"
    "declared_fact (dc_schema C) key v"
  shows "b = (if f = js ''=='' then v = w else v \<noteq> w)"
proof -
  obtain d where d: "map_of (dc_schema C) key = Some d" "v \<in> set (field_values d)" using assms(4) by (auto simp: declared_fact_def)
  show ?thesis
  proof (cases "uf_type d = Some Field_boolean")
    case True
    then show ?thesis using assms(1,3) d by (auto simp: fact_condition_def Let_def split: literal.splits)
  next
    case False
    then obtain s where w: "w = LStr s" using assms(1,3) d by (auto simp: fact_condition_def Let_def split: literal.splits)
    show ?thesis
    proof (cases "case uf_enum d of Some vs \<Rightarrow> s \<in> set vs | None \<Rightarrow> False")
      case True
      then show ?thesis using False assms(1,3) d w by (auto simp: fact_condition_def Let_def)
    next
      case undeclared: False
      then have "v \<noteq> w" using d(2) False w by (auto simp: field_values_def split: option.splits)
      then show ?thesis using False undeclared assms(1,2,3) d w by (auto simp: fact_condition_def Let_def)
    qed
  qed
qed

lemma known_comparison:
  assumes "comparison_condition C f l r s e = Some (Known b)" "facts_hold C X"
    "evaluate H rules X d (Binary f l r s e) st = Inr (v, st')" "f \<noteq> js ''&&''" "f \<noteq> js ''||''"
  shows "rv_value v = JBool b"
proof -
  have f: "f = js ''=='' \<or> f = js ''!=''"
    using assms(1) by (auto simp: comparison_condition_def time_comparison_def split: if_splits option.splits)
  obtain key w where p: "usage_probe l r = Some (key, w) \<or> usage_probe r l = Some (key, w)" and c: "fact_condition C f key w = Some (Known b)"
    using assms(1) f by (auto simp: comparison_condition_def time_comparison_def split: if_splits option.splits)
  obtain u where u: "map_of (dc_facts C) key = Some u" using c by (auto simp: fact_condition_def split: option.splits)
  obtain usage where x: "cx_usage X = Some usage" "declared_fact (dc_schema C) key u" "map_of usage key = Some (lit_val u)"
    using assms(2) u by (auto simp: facts_hold_def)
  have b: "b = (if f = js ''=='' then u = w else u \<noteq> w)" by (rule fact_condition_value [OF c f u x(2)])
  obtain fd where fd: "u \<in> set (field_values fd)" using x(2) by (auto simp: declared_fact_def)
  obtain a1 s1 a2 where ev: "evaluate H rules X (d + 1) l st = Inr (a1, s1)" "evaluate H rules X (d + 1) r s1 = Inr (a2, st')"
    "binary_values f a1 a2 s = Inr v"
    using evaluate_step(1) [OF assms(3)] assms(4,5) by (auto simp: evaluateNode_def binary_of_def bindR_eq_Inr)
  have "(rv_value a1 = lit_val u \<and> rv_value a2 = lit_val w) \<or> (rv_value a1 = lit_val w \<and> rv_value a2 = lit_val u)"
    using p probe_values [OF _ ev(1) ev(2) x(1,3)] probe_values [OF _ ev(2) ev(1) x(1,3)] by blast
  then show ?thesis using ev(3) f b strict_eq_facts [OF fd, of w]
    by (auto simp: binary_values_def Let_def split: if_splits)
qed

lemma boolean_of_step:
  assumes "boolean_of (evaluate H rules X d) n st = Inr (a, st')"
  obtains v where "evaluate H rules X d n st = Inr (v, st')" "rv_value v = JBool a"
proof -
  obtain w s0 where w: "evaluate H rules X d n st = Inr (w, s0)" and c: "(case rv_value w of JBool b \<Rightarrow> Inr (b, s0)
      | _ \<Rightarrow> Inl (billing_error Type_code (js ''boolean condition'') (Some (node_start n)))) = Inr (a, st')"
    using assms unfolding boolean_of_def bindR_eq_Inr split_paired_Ex prod.case by blast
  then show thesis using that [of w] by (cases "rv_value w") simp_all
qed

text \<open>A condition that the facts decide has that value wherever its evaluation succeeds.\<close>

lemma known_condition:
  "condition_of C n = Some (Known b) \<Longrightarrow> facts_hold C X \<Longrightarrow> evaluate H rules X d n st = Inr (v, st') \<Longrightarrow> rv_value v = JBool b"
proof (induction n arbitrary: b d st v st')
  case (Literal l i s e)
  then show ?case using evaluate_literal by (auto split: literal.splits)
next
  case (Unary f x s e)
  from Unary.prems(1) obtain z where f: "f = js ''!''" and z: "condition_of C x = Some z" "negate_condition z = Known b"
    by (auto split: if_splits)
  obtain b' where x: "condition_of C x = Some (Known b')" and b: "b = (\<not> b')"
    using z by (cases z) (auto simp: negate_condition_def)
  obtain a s1 where a: "boolean_of (evaluate H rules X (d + 1)) x st = Inr (a, s1)" and v: "v = plain (JBool (\<not> a))"
    using evaluate_step(1) [OF Unary.prems(3)] f by (auto simp: evaluateNode_def bindR_eq_Inr)
  from boolean_of_step [OF a] show ?case using Unary.IH [OF x Unary.prems(2)] b v by auto
next
  case (Binary f l r s e)
  show ?case
  proof (cases "f = js ''&&'' \<or> f = js ''||''")
    case False
    then show ?thesis using Binary.prems known_comparison by auto
  next
    case True
    let ?ev = "evaluate H rules X (d + 1)" and ?short = "f = js ''||''"
    obtain p q where pq: "condition_of C l = Some p" "condition_of C r = Some q" "combine_conditions f p q = Known b"
      using Binary.prems(1) True by (auto split: bind_splits)
    obtain a s1 where a: "boolean_of ?ev l st = Inr (a, s1)"
      and v: "a = ?short \<Longrightarrow> v = plain (JBool ?short)"
        "a \<noteq> ?short \<Longrightarrow> \<exists>c. boolean_of ?ev r s1 = Inr (c, st') \<and> v = plain (JBool c)"
      using evaluate_step(1) [OF Binary.prems(3)] True by (auto simp: evaluateNode_def binary_of_def bindR_eq_Inr split: if_splits)
    obtain w where w: "?ev l st = Inr (w, s1)" "rv_value w = JBool a" using boolean_of_step [OF a] .
    have L: "a = x" if "p = Known x" for x using Binary.IH(1) [OF _ Binary.prems(2) w(1), of x] that pq(1) w(2) by simp
    have R: "c = x" if "q = Known x" "boolean_of ?ev r s1 = Inr (c, st')" for x c
      using boolean_of_step [OF that(2)] Binary.IH(2) [OF _ Binary.prems(2), of x] that(1) pq(2) by (metis jsval.inject(1))
    show ?thesis
    proof (cases "a = ?short")
      case True
      then have "b = ?short" using L pq(3) by (auto simp: combine_conditions_def Let_def split: if_splits DisplayCondition.splits)
      then show ?thesis using v(1) [OF True] by simp
    next
      case False
      then obtain c where c: "boolean_of ?ev r s1 = Inr (c, st')" "v = plain (JBool c)" using v(2) by blast
      have "c = b" using False L R [OF _ c(1)] pq(3)
        by (auto simp: combine_conditions_def Let_def split: if_splits DisplayCondition.splits)
      then show ?thesis using c(2) by simp
    qed
  qed
qed auto

section \<open>Amounts and rows\<close>

definition branch_ok :: "PriceBranch \<Rightarrow> bool" where
  "branch_ok b \<longleftrightarrow> amounts_ok (pb_constant b) (pb_prices b)"

lemma under_ok: "list_all branch_ok bs \<Longrightarrow> list_all branch_ok (under_condition t m bs)"
  by (auto simp: under_condition_def list_all_iff branch_ok_def)

lemma combine_ok: "combine_all f ls rs = Some bs \<Longrightarrow> list_all branch_ok bs"
proof -
  assume "combine_all f ls rs = Some bs"
  then obtain qs where q: "map (\<lambda>(a, b). combine_branches f a b) (List.product ls rs) = map Some qs" "bs = concat qs"
    by (auto simp: combine_all_def mapO_eq_Some split: if_splits)
  have "list_all branch_ok q" if "q \<in> set qs" for q
  proof -
    have "Some q \<in> set (map (\<lambda>(a, b). combine_branches f a b) (List.product ls rs))" unfolding q(1) using that by simp
    then obtain a b where "combine_branches f a b = Some q" by auto
    then show ?thesis by (auto simp: combine_branches_def branch_ok_def split: if_splits bind_splits)
  qed
  then show ?thesis by (auto simp: q(2) list_all_iff)
qed

lemma branches_ok:
  "wf_ast node \<Longrightarrow> taskPriceBranches C node n = Some (bs, n') \<Longrightarrow> list_all branch_ok bs"
proof (induction C node n arbitrary: bs n' rule: taskPriceBranches.induct)
  case (1 C v i s e n)
  then show ?case by (auto simp: wf_ast_iff [of "Literal v i s e"] branch_ok_def plain_branch_def amounts_ok_def
      split: bind_splits literal.splits if_splits)
next
  case (2 C f args s e n)
  from "2.prems"(2) obtain m where m: "spend n = Some m" by (auto split: bind_splits)
  from "2.prems"(2) obtain t i s' e' rest where a: "args = Literal (LStr t) i s' e' # rest"
    by (auto split: bind_splits list.splits ExpressionNode.splits literal.splits)
  show ?case
  proof (cases "f = js ''u''")
    case True
    then show ?thesis using "2.prems"(2)
      by (auto simp: a branch_ok_def plain_branch_def amounts_ok_def zero_num_def one_num_def js_le_def split: bind_splits option.splits if_splits)
  next
    case False
    then obtain body rest' where r: "f = js ''tier''" "rest = body # rest'"
      using "2.prems"(2) by (auto simp: a split: bind_splits list.splits if_splits)
    then obtain cs where cs: "taskPriceBranches C body m = Some (cs, n')" "bs = map (\<lambda>b. b\<lparr>pb_label := Some t\<rparr>) cs"
      using "2.prems"(2) m by (auto simp: a split: bind_splits if_splits)
    have "wf_ast body"
      using "2.prems"(1) unfolding wf_ast_iff [of "Call f args s e"] by (simp add: a r)
    then have "list_all branch_ok cs" using "2.IH" [OF m a refl refl False r _ cs(1)] by blast
    then show ?thesis by (simp add: cs(2) list_all_iff branch_ok_def)
  qed
next
  case (3 C c y m s e n)
  from "3.prems"(2) obtain k d k' where k: "spend n = Some k" "taskDisplayCondition C c k = Some (d, k')"
    by (auto split: bind_splits)
  have w: "wf_ast y" "wf_ast m" using "3.prems"(1) by (simp_all add: wf_ast_iff [of "Conditional c y m s e"])
  show ?case
  proof (cases d)
    case (Known b)
    then show ?thesis using "3.prems"(2) "3.IH"(1) [OF k(1) k(2) refl Known _ w(1)] "3.IH"(2) [OF k(1) k(2) refl Known _ w(2)] k
      by (cases b) simp_all
  next
    case (Described t)
    then obtain ys j ns where b: "taskPriceBranches C y k' = Some (ys, j)" "taskPriceBranches C m j = Some (ns, n')"
      "bs = under_condition t True ys @ under_condition t False ns"
      using "3.prems"(2) k by (auto simp: Let_def split: bind_splits if_splits)
    then show ?thesis using "3.IH"(3) [OF k(1) k(2) refl Described w(1) b(1)]
        "3.IH"(4) [OF k(1) k(2) refl Described b(1) refl w(2) b(2)] under_ok by simp
  qed
next
  case (4 C f l r s e n)
  then show ?case using combine_ok by (auto split: bind_splits if_splits)
qed auto

definition row_valid :: "TaskTier \<Rightarrow> bool" where
  "row_valid t \<longleftrightarrow> isFinite (kt_constant t) \<and> js_le zero_num (kt_constant t) \<and> kt_unitPrices t \<noteq> [] \<and>
     list_all (\<lambda>p. isFinite (snd p)) (kt_unitPrices t)"

lemma branch_tier_valid: "branch_tier schema names facts b = Some t \<Longrightarrow> branch_ok b \<Longrightarrow> row_valid t"
  by (auto simp: branch_tier_def row_valid_def branch_ok_def amounts_ok_def Let_def split: option.splits if_splits)

lemma display_tiers_valid:
  "display_tiers src schema ast names combinations tiers n = Some ts \<Longrightarrow> wf_ast ast \<Longrightarrow> length tiers \<le> 128 \<Longrightarrow>
   list_all row_valid tiers \<Longrightarrow> length ts \<le> 128 \<and> list_all row_valid ts"
proof (induction src schema ast names combinations tiers n rule: display_tiers.induct)
  case (2 src schema ast names facts combinations tiers n)
  from "2.prems"(1) obtain bs k rows where b: "taskPriceBranches \<lparr>dc_source = src, dc_schema = schema, dc_facts = facts\<rparr> ast n = Some (bs, k)"
    "\<not> MAX_DISPLAY_ROWS < length tiers + length bs" "mapO (branch_tier schema names facts) bs = Some rows"
    "display_tiers src schema ast names combinations (tiers @ rows) k = Some ts"
    by (auto split: option.splits if_splits)
  have "length rows = length bs" using mapO_length [OF b(3)] .
  moreover have "list_all row_valid rows"
  proof -
    have "row_valid r" if "r \<in> set rows" for r
    proof -
      have "Some r \<in> set (map (branch_tier schema names facts) bs)" unfolding b(3) [unfolded mapO_eq_Some] using that by simp
      then obtain x where "x \<in> set bs" "branch_tier schema names facts x = Some r" by auto
      then show ?thesis using branches_ok [OF "2.prems"(2) b(1)] branch_tier_valid by (auto simp: list_all_iff)
    qed
    then show ?thesis by (simp add: list_all_iff)
  qed
  ultimately show ?case using "2.IH" [OF b(1) refl b(2,3,4) "2.prems"(2)] b(2) "2.prems"(4) by (simp add: MAX_DISPLAY_ROWS_def)
qed simp

lemma conditional_pricing_valid:
  assumes "readConditionalTaskPricing src schema = Inr (Some ts)"
  shows "length ts \<le> 128 \<and> list_all row_valid ts"
proof -
  obtain c where c: "compile_source src = Ready c"
    using assms by (cases "compile_source src") (auto simp: readConditionalTaskPricing_def conditional_pricing_def)
  then obtain names combinations where "display_tiers src schema (compiled_ast c) names combinations [] 20000 = Some ts"
    using assms by (auto simp: readConditionalTaskPricing_def conditional_pricing_def bindR_eq_Inr split: if_splits option.splits)
  moreover have "wf_ast (compiled_ast c)"
    using c compile_steps_ok(2) parse_wf_ast by (auto simp: compile_source_def split: sum.splits)
  ultimately show ?thesis using display_tiers_valid by fastforce
qed

end
