(* ===== verification/Visual.thy ===== *)
theory Visual
  imports Display_Props JS_JSON
begin

text \<open>
  The visual editor of billing expressions (\<^verbatim>\<open>features/pricing/lib/billing-expression/visual.ts\<close>): reading
  a compiled tree as an editable document, and writing a document as source text that keeps every part
  that was not edited. Where the code compares nodes by identity the model compares nodes with their
  spans. \<open>compileBillingExpression\<close> is \<^const>\<open>compile_source\<close>, which is what its cache returns.
\<close>

section \<open>Documents\<close>

text \<open>Every part carries its \<open>id\<close> and the node it was read from, if any.\<close>

datatype VisualCondition =
    Comparison (vc_id: jsstr) (vc_origin: "ExpressionNode option")
      (vc_probe: jsstr) (vc_timezone: jsstr) (vc_operator: jsstr) (vc_value: jsstr)
  | AllOf (vc_id: jsstr) (vc_origin: "ExpressionNode option") (vc_children: "VisualCondition list")
  | AnyOf (vc_id: jsstr) (vc_origin: "ExpressionNode option") (vc_children: "VisualCondition list")
  | Negated (vc_id: jsstr) (vc_origin: "ExpressionNode option") (vc_child: VisualCondition)

record VisualPrice =
  vp_variable :: jsstr
  vp_value :: jsstr
  vp_displayValue :: "jsstr option"
  vp_origin :: "ExpressionNode option"

datatype VisualPricingNode =
    Tier (vn_id: jsstr) (vn_origin: "ExpressionNode option") (vn_label: jsstr) (vn_prices: "VisualPrice list")
      (vn_unit: BillingUnit) (vn_fixedPrice: jsstr)
  | Branch (vn_id: jsstr) (vn_origin: "ExpressionNode option") (vn_condition: VisualCondition)
      (vn_yes: VisualPricingNode) (vn_no: VisualPricingNode)

record VisualBillingDocument =
  doc_source :: jsstr
  doc_root :: VisualPricingNode

record VisualBillingIssue =
  issue_id :: jsstr
  issue_message :: jsstr

datatype VisualBillingSerialization = Serialized jsstr | Rejected "VisualBillingIssue list"

definition COMPARISONS :: "jsstr list" where
  "COMPARISONS = [js ''<'', js ''<='', js ''>'', js ''>='', js ''=='', js ''!='']"

definition TIME_DOMAINS :: "(jsstr \<times> int \<times> int) list" where
  "TIME_DOMAINS = [(js ''hour'', 0, 23), (js ''minute'', 0, 59), (js ''weekday'', 0, 6), (js ''month'', 1, 12),
     (js ''day'', 1, 31)]"

text \<open>The module counter \<open>nextId\<close> is the state of \<open>visualNodeId\<close>.\<close>

definition visualNodeId :: "int \<Rightarrow> jsstr \<times> int" where
  "visualNodeId nextId = (js ''draft-'' @ string_of_int (nextId + 1), nextId + 1)"

definition createEmptyVisualCondition :: "int \<Rightarrow> VisualCondition \<times> int" where
  "createEmptyVisualCondition nextId =
     (let (i, nextId) = visualNodeId nextId
      in (Comparison i None (js ''hour'') (js ''Asia/Shanghai'') (js ''>='') [], nextId))"

section \<open>Reading\<close>

definition span_id :: "jsstr \<Rightarrow> ExpressionNode \<Rightarrow> jsstr" where
  "span_id kind node =
     kind @ js ''-'' @ string_of_int (int (node_start node)) @ js ''-'' @ string_of_int (int (node_end node))"

definition read_probe :: "ExpressionNode \<Rightarrow> (jsstr \<times> jsstr) option" where
  "read_probe node =
     (case node of
        Variable v _ _ \<Rightarrow> if v \<in> {js ''p'', js ''c'', js ''len''} then Some (v, []) else None
      | Call g (Literal (LStr zone) _ _ _ # _) _ _ \<Rightarrow> if g \<in> set TIME_FUNCTIONS then Some (g, zone) else None
      | _ \<Rightarrow> None)"

definition read_comparison :: "ExpressionNode \<Rightarrow> VisualCondition option" where
  "read_comparison node =
     (case node of
        Binary f l (Literal (LNum x) _ _ _) _ _ \<Rightarrow>
          if f \<notin> set COMPARISONS then None
          else
            (case read_probe l of
               None \<Rightarrow> None
             | Some (probe, timezone) \<Rightarrow>
                 Some (Comparison (span_id (js ''condition'') node) (Some node) probe timezone f (num_to_string x)))
      | _ \<Rightarrow> None)"

lemma size_flattenBinary_less: "m \<in> set (flattenBinary f (Binary f l r s e)) \<Longrightarrow> size m < size (Binary f l r s e)"
  using size_flattenBinary by fastforce

function readVisualCondition :: "ExpressionNode \<Rightarrow> VisualCondition option" where
  "readVisualCondition node =
     (case node of
        Unary f operand _ _ \<Rightarrow>
          if f = js ''!'' then
            map_option (Negated (span_id (js ''condition'') node) (Some node)) (readVisualCondition operand)
          else None
      | Binary f l r s e \<Rightarrow>
          if f = js ''&&'' \<or> f = js ''||'' then
            map_option ((if f = js ''&&'' then AllOf else AnyOf) (span_id (js ''condition'') node) (Some node))
              (mapO readVisualCondition (flattenBinary f (Binary f l r s e)))
          else read_comparison node
      | _ \<Rightarrow> None)"
  by pat_completeness auto
termination
  by (relation "measure size") (use size_flattenBinary_less in auto)

declare readVisualCondition.simps [simp del]

text \<open>\<open>String(value)\<close> of a literal.\<close>

fun literal_text :: "literal \<Rightarrow> jsstr" where
  "literal_text (LStr s) = s"
| "literal_text (LNum x) = num_to_string x"
| "literal_text (LBool b) = (if b then js ''true'' else js ''false'')"
| "literal_text LNull = js ''null''"

fun read_prices :: "ExpressionNode list \<Rightarrow> VisualPrice list \<Rightarrow> VisualPrice list option" where
  "read_prices [] prices = Some prices"
| "read_prices (term # terms) prices =
     (case term of
        Binary f (Variable v _ _) (Literal (LNum x) _ _ _) _ _ \<Rightarrow>
          if f \<noteq> js ''*'' \<or> v = js ''len'' \<or> v = js ''image_count'' \<or> js_lt x zero_num
             \<or> list_ex (\<lambda>p. vp_variable p = v) prices
          then None
          else read_prices terms (prices @ [\<lparr>vp_variable = v, vp_value = num_to_string x,
                 vp_displayValue = None, vp_origin = Some term\<rparr>])
      | _ \<Rightarrow> None)"

definition read_tier :: "ExpressionNode \<Rightarrow> VisualPricingNode option" where
  "read_tier node =
     (case node of
        Call f [Literal (LStr label) _ _ _, body] _ _ \<Rightarrow>
          if f \<noteq> js ''tier'' then None
          else
            (case (case body of
                     Call g (Literal v _ _ _ # _) _ _ \<Rightarrow> if g = js ''fixed'' then Some v else None
                   | _ \<Rightarrow> None) of
               Some v \<Rightarrow> Some (Tier (span_id (js ''pricing'') node) (Some node) label [] Unit_request (literal_text v))
             | None \<Rightarrow>
                 map_option (\<lambda>prices. Tier (span_id (js ''pricing'') node) (Some node) label prices Unit_token [])
                   (read_prices (flattenBinary (js ''+'') body) []))
      | _ \<Rightarrow> None)"

fun readVisualPricing :: "ExpressionNode \<Rightarrow> VisualPricingNode option" where
  "readVisualPricing (Conditional c y n s e) =
     (case (readVisualCondition c, readVisualPricing y, readVisualPricing n) of
        (Some condition, Some yes, Some no) \<Rightarrow>
          Some (Branch (span_id (js ''pricing'') (Conditional c y n s e)) (Some (Conditional c y n s e)) condition yes no)
      | _ \<Rightarrow> None)"
| "readVisualPricing node = read_tier node"

section \<open>Writing\<close>

record patch =
  patch_node :: ExpressionNode
  patch_text :: jsstr

definition apply_patch :: "ExpressionNode \<Rightarrow> patch \<Rightarrow> jsstr \<Rightarrow> jsstr" where
  "apply_patch origin p result =
     js_slice result 0 (int (node_start (patch_node p)) - int (node_start origin)) @ patch_text p @
     js_slice_from result (int (node_end (patch_node p)) - int (node_start origin))"

text \<open>The patches are applied from the last to the first, by a stable sort on the start of their nodes.\<close>

definition patchSource :: "jsstr \<Rightarrow> ExpressionNode \<Rightarrow> patch list \<Rightarrow> jsstr" where
  "patchSource src origin patches =
     fold (apply_patch origin) (sort_key (\<lambda>p. - int (node_start (patch_node p))) patches)
       (slice src (node_start origin) (node_end origin))"

definition node_text :: "jsstr \<Rightarrow> ExpressionNode \<Rightarrow> jsstr" where
  "node_text src node = slice src (node_start node) (node_end node)"

definition parseNonNegativeNumber :: "jsstr \<Rightarrow> jsnum option" where
  "parseNonNegativeNumber s =
     (if trim s = [] \<or> match_number (trim s) \<noteq> trim s then None
      else let x = js_Number s in if isFinite x \<and> js_le zero_num x then Some x else None)"

text \<open>\<open>value === literal\<close> where \<open>value\<close> is a number or null.\<close>

fun same_value :: "jsnum option \<Rightarrow> literal \<Rightarrow> bool" where
  "same_value (Some x) (LNum y) = js_num_eq x y"
| "same_value None LNull = True"
| "same_value _ _ = False"

definition issue :: "jsstr \<Rightarrow> string \<Rightarrow> VisualBillingIssue" where
  "issue i m = \<lparr>issue_id = i, issue_message = js m\<rparr>"

definition zone_of :: "ExpressionNode \<Rightarrow> jsstr option" where
  "zone_of probe = (case probe of Call _ (Literal (LStr z) _ _ _ # _) _ _ \<Rightarrow> Some z | _ \<Rightarrow> None)"

text \<open>Whether the host accepts a time zone for a new condition.\<close>

definition valid_zone :: "host \<Rightarrow> jsstr \<Rightarrow> bool" where
  "valid_zone H timezone \<longleftrightarrow> trim timezone \<noteq> [] \<and> date_time_format H (trim timezone) \<noteq> None"

definition value_valid :: "jsstr \<Rightarrow> jsstr \<Rightarrow> jsnum option \<Rightarrow> bool" where
  "value_valid probe operator v \<longleftrightarrow>
     v \<noteq> None \<and>
     (case map_of TIME_DOMAINS probe of
        Some (lo, hi) \<Rightarrow>
          (case v of
             Some x \<Rightarrow> isInteger x \<and> js_le (num_of_int lo) x \<and>
               js_le x (num_of_int (hi + (if operator = js ''<'' then 1 else 0)))
           | None \<Rightarrow> False)
      | None \<Rightarrow> True)"

text \<open>The issues of a comparison, in the order in which they are reported.\<close>

definition comparison_issues :: "host \<Rightarrow> VisualCondition \<Rightarrow> VisualBillingIssue list" where
  "comparison_issues H node =
     (if value_valid (vc_probe node) (vc_operator node) (parseNonNegativeNumber (vc_value node)) then []
      else [issue (vc_id node) ''Enter a valid condition value.'']) @
     (if vc_probe node \<in> set TIME_FUNCTIONS \<and>
         (case vc_origin node of
            Some (Binary _ l _ _ _) \<Rightarrow> zone_of l \<noteq> Some (vc_timezone node)
          | _ \<Rightarrow> True) \<and>
         \<not> valid_zone H (vc_timezone node)
      then [issue (vc_id node) ''Choose a valid IANA timezone.''] else [])"

definition probe_text :: "VisualCondition \<Rightarrow> jsstr" where
  "probe_text node =
     (if vc_probe node \<in> set TIME_FUNCTIONS
      then vc_probe node @ js ''('' @ json_string (vc_timezone node) @ js '')''
      else vc_probe node)"

text \<open>Whether the probe of the original comparison is still the probe of the condition.\<close>

definition same_probe :: "VisualCondition \<Rightarrow> ExpressionNode \<Rightarrow> bool" where
  "same_probe node old =
     (case old of
        Variable x _ _ \<Rightarrow> x = vc_probe node
      | Call g _ _ _ \<Rightarrow> g = vc_probe node \<and> zone_of old = Some (vc_timezone node)
      | _ \<Rightarrow> False)"

definition write_comparison :: "VisualCondition \<Rightarrow> jsstr \<Rightarrow> jsstr" where
  "write_comparison node src =
     (case vc_origin node of
        Some (Binary f l r s e) \<Rightarrow>
          if f = vc_operator node then
            patchSource src (Binary f l r s e)
              [\<lparr>patch_node = l, patch_text = (if same_probe node l then node_text src l else probe_text node)\<rparr>,
               \<lparr>patch_node = r, patch_text =
                  (case r of
                     Literal v _ _ _ \<Rightarrow>
                       if same_value (parseNonNegativeNumber (vc_value node)) v then node_text src r else vc_value node
                   | _ \<Rightarrow> vc_value node)\<rparr>]
          else js ''('' @ probe_text node @ js '' '' @ vc_operator node @ js '' '' @ vc_value node @ js '')''
      | _ \<Rightarrow> js ''('' @ probe_text node @ js '' '' @ vc_operator node @ js '' '' @ vc_value node @ js '')'')"

definition write_group ::
  "jsstr \<Rightarrow> ExpressionNode option \<Rightarrow> VisualCondition list \<Rightarrow> jsstr \<Rightarrow> jsstr list \<Rightarrow> jsstr" where
  "write_group operator origin kids src texts =
     (let fresh = js ''('' @ join (js '' '' @ operator @ js '' '') (map (\<lambda>t. js ''('' @ t @ js '')'') texts) @ js '')''
      in case origin of
           Some (Binary f l r s e) \<Rightarrow>
             if f = operator \<and> map vc_origin kids = map Some (flattenBinary operator (Binary f l r s e)) then
               patchSource src (Binary f l r s e)
                 (map (\<lambda>(n, t). \<lparr>patch_node = n, patch_text = t\<rparr>)
                   (zip (flattenBinary operator (Binary f l r s e)) texts))
             else fresh
         | _ \<Rightarrow> fresh)"

text \<open>The text of a condition and the issues it reports.\<close>

fun writeVisualCondition :: "host \<Rightarrow> jsstr \<Rightarrow> VisualCondition \<Rightarrow> jsstr \<times> VisualBillingIssue list" where
  "writeVisualCondition H src (Negated i origin child) =
     (let (text, issues) = writeVisualCondition H src child
      in (case origin of
            Some (Unary f operand s e) \<Rightarrow>
              if vc_origin child = Some operand then
                patchSource src (Unary f operand s e) [\<lparr>patch_node = operand, patch_text = text\<rparr>]
              else js ''!('' @ text @ js '')''
          | _ \<Rightarrow> js ''!('' @ text @ js '')'', issues))"
| "writeVisualCondition H src (AllOf i origin kids) =
     (let results = map (writeVisualCondition H src) kids
      in (write_group (js ''&&'') origin kids src (map fst results),
          (if kids = [] then [issue i ''Add at least one condition to this group.''] else []) @
          concat (map snd results)))"
| "writeVisualCondition H src (AnyOf i origin kids) =
     (let results = map (writeVisualCondition H src) kids
      in (write_group (js ''||'') origin kids src (map fst results),
          (if kids = [] then [issue i ''Add at least one condition to this group.''] else []) @
          concat (map snd results)))"
| "writeVisualCondition H src (Comparison i origin probe timezone operator v) =
     (write_comparison (Comparison i origin probe timezone operator v) src,
      comparison_issues H (Comparison i origin probe timezone operator v))"

definition visualConditionExpression :: "host \<Rightarrow> VisualCondition \<Rightarrow> jsstr \<Rightarrow> jsstr option" where
  "visualConditionExpression H node src =
     (case writeVisualCondition H src node of (text, issues) \<Rightarrow> if issues = [] then Some text else None)"

definition label_text :: "jsstr \<Rightarrow> ExpressionNode \<Rightarrow> jsstr \<Rightarrow> jsstr" where
  "label_text src node label =
     (case node of
        Literal (LStr l) _ _ _ \<Rightarrow> if l = label then node_text src node else json_string label
      | _ \<Rightarrow> json_string label)"

definition fixed_text :: "jsstr \<Rightarrow> ExpressionNode \<Rightarrow> jsstr \<Rightarrow> jsnum option \<Rightarrow> jsstr" where
  "fixed_text src price fixedPrice v =
     (case price of
        Call g (Literal amount i a b # _) _ _ \<Rightarrow>
          if g = js ''fixed'' then
            patchSource src price [\<lparr>patch_node = Literal amount i a b,
              patch_text = (if same_value v amount then slice src a b else fixedPrice)\<rparr>]
          else js ''fixed('' @ fixedPrice @ js '')''
      | _ \<Rightarrow> js ''fixed('' @ fixedPrice @ js '')'')"

definition write_fixed ::
  "jsstr \<Rightarrow> jsstr \<Rightarrow> ExpressionNode option \<Rightarrow> jsstr \<Rightarrow> jsstr \<Rightarrow> jsstr \<times> VisualBillingIssue list" where
  "write_fixed src i origin label fixedPrice =
     (let v = parseNonNegativeNumber fixedPrice;
          issues = (case v of
                      Some x \<Rightarrow> if isFinite (js_mul x (Fin False 1000000)) then [] 
                               else [issue (i @ js '':fixed'') ''Enter a finite, non-negative price.'']
                    | None \<Rightarrow> [issue (i @ js '':fixed'') ''Enter a finite, non-negative price.'']);
          fresh = js ''tier('' @ json_string label @ js '', fixed('' @ fixedPrice @ js ''))''
      in (case origin of
            Some (Call f [old, price] s e) \<Rightarrow>
              if f = js ''tier'' then
                patchSource src (Call f [old, price] s e)
                  [\<lparr>patch_node = old, patch_text = label_text src old label\<rparr>,
                   \<lparr>patch_node = price, patch_text = fixed_text src price fixedPrice v\<rparr>]
              else fresh
          | _ \<Rightarrow> fresh, issues))"

text \<open>One price: its term, the patch of its value, and its issues.\<close>

definition price_value :: "bool \<Rightarrow> VisualPrice \<Rightarrow> jsstr" where
  "price_value displayPrices p =
     (case (vp_variable p = js ''cr'' \<and> displayPrices, vp_displayValue p) of
        (True, Some d) \<Rightarrow> if d \<noteq> [] then d else vp_value p
      | _ \<Rightarrow> vp_value p)"

definition price_issues :: "bool \<Rightarrow> jsstr \<Rightarrow> VisualPrice \<Rightarrow> VisualBillingIssue list" where
  "price_issues displayPrices i p =
     (case (vp_variable p = js ''cr'', vp_displayValue p) of
        (True, Some d) \<Rightarrow>
          if d \<noteq> [] \<and> parseNonNegativeNumber d = None
          then [issue (i @ js '':cr-display'') ''Enter a finite, non-negative price.''] else []
      | _ \<Rightarrow> []) @
     (if parseNonNegativeNumber (price_value displayPrices p) = None
      then [issue (i @ js '':'' @ vp_variable p) ''Enter a finite, non-negative price.''] else [])"

definition price_patch :: "jsstr \<Rightarrow> bool \<Rightarrow> VisualPrice \<Rightarrow> patch option" where
  "price_patch src displayPrices p =
     (case vp_origin p of
        Some (Binary _ _ (Literal v i a b) _ _) \<Rightarrow>
          Some \<lparr>patch_node = Literal v i a b,
                patch_text = (if same_value (parseNonNegativeNumber (price_value displayPrices p)) v
                              then slice src a b else price_value displayPrices p)\<rparr>
      | _ \<Rightarrow> None)"

definition price_term_text :: "jsstr \<Rightarrow> bool \<Rightarrow> VisualPrice \<Rightarrow> jsstr" where
  "price_term_text src displayPrices p =
     (case (price_patch src displayPrices p, vp_origin p) of
        (Some patch, Some origin) \<Rightarrow> patchSource src origin [patch]
      | _ \<Rightarrow> vp_variable p @ js '' * '' @ price_value displayPrices p)"

definition write_prices ::
  "jsstr \<Rightarrow> bool \<Rightarrow> jsstr \<Rightarrow> ExpressionNode option \<Rightarrow> jsstr \<Rightarrow> VisualPrice list \<Rightarrow> jsstr \<times> VisualBillingIssue list" where
  "write_prices src displayPrices i origin label prices =
     (let issues = (if prices = [] then [issue i ''Include at least one price variable.''] else []) @
            concat (map (price_issues displayPrices i) prices);
          terms = map (price_term_text src displayPrices) prices;
          patches = concat (map (\<lambda>p. case price_patch src displayPrices p of Some q \<Rightarrow> [q] | None \<Rightarrow> []) prices);
          fresh = js ''tier('' @ json_string label @ js '', '' @ join (js '' + '') terms @ js '')''
      in (case origin of
            Some (Call f [old, body] s e) \<Rightarrow>
              if f = js ''tier'' then
                (if map vp_origin prices = map Some (flattenBinary (js ''+'') body)
                 then patchSource src (Call f [old, body] s e)
                        (\<lparr>patch_node = old, patch_text = label_text src old label\<rparr> # patches)
                 else patchSource src (Call f [old, body] s e)
                        [\<lparr>patch_node = old, patch_text = label_text src old label\<rparr>,
                         \<lparr>patch_node = body, patch_text = join (js '' + '') terms\<rparr>])
              else fresh
          | _ \<Rightarrow> fresh, issues))"

fun writeVisualPricing :: "host \<Rightarrow> jsstr \<Rightarrow> bool \<Rightarrow> VisualPricingNode \<Rightarrow> jsstr \<times> VisualBillingIssue list" where
  "writeVisualPricing H src displayPrices (Branch i origin condition yes no) =
     (let (c, cis) = writeVisualCondition H src condition;
          (y, yis) = writeVisualPricing H src displayPrices yes;
          (n, nis) = writeVisualPricing H src displayPrices no
      in (case origin of
            Some (Conditional c' y' n' s e) \<Rightarrow>
              patchSource src (Conditional c' y' n' s e)
                [\<lparr>patch_node = c', patch_text = c\<rparr>, \<lparr>patch_node = y', patch_text = y\<rparr>,
                 \<lparr>patch_node = n', patch_text = n\<rparr>]
          | _ \<Rightarrow> js ''('' @ c @ js '') ? ('' @ y @ js '') : ('' @ n @ js '')'', cis @ yis @ nis))"
| "writeVisualPricing H src displayPrices (Tier i origin label prices unit fixedPrice) =
     (if unit = Unit_request then write_fixed src i origin label fixedPrice
      else write_prices src displayPrices i origin label prices)"

definition serializeVisualBillingDocument ::
  "host \<Rightarrow> VisualBillingDocument \<Rightarrow> bool \<Rightarrow> VisualBillingSerialization" where
  "serializeVisualBillingDocument H doc displayPrices =
     (case writeVisualPricing H (doc_source doc) displayPrices (doc_root doc) of
        (body, issues) \<Rightarrow>
          if issues \<noteq> [] then Rejected issues
          else
            (case compile_source (doc_source doc) of
               Failed _ \<Rightarrow>
                 Rejected [issue (vn_id (doc_root doc))
                   ''This expression cannot be edited visually without losing information.'']
             | Ready original \<Rightarrow>
                 (let src = take (node_start (compiled_ast original)) (doc_source doc) @ body @
                            drop (node_end (compiled_ast original)) (doc_source doc)
                  in case compile_source src of
                       Failed _ \<Rightarrow> Rejected [issue (vn_id (doc_root doc)) ''Enter a valid condition value.'']
                     | Ready _ \<Rightarrow> Serialized src)))"

section \<open>Documents with display prices\<close>

text \<open>
  The replacer of \<open>JSON.stringify\<close> leaves out ids and origins. Two conditions have the same text exactly
  when they agree after that.
\<close>

fun anonymous :: "VisualCondition \<Rightarrow> VisualCondition" where
  "anonymous (Comparison _ _ p z f v) = Comparison [] None p z f v"
| "anonymous (AllOf _ _ cs) = AllOf [] None (map anonymous cs)"
| "anonymous (AnyOf _ _ cs) = AnyOf [] None (map anonymous cs)"
| "anonymous (Negated _ _ c) = Negated [] None (anonymous c)"

definition same_condition :: "VisualCondition \<Rightarrow> VisualCondition \<Rightarrow> bool" where
  "same_condition c d \<longleftrightarrow> anonymous c = anonymous d"

definition align_price :: "VisualPrice \<times> VisualPrice \<Rightarrow> VisualPrice option" where
  "align_price pair =
     (case pair of (price, shown) \<Rightarrow>
        if vp_variable price \<noteq> vp_variable shown then None
        else if vp_value price = vp_value shown then Some price
        else if vp_variable price \<noteq> js ''cr'' then None
        else Some (price\<lparr>vp_displayValue := Some (vp_value shown)\<rparr>))"

text \<open>
  The loop that walks both documents in step and notes the displayed prices. It visits every pair of
  nodes unless it returns null, and each visit changes its own node only, so the order does not matter.
\<close>

fun align :: "VisualPricingNode \<Rightarrow> VisualPricingNode \<Rightarrow> VisualPricingNode option" where
  "align (Branch i origin c y n) (Branch _ _ c' y' n') =
     (if \<not> same_condition c c' then None
      else case (align y y', align n n') of
             (Some yes, Some no) \<Rightarrow> Some (Branch i origin c yes no)
           | _ \<Rightarrow> None)"
| "align (Tier i origin label prices unit fixedPrice) (Tier _ _ label' prices' unit' fixedPrice') =
     (if label \<noteq> label' \<or> unit \<noteq> unit' \<or> fixedPrice \<noteq> fixedPrice' \<or> length prices \<noteq> length prices' then None
      else map_option (\<lambda>ps. Tier i origin label ps unit fixedPrice) (mapO align_price (zip prices prices')))"
| "align _ _ = None"

definition read_document :: "jsstr \<Rightarrow> VisualBillingDocument option" where
  "read_document src =
     (case compile_source src of
        Failed _ \<Rightarrow> None
      | Ready compiled \<Rightarrow>
          map_option (\<lambda>root. \<lparr>doc_source = src, doc_root = root\<rparr>) (readVisualPricing (compiled_ast compiled)))"

definition accept :: "host \<Rightarrow> VisualBillingDocument option \<Rightarrow> VisualBillingDocument option" where
  "accept H doc =
     (case doc of
        None \<Rightarrow> None
      | Some d \<Rightarrow>
          (case serializeVisualBillingDocument H d False of Serialized _ \<Rightarrow> Some d | Rejected _ \<Rightarrow> None))"

definition parseVisualBillingDocument :: "host \<Rightarrow> jsstr \<Rightarrow> jsstr \<Rightarrow> VisualBillingDocument option" where
  "parseVisualBillingDocument H src displaySource =
     (case read_document src of
        None \<Rightarrow> None
      | Some doc \<Rightarrow>
          if displaySource = [] then accept H (Some doc)
          else
            (case accept H (read_document displaySource) of
               None \<Rightarrow> None
             | Some display \<Rightarrow>
                 accept H (map_option (\<lambda>root. doc\<lparr>doc_root := root\<rparr>) (align (doc_root doc) (doc_root display)))))"

end
