(* ===== verification/Visual_Props.thy ===== *)
theory Visual_Props
  imports Visual JS_Roundtrip
begin

text \<open>
  A document that was read and not edited is written back as the very same source text: every part of
  it is patched with its own text. What is displayed for cached prices does not change that.
\<close>

section \<open>Patching with the same text\<close>

definition inside :: "ExpressionNode \<Rightarrow> ExpressionNode \<Rightarrow> bool" where
  "inside n outer \<longleftrightarrow> node_start outer \<le> node_start n \<and> node_start n \<le> node_end n \<and> node_end n \<le> node_end outer"

definition well_placed :: "jsstr \<Rightarrow> ExpressionNode \<Rightarrow> bool" where
  "well_placed src n \<longleftrightarrow> wf_ast n \<and> spans_ok n \<and> node_end n \<le> length src \<and> (\<exists>t. type_of n = Inr t)"

lemma type_of_child:
  assumes "type_of n = Inr t" "c \<in> set (children n)"
  shows "\<exists>u. type_of c = Inr u"
proof -
  obtain ts where ts: "map type_of (children n) = map Inr ts"
    using assms(1) by (subst (asm) type_of.simps) (auto simp: bindR_eq_Inr mapR_Inr_map)
  have "type_of c \<in> set (map type_of (children n))" using assms(2) by simp
  then show ?thesis unfolding ts by auto
qed

lemma fixed_number:
  assumes "type_of (Call (js ''fixed'') (Literal v i a b # rest) s e) = Inr t"
  shows "\<exists>x. v = LNum x"
proof -
  have "type_of (Literal v i a b) = Inr (literal_type v)" by (simp add: type_of.simps [of "Literal v i a b"] node_type_def)
  then show ?thesis using assms
    by (subst (asm) type_of.simps) (cases v; auto simp: bindR_eq_Inr node_type_def call_type_def requireType_def TIME_FUNCTIONS_def split: if_splits)
qed

lemma well_placed_child:
  assumes "well_placed src n" "c \<in> set (children n)"
  shows "well_placed src c" "inside c n"
proof -
  have "spans_node n" "spans_ok c" "wf_ast c"
    using assms wf_ast_iff [of n] spans_ok_iff [of n] by (auto simp: well_placed_def)
  then have "node_start n \<le> node_start c \<and> node_start c < node_end c \<and> node_end c \<le> node_end n"
    using laid_out_mem assms(2) by (auto simp: spans_node_def)
  moreover have "\<exists>u. type_of c = Inr u" using assms type_of_child by (auto simp: well_placed_def)
  ultimately show "well_placed src c" "inside c n"
    using assms(1) \<open>spans_ok c\<close> \<open>wf_ast c\<close> by (auto simp: well_placed_def inside_def)
qed

lemma inside_trans: "inside a b \<Longrightarrow> inside b c \<Longrightarrow> inside a c"
  by (auto simp: inside_def)

lemma inside_self: "well_placed src n \<Longrightarrow> inside n n"
  using spans_ok_start_end by (auto simp: well_placed_def inside_def intro: less_imp_le)

lemma flattenBinary_placed:
  "well_placed src n \<Longrightarrow> m \<in> set (flattenBinary f n) \<Longrightarrow> well_placed src m \<and> inside m n"
proof (induction f n rule: flattenBinary.induct)
  case (1 f g l r s e)
  show ?case
  proof (cases "g = f")
    case True
    have "well_placed src l" "well_placed src r" "inside l (Binary g l r s e)" "inside r (Binary g l r s e)"
      using well_placed_child [OF "1.prems"(1)] by simp_all
    then show ?thesis using 1 True by (auto intro: inside_trans)
  next
    case False
    then show ?thesis using "1.prems" inside_self by auto
  qed
qed (auto intro: inside_self)

lemma slice_split:
  "a \<le> b \<Longrightarrow> b \<le> c \<Longrightarrow> c \<le> d \<Longrightarrow> slice s a d = slice s a b @ slice s b c @ slice s c d"
  by (metis (no_types, lifting) order_trans slice_append)

lemma apply_patch_same:
  assumes "inside (patch_node p) outer" "patch_text p = node_text src (patch_node p)" "node_end outer \<le> length src"
  shows "apply_patch outer p (node_text src outer) = node_text src outer"
proof -
  define a b c d where abcd: "a = node_start outer" "b = node_start (patch_node p)" "c = node_end (patch_node p)" "d = node_end outer"
  have le: "a \<le> b" "b \<le> c" "c \<le> d" "d \<le> length src" using assms(1,3) by (simp_all add: inside_def abcd)
  let ?r = "slice src a d"
  have len: "length ?r = d - a" using le by (simp add: length_slice)
  have "js_slice ?r 0 (int (b - a)) = slice ?r 0 (b - a)" using js_slice_nat [of 0 ?r "b - a"] len le by simp
  moreover have "slice ?r 0 (b - a) = slice src a b" using slice_slice [of a a b d src] le by simp
  moreover have "drop (c - a) ?r = slice src c d"
    using slice_slice [of a c d d src] le len by (simp add: slice_def)
  ultimately have "js_slice ?r 0 (int b - int a) @ slice src b c @ js_slice_from ?r (int c - int a) = ?r"
    using js_slice_from_nat [of ?r "c - a"] slice_split [of a b c d src] le by (simp add: of_nat_diff)
  then show ?thesis using assms(2) by (simp add: apply_patch_def node_text_def abcd)
qed

lemma patchSource_same:
  assumes "\<And>p. p \<in> set patches \<Longrightarrow> inside (patch_node p) outer \<and> patch_text p = node_text src (patch_node p)"
    "node_end outer \<le> length src"
  shows "patchSource src outer patches = node_text src outer"
proof -
  have "fold (apply_patch outer) ps (node_text src outer) = node_text src outer"
    if "\<forall>p \<in> set ps. inside (patch_node p) outer \<and> patch_text p = node_text src (patch_node p)" for ps
    using that by (induction ps) (simp_all add: apply_patch_same [OF _ _ assms(2)])
  then show ?thesis using assms(1) by (simp add: patchSource_def node_text_def)
qed

section \<open>Conditions\<close>

lemma number_literal_reads:
  assumes "wf_literal (LNum x) i"
  shows "parseNonNegativeNumber (num_to_string x) = Some x" "same_value (Some x) (LNum x)"
proof -
  obtain q where q: "0 \<le> q" "x = mk_num False q" "isFinite x" using assms by auto
  then obtain m where m: "x = Fin False m" "wf_num (Fin False m)" using wf_mk_num by metis
  then have "js_le zero_num x" by (simp add: js_le_def zero_num_def)
  then show "parseNonNegativeNumber (num_to_string x) = Some x"
    using number_roundtrip [OF m(2)] by (simp add: parseNonNegativeNumber_def m(1))
  show "same_value (Some x) (LNum x)" by (simp add: m(1))
qed

lemma read_probe_same: "read_probe l = Some (p, z) \<Longrightarrow> same_probe (Comparison i org p z f v) l"
  by (auto simp: read_probe_def same_probe_def zone_of_def split: ExpressionNode.splits list.splits literal.splits if_splits)

lemma read_comparison_same:
  assumes "read_comparison n = Some c" "well_placed src n"
  shows "write_comparison c src = node_text src n" "\<exists>i p z f v. c = Comparison i (Some n) p z f v"
proof -
  obtain f l x i a b s e where n: "n = Binary f l (Literal (LNum x) i a b) s e"
    using assms(1) by (auto simp: read_comparison_def split: ExpressionNode.splits literal.splits)
  obtain p z where c: "c = Comparison (span_id (js ''condition'') n) (Some n) p z f (num_to_string x)" "read_probe l = Some (p, z)"
    using assms(1) n by (auto simp: read_comparison_def split: option.splits if_splits)
  show "\<exists>i p z f v. c = Comparison i (Some n) p z f v" using c(1) by blast
  have "wf_literal (LNum x) i" using assms(2) n by (auto simp: well_placed_def node_invariants wf_ast_iff [of "Literal v j u w" for v j u w])
  note num = number_literal_reads [OF this]
  have "inside l n" "inside (Literal (LNum x) i a b) n" using well_placed_child(2) [OF assms(2)] n by simp_all
  then have "patchSource src n [\<lparr>patch_node = l, patch_text = node_text src l\<rparr>,
      \<lparr>patch_node = Literal (LNum x) i a b, patch_text = node_text src (Literal (LNum x) i a b)\<rparr>] = node_text src n"
    using assms(2) by (intro patchSource_same) (auto simp: well_placed_def)
  then show "write_comparison c src = node_text src n"
    using read_probe_same [OF c(2)] num unfolding c(1) write_comparison_def n by simp
qed

lemma write_group_same:
  assumes "map vc_origin kids = map Some (flattenBinary f n)" "n = Binary f l r s e" "well_placed src n"
    "texts = map (node_text src) (flattenBinary f n)"
  shows "write_group f (Some n) kids src texts = node_text src n"
proof -
  have "patchSource src n (map (\<lambda>(m, t). \<lparr>patch_node = m, patch_text = t\<rparr>) (zip (flattenBinary f n) texts)) = node_text src n"
    unfolding assms(4) using assms(3) flattenBinary_placed [OF assms(3)]
    by (intro patchSource_same) (auto simp: well_placed_def zip_map2 zip_same_conv_map)
  then show ?thesis using assms(1,2) by (simp add: write_group_def Let_def)
qed

lemma mapO_list_all2:
  "(\<And>x y. x \<in> set xs \<Longrightarrow> f x = Some y \<Longrightarrow> P x y) \<Longrightarrow> mapO f xs = Some ys \<Longrightarrow> list_all2 P xs ys"
  by (induction xs arbitrary: ys) (auto split: option.splits)

text \<open>A condition that was read keeps its node, and is written as the text of the node.\<close>

definition writes_back :: "host \<Rightarrow> jsstr \<Rightarrow> ExpressionNode \<Rightarrow> VisualCondition \<Rightarrow> bool" where
  "writes_back H src n c \<longleftrightarrow> vc_origin c = Some n \<and> fst (writeVisualCondition H src c) = node_text src n"

lemma read_condition_same:
  "readVisualCondition n = Some c \<Longrightarrow> well_placed src n \<Longrightarrow> writes_back H src n c"
proof (induction n arbitrary: c rule: readVisualCondition.induct)
  case (1 n)
  show ?case
  proof (cases n)
    case (Unary f x s e)
    then obtain d where d: "f = js ''!''" "readVisualCondition x = Some d" "c = Negated (span_id (js ''condition'') n) (Some n) d"
      using "1.prems"(1) by (subst (asm) readVisualCondition.simps) (auto split: if_splits)
    have x: "well_placed src x" "inside x n" using well_placed_child [OF "1.prems"(2)] Unary by simp_all
    have "writes_back H src x d" using "1.IH"(1) [OF Unary d(1,2) x(1)] .
    moreover have "patchSource src n [\<lparr>patch_node = x, patch_text = node_text src x\<rparr>] = node_text src n"
      using x "1.prems"(2) by (intro patchSource_same) (auto simp: well_placed_def)
    ultimately show ?thesis using d Unary by (auto simp: writes_back_def split: prod.splits)
  next
    case (Binary f l r s e)
    show ?thesis
    proof (cases "f = js ''&&'' \<or> f = js ''||''")
      case True
      obtain cs where cs: "mapO readVisualCondition (flattenBinary f n) = Some cs"
        "c = (if f = js ''&&'' then AllOf else AnyOf) (span_id (js ''condition'') n) (Some n) cs"
        using "1.prems"(1) Binary True by (subst (asm) readVisualCondition.simps) auto
      have "writes_back H src m d" if "m \<in> set (flattenBinary f n)" "readVisualCondition m = Some d" for m d
        using "1.IH"(2) [OF Binary True _ that(2)] that(1) Binary flattenBinary_placed [OF "1.prems"(2) that(1)] by blast
      then have each: "list_all2 (writes_back H src) (flattenBinary f n) cs" using cs(1) by (rule mapO_list_all2)
      then have kids: "map vc_origin cs = map Some (flattenBinary f n)"
        "map (fst \<circ> writeVisualCondition H src) cs = map (node_text src) (flattenBinary f n)"
        by (induction rule: list_all2_induct) (simp_all add: writes_back_def)
      have "write_group f (Some n) cs src (map (fst \<circ> writeVisualCondition H src) cs) = node_text src n"
        using write_group_same [OF kids(1) Binary "1.prems"(2) kids(2)] .
      then show ?thesis using cs(2) True by (auto simp: writes_back_def Let_def comp_def)
    next
      case False
      then have "read_comparison n = Some c" using "1.prems"(1) Binary by (subst (asm) readVisualCondition.simps) simp
      from read_comparison_same [OF this "1.prems"(2)] show ?thesis by (auto simp: writes_back_def)
    qed
  qed (use "1.prems"(1) in \<open>subst (asm) readVisualCondition.simps, simp\<close>)+
qed

section \<open>Prices\<close>

lemma wf_literal_number: "well_placed src (Literal (LNum x) i a b) \<Longrightarrow> wf_literal (LNum x) i"
  by (simp add: well_placed_def wf_ast_iff [of "Literal v j u w" for v j u w])

text \<open>A price read from a term: its value is patched with its own text, whatever is displayed for it.\<close>

definition price_kept :: "jsstr \<Rightarrow> ExpressionNode \<Rightarrow> VisualPrice \<Rightarrow> bool" where
  "price_kept src term p \<longleftrightarrow> vp_origin p = Some term \<and>
     (\<exists>f l x i a b s e. term = Binary f l (Literal (LNum x) i a b) s e \<and> wf_literal (LNum x) i \<and> vp_value p = num_to_string x)"

lemma read_prices_kept:
  "read_prices terms ps = Some qs \<Longrightarrow> \<forall>n \<in> set terms. well_placed src n \<Longrightarrow>
     \<exists>rs. qs = ps @ rs \<and> list_all2 (price_kept src) terms rs \<and> (\<forall>r \<in> set rs. vp_displayValue r = None)"
proof (induction terms arbitrary: ps)
  case (Cons n ns)
  obtain f v u w x i a b s e where n: "n = Binary f (Variable v u w) (Literal (LNum x) i a b) s e"
    using Cons.prems(1) by (auto split: ExpressionNode.splits literal.splits)
  let ?p = "\<lparr>vp_variable = v, vp_value = num_to_string x, vp_displayValue = None, vp_origin = Some n\<rparr>"
  have rest: "read_prices ns (ps @ [?p]) = Some qs" using Cons.prems(1) n by (auto split: if_splits)
  have "well_placed src (Literal (LNum x) i a b)"
    using Cons.prems(2) n well_placed_child(1) [of src n "Literal (LNum x) i a b"] by simp
  then have "price_kept src n ?p" using n by (auto simp: price_kept_def dest: wf_literal_number)
  then show ?case using Cons.IH [OF rest] Cons.prems(2) by fastforce
qed simp

lemma price_patch_kept:
  assumes "price_kept src n p"
  obtains m where "price_patch src False p = Some \<lparr>patch_node = m, patch_text = node_text src m\<rparr>" "m \<in> set (children n)"
proof -
  obtain f l x i a b s e where n: "vp_origin p = Some n" "n = Binary f l (Literal (LNum x) i a b) s e"
    "wf_literal (LNum x) i" "vp_value p = num_to_string x" using assms unfolding price_kept_def by blast
  have "price_value False p = num_to_string x" by (simp add: price_value_def n(4))
  then have "price_patch src False p = Some \<lparr>patch_node = Literal (LNum x) i a b, patch_text = node_text src (Literal (LNum x) i a b)\<rparr>"
    using n number_literal_reads [OF n(3)] by (simp add: price_patch_def node_text_def)
  then show ?thesis using that n(2) by simp
qed

lemma write_prices_same:
  assumes "list_all2 (price_kept src) (flattenBinary (js ''+'') body) ps" "n = Call (js ''tier'') [Literal (LStr label) i a b, body] s e"
    "well_placed src n"
  shows "fst (write_prices src False k (Some n) label ps) = node_text src n"
proof -
  let ?label = "Literal (LStr label) i a b"
  have body: "well_placed src body" "inside body n" and lab: "inside ?label n"
    using well_placed_child [OF assms(3)] assms(2) by simp_all
  have org: "map vp_origin ps = map Some (flattenBinary (js ''+'') body)"
    using assms(1) by (induction rule: list_all2_induct) (auto simp: price_kept_def)
  let ?patches = "concat (map (\<lambda>p. case price_patch src False p of Some q \<Rightarrow> [q] | None \<Rightarrow> []) ps)"
  have "inside (patch_node q) n \<and> patch_text q = node_text src (patch_node q)" if q: "q \<in> set ?patches" for q
  proof -
    obtain p where p: "p \<in> set ps" "price_patch src False p = Some q" using q by (auto split: option.splits)
    then obtain m where m: "m \<in> set (flattenBinary (js ''+'') body)" "price_kept src m p"
      using assms(1) by (metis in_set_conv_nth list_all2_conv_all_nth)
    then obtain c where c: "q = \<lparr>patch_node = c, patch_text = node_text src c\<rparr>" "c \<in> set (children m)"
      using p(2) price_patch_kept [OF m(2)] by (metis option.inject)
    have "inside c m" "inside m body" using flattenBinary_placed [OF body(1) m(1)] well_placed_child(2) c(2) by blast+
    then show ?thesis using c(1) body(2) inside_trans by fastforce
  qed
  then have "patchSource src n (\<lparr>patch_node = ?label, patch_text = label_text src ?label label\<rparr> # ?patches) = node_text src n"
    using lab assms(3) by (intro patchSource_same) (auto simp: well_placed_def label_text_def)
  then show ?thesis using org assms(2) by (simp add: write_prices_def Let_def)
qed

lemma write_fixed_same:
  assumes "n = Call (js ''tier'') [Literal (LStr label) i a b, Call (js ''fixed'') (Literal v j c d # rest) s e] s' e'"
    "well_placed src n"
  shows "fst (write_fixed src k (Some n) label (literal_text v)) = node_text src n"
proof -
  let ?label = "Literal (LStr label) i a b" and ?price = "Call (js ''fixed'') (Literal v j c d # rest) s e"
  have price: "well_placed src ?price" "inside ?price n" and lab: "inside ?label n"
    using well_placed_child [OF assms(2)] assms(1) by simp_all
  obtain x where x: "v = LNum x" using price(1) fixed_number by (fastforce simp: well_placed_def)
  have amount: "well_placed src (Literal v j c d)" "inside (Literal v j c d) ?price"
    using well_placed_child [OF price(1)] by simp_all
  have "patchSource src ?price [\<lparr>patch_node = Literal v j c d, patch_text = node_text src (Literal v j c d)\<rparr>]
      = node_text src ?price"
    using amount(2) price(1) by (intro patchSource_same) (auto simp: well_placed_def)
  then have "fixed_text src ?price (literal_text v) (parseNonNegativeNumber (literal_text v)) = node_text src ?price"
    using number_literal_reads [OF wf_literal_number] amount(1) x by (simp add: fixed_text_def node_text_def)
  then have "patchSource src n [\<lparr>patch_node = ?label, patch_text = label_text src ?label label\<rparr>,
      \<lparr>patch_node = ?price, patch_text = fixed_text src ?price (literal_text v) (parseNonNegativeNumber (literal_text v))\<rparr>]
    = node_text src n"
    using lab price assms(2) by (intro patchSource_same) (auto simp: well_placed_def label_text_def)
  then show ?thesis using assms(1) by (simp add: write_fixed_def Let_def)
qed

section \<open>Documents\<close>

lemma read_tier_same:
  assumes "read_tier n = Some t" "well_placed src n"
  shows "fst (writeVisualPricing H src False t) = node_text src n"
proof -
  obtain label i a b body s e where n: "n = Call (js ''tier'') [Literal (LStr label) i a b, body] s e"
    using assms(1) by (auto simp: read_tier_def split: ExpressionNode.splits list.splits literal.splits if_splits)
  let ?fixed = "case body of Call g (Literal v _ _ _ # _) _ _ \<Rightarrow> if g = js ''fixed'' then Some v else None | _ \<Rightarrow> None"
  show ?thesis
  proof (cases ?fixed)
    case None
    then obtain ps where ps: "read_prices (flattenBinary (js ''+'') body) [] = Some ps"
      "t = Tier (span_id (js ''pricing'') n) (Some n) label ps Unit_token []"
      using assms(1) by (auto simp: read_tier_def n)
    have "well_placed src body" using well_placed_child(1) [OF assms(2)] n by simp
    then have "\<forall>m \<in> set (flattenBinary (js ''+'') body). well_placed src m" using flattenBinary_placed by blast
    then have "list_all2 (price_kept src) (flattenBinary (js ''+'') body) ps" using read_prices_kept [OF ps(1)] by auto
    then show ?thesis using write_prices_same [OF _ n assms(2)] ps(2) by simp
  next
    case (Some v)
    then obtain j c d rest s' e' where "body = Call (js ''fixed'') (Literal v j c d # rest) s' e'"
      by (auto split: ExpressionNode.splits list.splits if_splits)
    moreover have "t = Tier (span_id (js ''pricing'') n) (Some n) label [] Unit_request (literal_text v)"
      using assms(1) Some by (simp add: read_tier_def n)
    ultimately show ?thesis using write_fixed_same n assms(2) by simp
  qed
qed

lemma read_pricing_same:
  "readVisualPricing n = Some t \<Longrightarrow> well_placed src n \<Longrightarrow> fst (writeVisualPricing H src False t) = node_text src n"
proof (induction n arbitrary: t rule: readVisualPricing.induct)
  case (1 c y m s e)
  let ?n = "Conditional c y m s e"
  obtain cond yes no where r: "readVisualCondition c = Some cond" "readVisualPricing y = Some yes" "readVisualPricing m = Some no"
    "t = Branch (span_id (js ''pricing'') ?n) (Some ?n) cond yes no"
    using "1.prems"(1) by (auto split: option.splits)
  have p: "well_placed src c" "well_placed src y" "well_placed src m" "inside c ?n" "inside y ?n" "inside m ?n"
    using well_placed_child [OF "1.prems"(2)] by simp_all
  have "patchSource src ?n [\<lparr>patch_node = c, patch_text = node_text src c\<rparr>, \<lparr>patch_node = y, patch_text = node_text src y\<rparr>,
      \<lparr>patch_node = m, patch_text = node_text src m\<rparr>] = node_text src ?n"
    using p "1.prems"(2) by (intro patchSource_same) (auto simp: well_placed_def)
  moreover have "fst (writeVisualCondition H src cond) = node_text src c"
    using read_condition_same [OF r(1) p(1)] by (simp add: writes_back_def)
  moreover note "1.IH"(1) [OF r(2) p(2)] "1.IH"(2) [OF r(3) p(3)]
  ultimately show ?case using r(4)
    by (cases "writeVisualCondition H src cond"; cases "writeVisualPricing H src False yes";
        cases "writeVisualPricing H src False no") simp
qed (simp_all add: read_tier_same)

text \<open>Noting displayed prices does not change what is written.\<close>

lemma price_text_display:
  "price_patch src False (p\<lparr>vp_displayValue := d\<rparr>) = price_patch src False p"
  "price_term_text src False (p\<lparr>vp_displayValue := d\<rparr>) = price_term_text src False p"
proof -
  have v: "price_value False (p\<lparr>vp_displayValue := d\<rparr>) = price_value False p" by (simp add: price_value_def)
  have f: "vp_origin (p\<lparr>vp_displayValue := d\<rparr>) = vp_origin p" "vp_variable (p\<lparr>vp_displayValue := d\<rparr>) = vp_variable p" by simp_all
  show patch: "price_patch src False (p\<lparr>vp_displayValue := d\<rparr>) = price_patch src False p"
    unfolding price_patch_def v f by (rule refl)
  show "price_term_text src False (p\<lparr>vp_displayValue := d\<rparr>) = price_term_text src False p"
    unfolding price_term_text_def v f patch by (rule refl)
qed

lemma align_price_cases: "align_price (p, q) = Some r \<Longrightarrow> r = p \<or> (\<exists>d. r = p\<lparr>vp_displayValue := d\<rparr>)"
  by (auto simp: align_price_def split: if_splits)

lemma align_prices_same:
  "mapO align_price (zip ps qs) = Some rs \<Longrightarrow> length ps = length qs \<Longrightarrow>
     fst (write_prices src False i origin label rs) = fst (write_prices src False i origin label ps)"
proof -
  assume a: "mapO align_price (zip ps qs) = Some rs" "length ps = length qs"
  have "list_all2 (\<lambda>p r. r = p \<or> (\<exists>d. r = p\<lparr>vp_displayValue := d\<rparr>)) ps rs"
    using a(2,1) by (induction ps qs arbitrary: rs rule: list_induct2) (auto dest: align_price_cases split: option.splits)
  then have "map vp_origin rs = map vp_origin ps" "map (price_patch src False) rs = map (price_patch src False) ps"
    "map (price_term_text src False) rs = map (price_term_text src False) ps"
    by (induction rule: list_all2_induct) (auto simp: price_text_display)
  note eqs = this
  then have "map (\<lambda>p. case price_patch src False p of Some q \<Rightarrow> [q] | None \<Rightarrow> []) rs
      = map (\<lambda>p. case price_patch src False p of Some q \<Rightarrow> [q] | None \<Rightarrow> []) ps"
    by (metis (no_types, lifting) list.map_comp comp_def map_eq_conv)
  then show ?thesis by (simp only: write_prices_def Let_def fst_conv eqs)
qed

lemma align_same:
  "align t d = Some t' \<Longrightarrow> fst (writeVisualPricing H src False t') = fst (writeVisualPricing H src False t)"
proof (induction t d arbitrary: t' rule: align.induct)
  case (1 i org c y n j org' c' y' n')
  then obtain yes no where r: "align y y' = Some yes" "align n n' = Some no" "t' = Branch i org c yes no" "same_condition c c'"
    by (auto split: if_splits option.splits)
  then show ?case using 1(1,2) by (auto split: prod.splits option.splits ExpressionNode.splits)
next
  case (2 i org label ps u fp j org' label' qs u' fp')
  then obtain rs where "mapO align_price (zip ps qs) = Some rs" "t' = Tier i org label rs u fp" "length ps = length qs"
    by (auto split: if_splits)
  then show ?case using align_prices_same by simp
qed simp_all

lemma compile_source_placed: "compile_source src = Ready c \<Longrightarrow> well_placed src (compiled_ast c)"
proof -
  assume "compile_source src = Ready c"
  then have "compile_steps src = Inr c" by (auto simp: compile_source_def split: sum.splits)
  then show ?thesis using compile_steps_ok [of src c] parse_wf_ast by (auto simp: well_placed_def)
qed

lemma slice_drop: "a \<le> b \<Longrightarrow> slice s a b @ drop b s = drop a s"
  unfolding slice_def by (metis append_take_drop_id drop_drop le_add_diff_inverse2)

lemma serialize_same:
  assumes "compile_source (doc_source doc) = Ready c"
    "fst (writeVisualPricing H (doc_source doc) False (doc_root doc)) = node_text (doc_source doc) (compiled_ast c)"
    "serializeVisualBillingDocument H doc False = Serialized out"
  shows "out = doc_source doc"
proof -
  let ?src = "doc_source doc" and ?n = "compiled_ast c"
  have "node_start ?n \<le> node_end ?n"
    using compile_source_placed [OF assms(1)] inside_self by (fastforce simp: inside_def)
  then have "take (node_start ?n) ?src @ node_text ?src ?n @ drop (node_end ?n) ?src = ?src"
    by (simp add: node_text_def slice_drop)
  then show ?thesis using assms
    by (auto simp: serializeVisualBillingDocument_def Let_def split: prod.splits if_splits CompilationResult.splits)
qed

lemma accept_Some: "accept H doc = Some d \<longleftrightarrow> doc = Some d \<and> (\<exists>out. serializeVisualBillingDocument H d False = Serialized out)"
  by (auto simp: accept_def split: option.splits VisualBillingSerialization.splits)

lemma parse_serialize:
  assumes "parseVisualBillingDocument H src displaySource = Some doc"
  shows "serializeVisualBillingDocument H doc False = Serialized src"
proof -
  obtain d where d: "read_document src = Some d" using assms by (auto simp: parseVisualBillingDocument_def split: option.splits)
  then obtain c root where c: "compile_source src = Ready c" "readVisualPricing (compiled_ast c) = Some root"
    "d = \<lparr>doc_source = src, doc_root = root\<rparr>"
    by (auto simp: read_document_def split: CompilationResult.splits)
  note same = read_pricing_same [OF c(2) compile_source_placed [OF c(1)], of H]
  obtain root' out where doc: "doc = \<lparr>doc_source = src, doc_root = root'\<rparr>" "root' = root \<or> (\<exists>t. align root t = Some root')"
    "serializeVisualBillingDocument H doc False = Serialized out"
    using assms d c(3) by (auto simp: parseVisualBillingDocument_def accept_Some split: if_splits option.splits)
  then have "out = doc_source doc" using serialize_same [of doc c H out] c(1) same align_same by auto
  then show ?thesis using doc(1,3) by simp
qed

end
