(* ===== verification/Billing_Props.thy ===== *)
theory Billing_Props
  imports Billing_Expr
begin

text \<open>
  Splitting an expression into its price and its request rules: each part of the product goes to one of
  the two, in order, and an expression put together from a price and rules on the time of day is taken
  apart into the same two texts.
\<close>

section \<open>Parts\<close>

lemma sort_parts_filter:
  "sort_parts parts = Inr (rs, bs) \<Longrightarrow>
     list_all (\<lambda>p. is_rule_part p \<in> {Inr True, Inr False}) parts \<and>
     rs = filter (\<lambda>p. is_rule_part p = Inr True) parts \<and> bs = filter (\<lambda>p. is_rule_part p = Inr False) parts"
proof (induction parts arbitrary: rs bs)
  case (Cons part parts)
  then show ?case by (auto simp: bindR_eq_Inr split: if_splits)
qed simp

lemma rule_parts_nonempty: "xs \<noteq> [] \<Longrightarrow> [] \<notin> set xs \<Longrightarrow> join sep xs \<noteq> []"
  by (induction sep xs rule: join.induct) auto

lemma split_parts_nonempty: "trim src \<noteq> [] \<Longrightarrow> [] \<notin> set (splitExpressionAtTopLevel (trim src) op)"
  by (auto simp: splitExpressionAtTopLevel_def split: option.splits)

lemma split_whole_or_parts:
  assumes "splitBillingExprAndRequestRules expr = Inr (price, rules)"
  defines "parts \<equiv> splitExpressionAtTopLevel (trim expr) (js ''*'')"
  shows "(price = trim expr \<and> rules = []) \<or>
    (rules = join (js '' * '') (filter (\<lambda>p. is_rule_part p = Inr True) parts) \<and> rules \<noteq> [] \<and>
     price = join (js '' * '') (map unwrapExpressionParens (filter (\<lambda>p. is_rule_part p = Inr False) parts)) \<and>
     list_all (\<lambda>p. is_rule_part p \<in> {Inr True, Inr False}) parts \<and>
     length (filter (\<lambda>p. is_rule_part p = Inr False \<and> \<not> is_quantity p) parts) = 1)"
proof (cases "trim expr = [] \<or> length parts \<le> 1")
  case True
  then show ?thesis using assms(1) unfolding splitBillingExprAndRequestRules_def Let_def parts_def [symmetric]
    by (auto split: if_splits)
next
  case False
  then have t: "trim expr \<noteq> []" by simp
  obtain rs bs where sp: "sort_parts parts = Inr (rs, bs)"
    and r: "(if rs = [] \<or> int (length bs) - int (length (filter is_quantity bs)) \<noteq> 1 then (trim expr, [])
        else (join (js '' * '') (map unwrapExpressionParens bs), join (js '' * '') rs)) = (price, rules)"
    using assms(1) False unfolding splitBillingExprAndRequestRules_def Let_def parts_def [symmetric]
    by (auto simp: bindR_eq_Inr split: if_splits)
  note f = sort_parts_filter [OF sp]
  show ?thesis
  proof (cases "rs = [] \<or> int (length bs) - int (length (filter is_quantity bs)) \<noteq> 1")
    case True
    then show ?thesis using r by simp
  next
    case split: False
    have "length bs = length (filter is_quantity bs) + length (filter (\<lambda>p. \<not> is_quantity p) bs)"
      using sum_length_filter_compl [of is_quantity bs] by simp
    then have "length (filter (\<lambda>p. \<not> is_quantity p) bs) = 1" using split by linarith
    then have "length (filter (\<lambda>p. is_rule_part p = Inr False \<and> \<not> is_quantity p) parts) = 1"
      using f by (simp add: conj_commute)
    moreover have "join (js '' * '') rs \<noteq> []"
      using split split_parts_nonempty [OF t, of "js ''*''"] f by (intro rule_parts_nonempty) (auto simp: parts_def)
    ultimately show ?thesis using r split f by auto
  qed
qed

section \<open>Taking apart what was put together\<close>

text \<open>A scan of a text inside brackets, with the brackets and the quote that are open.\<close>

function inside :: "jsstr \<Rightarrow> nat \<Rightarrow> code_unit option \<Rightarrow> bool" where
  "inside [] k quote \<longleftrightarrow> k = 0 \<and> quote = None"
| "inside (c # cs) k quote \<longleftrightarrow>
     (case quote of
        Some q \<Rightarrow>
          if c = 92 then (case cs of [] \<Rightarrow> False | _ # ds \<Rightarrow> inside ds k quote)
          else inside cs k (if c = q then None else quote)
      | None \<Rightarrow>
          if c = 34 \<or> c = 39 then inside cs k (Some c)
          else if c \<in> set (js ''([{'') then inside cs (Suc k) None
          else if c \<in> set (js '')]}'') then k \<noteq> 0 \<and> inside cs (k - 1) None
          else inside cs k None)"
  by pat_completeness auto
termination
  by (relation "measure (\<lambda>(s, _). length s)") auto

lemma inside_split:
  "inside s k quote \<Longrightarrow> 0 < d \<Longrightarrow>
     split_loop op (s @ r) cur (d + int k) quote parts = split_loop op r (cur @ s) d None parts"
proof (induction s k quote arbitrary: cur rule: inside.induct)
  case (2 c cs k quote)
  show ?case
  proof (cases quote)
    case (Some q)
    note IH = "2.IH"(5) [OF Some] and IH' = "2.IH"(6) [OF Some] and in' = "2.prems"(1) and d = "2.prems"(2)
    show ?thesis
    proof (cases "c = 92")
      case True
      then obtain e ds where cs: "cs = e # ds" "inside ds k quote" using in' Some by (auto split: list.splits)
      then show ?thesis using IH [OF True cs(1) cs(2) d, of "cur @ [c, e]"] True Some by simp
    next
      case False
      then have i: "inside cs k (if c = q then None else quote)" using in' Some by (cases "c = q") simp_all
      then show ?thesis using IH' [OF False i d, of "cur @ [c]"] False Some by (cases "c = q") simp_all
    qed
  next
    case None
    consider "c = 34 \<or> c = 39" | "c \<in> set (js ''([{'')" | "c \<in> set (js '')]}'')"
      | "\<not> (c = 34 \<or> c = 39)" "c \<notin> set (js ''([{'')" "c \<notin> set (js '')]}'')" by blast
    then show ?thesis
    proof cases
      case 1
      then show ?thesis using 2 None by auto
    next
      case c: 2
      then have "bracket_depth c (d + int k) = d + int (Suc k)" by (auto simp: bracket_depth_def)
      then show ?thesis using 2 None c by auto
    next
      case 3
      then have "k \<noteq> 0" using "2.prems"(1) None by auto
      moreover from 3 have "bracket_depth c (d + int k) = d + int k - 1" by (auto simp: bracket_depth_def)
      ultimately have "bracket_depth c (d + int k) = d + int (k - 1)" by simp
      then show ?thesis using 2 None 3 by auto
    next
      case 4
      then have "bracket_depth c (d + int k) = d + int k" by (simp add: bracket_depth_def)
      then show ?thesis using 2 None 4 by simp
    qed
  qed
qed simp

lemma inside_skipped: "inside s 0 None \<Longrightarrow> skipped s"
  unfolding skipped_def using inside_split [of s 0 None] by simp

lemma unwrap_wrapped:
  assumes "closes_at_end (40 # base @ [41]) 0 None" "unwrapExpressionParens base = base"
  shows "unwrapExpressionParens (40 # base @ [41]) = base"
proof -
  have t: "trim (40 # base @ [41]) = 40 # base @ [41]" by (rule trim_id) (simp add: is_space_def)
  have "slice (40 # base @ [41]) 1 (length (40 # base @ [41]) - 1) = base" by (simp add: slice_def)
  then have "unwrap_loop (40 # base @ [41]) = unwrap_loop (trim base)"
    using assms(1) by (subst unwrap_loop.simps) (simp add: starts_with_def ends_with_def)
  then show ?thesis using assms(2) t by (simp add: unwrapExpressionParens_def)
qed

lemma factor_rule_part:
  assumes "time_rule g" "buildRuleGroupFactor g \<noteq> []"
  shows "is_rule_part (buildRuleGroupFactor g) = Inr True"
proof -
  let ?t = "buildRuleGroupFactor g"
  note f = time_rule_factor [OF assms]
  have "tryParseRequestRuleExpr ?t = Inr (Some [stored_rule g])"
    using split_rules [of "[?t]"] f by (simp add: tryParseRequestRuleExpr_def)
  then show ?thesis by (simp add: is_rule_part_def)
qed

lemma sort_rule_parts:
  "list_all (\<lambda>p. is_rule_part p = Inr True) ts \<Longrightarrow> sort_parts ts = Inr (ts, [])"
  by (induction ts) auto

lemma split_billing_parts:
  assumes "trim e \<noteq> []" "splitExpressionAtTopLevel (trim e) (js ''*'') = b # r # rs"
    "sort_parts (b # r # rs) = Inr (r # rs, [b])" "\<not> is_quantity b"
  shows "splitBillingExprAndRequestRules e = Inr (unwrapExpressionParens b, join (js '' * '') (r # rs))"
  unfolding splitBillingExprAndRequestRules_def Let_def assms(2,3) bindR_simps prod.case using assms(1,4) by simp

lemma combine_split:
  assumes base: "trim base = base" "base \<noteq> []" "inside base 0 None" "closes_at_end (40 # base @ [41]) 0 None"
      "unwrapExpressionParens base = base"
    and kind: "is_rule_part (40 # base @ [41]) = Inr False" "base \<noteq> js ''image_count''"
    and rules: "list_all time_rule gs" "buildRequestRuleExpr gs \<noteq> []"
  shows "splitBillingExprAndRequestRules (combineBillingExpr base (buildRequestRuleExpr gs))
    = Inr (base, buildRequestRuleExpr gs)"
proof -
  let ?ts = "map buildRuleGroupFactor (filter (\<lambda>g. buildRuleGroupFactor g \<noteq> []) gs)" and ?b = "40 # base @ [41]"
  have r: "buildRequestRuleExpr gs = join (js '' * '') ?ts"
    by (simp add: buildRequestRuleExpr_def filter_map o_def)
  then have ts: "?ts \<noteq> []" using rules(2) by auto
  have f: "list_all is_factor ?ts" using rules(1) time_rule_factor(1) by (auto simp: list_all_iff)
  have b: "is_factor ?b" using inside_skipped [OF base(3)] by (auto simp: is_factor_def)
  have j: "combineBillingExpr base (buildRequestRuleExpr gs) = join (js '' * '') (?b # ?ts)"
    using base(1,2) ts f trim_id [OF disjI2] join_ends [OF ts f] unfolding r combineBillingExpr_def Let_def
    by (cases ?ts) simp_all
  have t: "trim (join (js '' * '') (?b # ?ts)) \<noteq> []" using split_rules(2) [of "?b # ?ts"] b f by simp
  have sp: "splitExpressionAtTopLevel (trim (join (js '' * '') (?b # ?ts))) (js ''*'') = ?b # ?ts"
    using split_rules(1) [of "?b # ?ts"] b f by simp
  have "list_all (\<lambda>p. is_rule_part p = Inr True) ?ts" using rules(1) factor_rule_part by (auto simp: list_all_iff)
  then have "sort_parts (?b # ?ts) = Inr (?ts, [?b])" using kind(1) sort_rule_parts by simp
  moreover have "\<not> is_quantity ?b" using unwrap_wrapped [OF base(4,5)] kind(2) by (simp add: is_quantity_def)
  moreover obtain r rs where "?ts = r # rs" using ts by (cases ?ts) auto
  ultimately have "splitBillingExprAndRequestRules (join (js '' * '') (?b # ?ts))
      = Inr (unwrapExpressionParens ?b, join (js '' * '') ?ts)"
    using split_billing_parts [OF t] sp by simp
  then show ?thesis unfolding j by (simp only: unwrap_wrapped [OF base(4,5)] r)
qed

end
