(* ===== verification/Task_Props.thy ===== *)
theory Task_Props
  imports Task_Expr
begin

text \<open>
  The matrix of task prices has one row for every way to choose the enumerated facts; the tiers written
  for it choose the prices of the row that a sample falls into; reading the tiers gives the matrix back;
  and normalizing a configuration twice changes nothing.
\<close>

section \<open>Combinations\<close>

text \<open>The ways to choose a value for each field.\<close>

definition choices :: "(jsstr \<times> UsageField) list \<Rightarrow> (jsstr \<rightharpoonup> jsstr) set" where
  "choices fs = {m. dom m = fst ` set fs \<and> (\<forall>p \<in> set fs. \<exists>v \<in> set (enum_values (snd p)). m (fst p) = Some v)}"

lemma choices_Nil: "choices [] = {Map.empty}"
  by (auto simp: choices_def)

lemma choices_upd:
  assumes "fst f \<notin> fst ` set fs" "m \<in> choices fs" "v \<in> set (enum_values (snd f))"
  shows "m(fst f \<mapsto> v) \<in> choices (f # fs)"
proof -
  have "(m(fst f \<mapsto> v)) (fst p) = m (fst p)" if "p \<in> set fs" for p using assms(1) that by (metis fun_upd_apply image_eqI)
  then show ?thesis using assms(2,3) by (simp add: choices_def)
qed

lemma choices_del:
  assumes "fst f \<notin> fst ` set fs" "m \<in> choices (f # fs)"
  shows "m(fst f := None) \<in> choices fs"
proof -
  have "(m(fst f := None)) (fst p) = m (fst p)" if "p \<in> set fs" for p using assms(1) that by (metis fun_upd_apply image_eqI)
  then show ?thesis using assms by (simp add: choices_def)
qed

lemma choices_Cons:
  assumes "fst f \<notin> fst ` set fs"
  shows "choices (f # fs) = (\<lambda>(v, m). m(fst f \<mapsto> v)) ` (set (enum_values (snd f)) \<times> choices fs)"
proof (intro equalityI subsetI)
  fix m assume m: "m \<in> choices (f # fs)"
  then obtain v where v: "v \<in> set (enum_values (snd f))" "m (fst f) = Some v" by (auto simp: choices_def)
  then have e: "m = (\<lambda>(v, m). m(fst f \<mapsto> v)) (v, m(fst f := None))" by auto
  then show "m \<in> (\<lambda>(v, m). m(fst f \<mapsto> v)) ` (set (enum_values (snd f)) \<times> choices fs)"
    using choices_del [OF assms m] v(1) by (intro image_eqI [where x = "(v, m(fst f := None))"] e) simp
qed (use choices_upd [OF assms] in auto)

lemma image_times_image: "g ` (A \<times> h ` B) = (\<lambda>(a, b). g (a, h b)) ` (A \<times> B)"
  by force

lemma extend_keys:
  "\<forall>c \<in> set cs. distinct (map fst c) \<Longrightarrow> \<forall>c \<in> set (extend_combinations f cs). distinct (map fst c)"
  by (auto simp: extend_combinations_def distinct_object_with)

lemma extend_maps:
  assumes "\<forall>c \<in> set cs. distinct (map fst c)"
  shows "map map_of (extend_combinations f cs)
    = map (\<lambda>(m, v). m(fst f \<mapsto> v)) (List.product (map map_of cs) (enum_values (snd f)))"
  using assms by (induction cs) (simp_all add: extend_combinations_def map_of_object_with)

lemma fold_extend_keys:
  "\<forall>c \<in> set cs. distinct (map fst c) \<Longrightarrow> \<forall>c \<in> set (fold extend_combinations fs cs). distinct (map fst c)"
proof (induction fs arbitrary: cs)
  case (Cons f fs)
  show ?case using Cons.IH [OF extend_keys [OF Cons.prems]] by simp
qed simp

lemma extend_image:
  assumes "\<forall>c \<in> set cs. distinct (map fst c)"
  shows "map_of ` set (extend_combinations f cs)
    = (\<lambda>(m, v). m(fst f \<mapsto> v)) ` (map_of ` set cs \<times> set (enum_values (snd f)))"
  using arg_cong [OF extend_maps [OF assms, of f], of set] by (simp only: set_map set_product)

lemma fold_extend_choices:
  assumes "distinct (map fst fs)" "\<forall>c \<in> set cs. distinct (map fst c)"
  shows "map_of ` set (fold extend_combinations fs cs) = (\<lambda>(m, a). m ++ a) ` (map_of ` set cs \<times> choices fs)"
  using assms
proof (induction fs arbitrary: cs)
  case Nil
  then show ?case by (force simp: choices_Nil)
next
  case (Cons f fs)
  have f: "fst f \<notin> fst ` set fs" using Cons.prems by simp
  have swap: "m(fst f \<mapsto> v) ++ a = m ++ a(fst f \<mapsto> v)" if "a \<in> choices fs" for m v a
  proof -
    have "fst f \<notin> dom a" using that f by (simp add: choices_def)
    then show ?thesis by (simp add: map_add_upd_left)
  qed
  have "map_of ` set (fold extend_combinations (f # fs) cs)
      = (\<lambda>(m, a). m ++ a) ` ((\<lambda>(m, v). m(fst f \<mapsto> v)) ` (map_of ` set cs \<times> set (enum_values (snd f))) \<times> choices fs)"
    using Cons.IH [of "extend_combinations f cs"] extend_keys [OF Cons.prems(2)] Cons.prems(1)
      extend_image [OF Cons.prems(2)] by simp
  also have "\<dots> = (\<lambda>(m, v, a). m(fst f \<mapsto> v) ++ a) ` (map_of ` set cs \<times> set (enum_values (snd f)) \<times> choices fs)"
    by force
  also have "\<dots> = (\<lambda>(m, v, a). m ++ a(fst f \<mapsto> v)) ` (map_of ` set cs \<times> set (enum_values (snd f)) \<times> choices fs)"
    by (rule image_cong [OF refl]) (simp add: split_beta swap mem_Times_iff)
  also have "\<dots> = (\<lambda>(m, a). m ++ a) ` (map_of ` set cs \<times> choices (f # fs))"
    unfolding choices_Cons [OF f] image_times_image by (simp add: split_def)
  finally show ?case .
qed

lemma distinct_extend:
  assumes "\<forall>c \<in> set cs. distinct (map fst c)" "distinct (map map_of cs)" "\<forall>c \<in> set cs. fst f \<notin> fst ` set c"
    "distinct (enum_values (snd f))"
  shows "distinct (map map_of (extend_combinations f cs))"
proof -
  have "inj_on (\<lambda>(m, v). m(fst f \<mapsto> v)) (set (map map_of cs) \<times> set (enum_values (snd f)))"
  proof (rule inj_onI, clarsimp)
    fix c d v w
    assume c: "c \<in> set cs" "d \<in> set cs" and e: "(map_of c)(fst f \<mapsto> v) = (map_of d)(fst f \<mapsto> w)"
    then have "map_of c (fst f) = None" "map_of d (fst f) = None" using assms(3) by (auto simp: map_of_eq_None_iff)
    then have "map_of c = ((map_of c)(fst f \<mapsto> v))(fst f := None)" "map_of d = ((map_of d)(fst f \<mapsto> w))(fst f := None)" by auto
    then show "map_of c = map_of d \<and> v = w" using e by (metis fun_upd_same option.inject)
  qed
  then show ?thesis unfolding extend_maps [OF assms(1)]
    using assms(2,4) by (simp add: distinct_map distinct_product)
qed

lemma keys_object_with: "fst ` set (object_with k v m) = insert k (fst ` set m)"
  using keys_js_map_set [of k v m] by (simp add: object_with_def)

lemma extend_fields:
  assumes "c \<in> set (extend_combinations f cs)"
  obtains d where "d \<in> set cs" "fst ` set c = insert (fst f) (fst ` set d)"
proof -
  obtain d v where "d \<in> set cs" "c = object_with (fst f) v d" using assms by (auto simp: extend_combinations_def)
  then show thesis using that [of d] by (simp add: keys_object_with)
qed

lemma distinct_fold_extend:
  assumes "distinct (map fst fs)" "\<forall>c \<in> set cs. distinct (map fst c)" "distinct (map map_of cs)"
    "\<forall>c \<in> set cs. fst ` set c \<inter> fst ` set fs = {}" "\<forall>f \<in> set fs. distinct (enum_values (snd f))"
  shows "distinct (map map_of (fold extend_combinations fs cs))"
  using assms
proof (induction fs arbitrary: cs)
  case (Cons f fs)
  have f: "fst f \<notin> fst ` set fs" "\<forall>c \<in> set cs. fst f \<notin> fst ` set c" using Cons.prems(1,4) by auto
  have "\<forall>c \<in> set (extend_combinations f cs). fst ` set c \<inter> fst ` set fs = {}"
  proof
    fix c assume "c \<in> set (extend_combinations f cs)"
    then obtain d where "d \<in> set cs" "fst ` set c = insert (fst f) (fst ` set d)" by (rule extend_fields)
    then show "fst ` set c \<inter> fst ` set fs = {}" using f(1) Cons.prems(4) by auto
  qed
  moreover have "distinct (map map_of (extend_combinations f cs))"
    using Cons.prems f(2) by (intro distinct_extend) simp_all
  ultimately show ?case using Cons.IH [OF _ extend_keys [OF Cons.prems(2)]] Cons.prems(1,5) by simp
qed simp

definition enum_fields :: "BillingUsageSchema \<Rightarrow> (jsstr \<times> UsageField) list" where
  "enum_fields schema = filter (\<lambda>(_, d). has_enum d) schema"

lemma choices_cong: "set fs = set gs \<Longrightarrow> choices fs = choices gs"
  by (simp add: choices_def)

lemma set_enum_fields: "set (getTaskEnumFields cmp (Some schema)) = set (enum_fields schema)"
  "distinct (map fst schema) \<Longrightarrow> distinct (map fst (getTaskEnumFields cmp (Some schema)))"
  by (simp_all add: getTaskEnumFields_def enum_fields_def distinct_map_filter)

lemma combinations_choices:
  assumes "distinct (map fst schema)"
  shows "map_of ` set (getTaskEnumCombinations cmp (Some schema)) = choices (enum_fields schema)"
    "c \<in> set (getTaskEnumCombinations cmp (Some schema)) \<Longrightarrow> distinct (map fst c)"
    "\<forall>(f, d) \<in> set (enum_fields schema). distinct (enum_values d) \<Longrightarrow>
      distinct (map map_of (getTaskEnumCombinations cmp (Some schema)))"
proof -
  note fs = set_enum_fields(2) [OF assms, of cmp]
  show "map_of ` set (getTaskEnumCombinations cmp (Some schema)) = choices (enum_fields schema)"
    using fold_extend_choices [OF fs, of "[[]]"] choices_cong [OF set_enum_fields(1)]
    by (simp add: getTaskEnumCombinations_def image_def)
  show "c \<in> set (getTaskEnumCombinations cmp (Some schema)) \<Longrightarrow> distinct (map fst c)"
    using fold_extend_keys [of "[[]]"] by (simp add: getTaskEnumCombinations_def)
  assume "\<forall>(f, d) \<in> set (enum_fields schema). distinct (enum_values d)"
  then show "distinct (map map_of (getTaskEnumCombinations cmp (Some schema)))"
    using distinct_fold_extend [OF fs, of "[[]]"] set_enum_fields(1) [of cmp schema]
    by (auto simp: getTaskEnumCombinations_def split_beta)
qed

section \<open>From rows to tiers\<close>

text \<open>Two prices that are the same number, up to the sign of zero.\<close>

definition same_num :: "jsnum \<Rightarrow> jsnum \<Rightarrow> bool" where
  "same_num a b \<longleftrightarrow> a = b \<or> js_num_eq a b"

lemma map_of_field_prices:
  assumes "distinct (map fst fs)"
  shows "map_of (field_prices fs prices) f = (if f \<in> fst ` set fs then Some (price_or_zero prices f) else None)"
proof -
  have "map fst (map (\<lambda>(field, _). (field, price_or_zero prices field)) fs) = map fst fs"
    by (simp add: case_prod_beta)
  then have d: "distinct (map fst (map (\<lambda>(field, _). (field, price_or_zero prices field)) fs))"
    using assms by (simp only:)
  have "map_of (map (\<lambda>(field, _). (field, price_or_zero prices field)) fs) f
      = (if f \<in> fst ` set fs then Some (price_or_zero prices f) else None)"
    by (induction fs) (auto split: if_splits)
  then show ?thesis unfolding field_prices_def fromEntries_distinct(2) [OF d] .
qed

lemma price_field_prices:
  "distinct (map fst fs) \<Longrightarrow> f \<in> fst ` set fs \<Longrightarrow> price_or_zero (field_prices fs prices) f = price_or_zero prices f"
  by (simp add: price_or_zero_def [of "field_prices fs prices"] map_of_field_prices)

definition number_fields :: "BillingUsageSchema \<Rightarrow> jsstr set" where
  "number_fields schema = fst ` set (filter (\<lambda>p. uf_type (snd p) = Some Field_number \<and> has_unit (snd p)) schema)"

lemma set_number_fields: "fst ` set (getTaskNumberFields cmp (Some schema)) = number_fields schema"
  "distinct (map fst schema) \<Longrightarrow> distinct (map fst (getTaskNumberFields cmp (Some schema)))"
  by (auto simp: getTaskNumberFields_def number_fields_def distinct_map_filter case_prod_beta)

text \<open>A sample falls into a row where it has the facts of the row.\<close>

definition falls_into :: "(jsstr, jsval) js_map \<Rightarrow> TaskMatrixRow \<Rightarrow> bool" where
  "falls_into sample row \<longleftrightarrow> list_all (\<lambda>(k, v). map_of sample k = Some (JStr v)) (mr_combination row)"

text \<open>The rows of a matrix: the same facts in every row, no two rows with the same values.\<close>

definition matrix_ok :: "TaskMatrixConfig \<Rightarrow> bool" where
  "matrix_ok rows \<longleftrightarrow> (\<forall>r \<in> set rows. distinct (map fst (mr_combination r))) \<and>
     (\<forall>r \<in> set rows. \<forall>r' \<in> set rows. fst ` set (mr_combination r) = fst ` set (mr_combination r')) \<and>
     distinct (map (map_of \<circ> mr_combination) rows)"

lemma matches_row_conditions:
  "sample_matches sample \<lparr>vt_label = l, vt_conditions = row_conditions cmp row, vt_constant = c, vt_unitPrices = p\<rparr>
     = falls_into sample row"
  by (auto simp: sample_matches_def row_conditions_def falls_into_def list_all_iff)

lemma falls_into_unique:
  assumes "matrix_ok rows" "r \<in> set rows" "r' \<in> set rows" "falls_into sample r" "falls_into sample r'"
  shows "r = r'"
proof -
  have d: "distinct (map fst (mr_combination r))" "distinct (map fst (mr_combination r'))"
    and k: "fst ` set (mr_combination r) = fst ` set (mr_combination r')"
    and inj: "inj_on (map_of \<circ> mr_combination) (set rows)"
    using assms(1-3) unfolding matrix_ok_def distinct_map by blast+
  have "map_of (mr_combination r) x = map_of (mr_combination r') x" for x
  proof (cases "x \<in> fst ` set (mr_combination r)")
    case True
    then obtain v where v: "(x, v) \<in> set (mr_combination r)" by force
    obtain v' where v': "(x, v') \<in> set (mr_combination r')" using True unfolding k by force
    have "map_of sample x = Some (JStr v)" "map_of sample x = Some (JStr v')"
      using assms(4,5) v v' unfolding falls_into_def list_all_iff by fast+
    then show ?thesis using v v' d by simp
  next
    case False
    then have "map_of (mr_combination r) x = None" "map_of (mr_combination r') x = None"
      using k by (simp_all add: map_of_eq_None_iff)
    then show ?thesis by simp
  qed
  then have "map_of (mr_combination r) = map_of (mr_combination r')" by (rule ext)
  then show ?thesis using inj_onD [OF inj _ assms(2,3)] by simp
qed

text \<open>The tier that is written for a row.\<close>

definition row_tier :: "comparison \<Rightarrow> BillingUsageSchema \<Rightarrow> bool \<Rightarrow> TaskMatrixRow \<Rightarrow> TaskVisualTier" where
  "row_tier cmp schema is_last row =
     \<lparr>vt_label = taskMatrixRowLabel cmp (mr_combination row),
      vt_conditions = (if is_last then [] else row_conditions cmp row),
      vt_constant = mr_constant row,
      vt_unitPrices = field_prices (getTaskNumberFields cmp (Some schema)) (mr_unitPrices row)\<rparr>"

lemma tiers_of_rows:
  assumes "getTaskNumberFields cmp (Some schema) \<noteq> []"
    "\<not> is_uniform (getTaskNumberFields cmp (Some schema)) (hd (rows @ [r])) (rows @ [r])"
  shows "taskMatrixToTiers cmp (rows @ [r]) schema = map (row_tier cmp schema False) rows @ [row_tier cmp schema True r]"
proof -
  have "map (\<lambda>(index, row). f (Suc index = Suc (length rows)) row) (enumerate 0 rows) = map (f False) rows" for f :: "bool \<Rightarrow> TaskMatrixRow \<Rightarrow> TaskVisualTier"
    by (rule nth_equalityI) (simp_all add: nth_enumerate_eq)
  from this [of "row_tier cmp schema"] show ?thesis
    using assms unfolding row_tier_def taskMatrixToTiers_def
    by (cases rows) (simp_all add: Let_def enumerate_append_eq split_def)
qed

lemma find_unique:
  assumes "x \<in> set xs" "P x" "\<And>y. y \<in> set xs \<Longrightarrow> P y \<Longrightarrow> y = x"
  shows "find P xs = Some x"
proof -
  obtain y where y: "find P xs = Some y" using assms(1,2) by (cases "find P xs") (auto simp: find_None_iff)
  then have "y \<in> set xs" "P y" by (auto simp: find_Some_iff)
  then show ?thesis using y assms(3) by simp
qed

lemma find_of_map: "find P (map f xs) = map_option f (find (P \<circ> f) xs)"
  by (induction xs) auto

lemma matched_row:
  assumes "matrix_ok (rows @ [l])" "r \<in> set (rows @ [l])" "falls_into sample r"
  shows "matchedTier sample (map (row_tier cmp schema False) rows @ [row_tier cmp schema True l]) =
    Some (row_tier cmp schema (r \<notin> set rows) r)"
proof -
  have m: "sample_matches sample \<circ> row_tier cmp schema False = falls_into sample"
    by (simp add: fun_eq_iff row_tier_def matches_row_conditions)
  have u: "y = r" if "y \<in> set rows" "falls_into sample y" for y
    using falls_into_unique [OF assms(1) _ assms(2) _ assms(3)] that by simp
  show ?thesis
  proof (cases "r \<in> set rows")
    case True
    then have "find (falls_into sample) rows = Some r" using u assms(3) by (intro find_unique)
    then show ?thesis using True by (simp add: matchedTier_def find_of_map m)
  next
    case False
    then have "find (falls_into sample) rows = None" using u unfolding find_None_iff by metis
    then show ?thesis using False assms(2) by (simp add: matchedTier_def find_of_map m)
  qed
qed

lemma equal_prices_numbers: "equal_prices (map_of a f) (map_of b f) \<Longrightarrow> same_num (price_or_zero a f) (price_or_zero b f)"
  by (auto simp: equal_prices_def same_num_def price_or_zero_def split: option.splits)

lemma js_num_eq_sym: "js_num_eq a b = js_num_eq b a"
  by (cases a; cases b) auto

lemma same_num_sym: "same_num a b = same_num b a"
  by (auto simp: same_num_def js_num_eq_sym)

lemma tiers_choose_row:
  assumes "matrix_ok rows" "r \<in> set rows" "falls_into sample r" "distinct (map fst schema)" "number_fields schema \<noteq> {}"
  shows "\<exists>t. matchedTier sample (taskMatrixToTiers cmp rows schema) = Some t \<and> same_num (vt_constant t) (mr_constant r) \<and>
    (\<forall>f \<in> number_fields schema. same_num (price_or_zero (vt_unitPrices t) f) (price_or_zero (mr_unitPrices r) f))"
proof -
  let ?fs = "getTaskNumberFields cmp (Some schema)"
  have fs: "?fs \<noteq> []" "distinct (map fst ?fs)" using set_number_fields(1) [of cmp schema] set_number_fields(2) [of schema cmp] assms(4,5) by auto
  have rows: "rows \<noteq> []" using assms(2) by auto
  show ?thesis
  proof (cases "is_uniform ?fs (hd rows) rows")
    case True
    have t: "taskMatrixToTiers cmp rows schema = [\<lparr>vt_label = js ''base'', vt_conditions = [], vt_constant = mr_constant (hd rows),
        vt_unitPrices = field_prices ?fs (mr_unitPrices (hd rows))\<rparr>]"
      using True fs(1) rows by (cases rows) (simp_all add: taskMatrixToTiers_def)
    have u: "js_num_eq (mr_constant r) (mr_constant (hd rows))"
      "\<forall>f \<in> fst ` set ?fs. equal_prices (map_of (mr_unitPrices r) f) (map_of (mr_unitPrices (hd rows)) f)"
      using True assms(2) unfolding is_uniform_def list_all_iff by (simp, fastforce)
    have "same_num (mr_constant (hd rows)) (mr_constant r)" using u(1) same_num_sym by (auto simp: same_num_def)
    moreover have "same_num (price_or_zero (field_prices ?fs (mr_unitPrices (hd rows))) f) (price_or_zero (mr_unitPrices r) f)"
      if "f \<in> number_fields schema" for f
      using u(2) that equal_prices_numbers same_num_sym price_field_prices [OF fs(2)] set_number_fields(1) by metis
    ultimately show ?thesis by (simp add: t matchedTier_def)
  next
    case False
    obtain rs l where rl: "rows = rs @ [l]" using rows by (metis rev_exhaust)
    let ?t = "row_tier cmp schema (r \<notin> set rs) r"
    have "matchedTier sample (taskMatrixToTiers cmp rows schema) = Some ?t"
      using matched_row [of rs l] tiers_of_rows [OF fs(1)] assms(1-3) False rl by simp
    moreover have "same_num (price_or_zero (vt_unitPrices ?t) f) (price_or_zero (mr_unitPrices r) f)"
      if "f \<in> number_fields schema" for f
      using that price_field_prices [OF fs(2)] set_number_fields(1) [of cmp schema] by (simp add: row_tier_def same_num_def)
    moreover have "same_num (vt_constant ?t) (mr_constant r)" by (simp add: row_tier_def same_num_def)
    ultimately show ?thesis by blast
  qed
qed

section \<open>From tiers to rows\<close>

definition task_tier :: "TaskVisualTier \<Rightarrow> TaskTier" where
  "task_tier t = \<lparr>kt_conditionText = None, kt_label = vt_label t, kt_conditions = vt_conditions t, kt_constant = vt_constant t,
     kt_unitPrices = vt_unitPrices t\<rparr>"

text \<open>A matrix as the editor creates it: one row per combination, in order, with a plain price for each field.\<close>

definition plain_price :: "jsnum \<Rightarrow> bool" where
  "plain_price x \<longleftrightarrow> (case x of Fin s m \<Rightarrow> \<not> s | _ \<Rightarrow> False)"

definition canonical :: "comparison \<Rightarrow> BillingUsageSchema \<Rightarrow> TaskMatrixConfig \<Rightarrow> bool" where
  "canonical cmp schema rows \<longleftrightarrow>
     map mr_combination rows = getTaskEnumCombinations cmp (Some schema) \<and>
     (\<forall>r \<in> set rows. plain_price (mr_constant r) \<and>
        mr_unitPrices r = field_prices (getTaskNumberFields cmp (Some schema)) (mr_unitPrices r) \<and>
        list_all (\<lambda>p. plain_price (snd p)) (mr_unitPrices r))"

lemma plain_price_eq: "plain_price a \<Longrightarrow> plain_price b \<Longrightarrow> js_num_eq a b \<Longrightarrow> a = b"
  by (cases a; cases b) (auto simp: plain_price_def)

definition as_sample :: "(jsstr, jsstr) js_map \<Rightarrow> (jsstr, jsval) js_map" where
  "as_sample c = map (\<lambda>(k, v). (k, JStr v)) c"

lemma map_of_as_sample: "map_of (as_sample c) k = map_option JStr (map_of c k)"
  by (induction c) (auto simp: as_sample_def)

lemma covers_sample: "covers c (task_tier t) = sample_matches (as_sample c) t"
  by (auto simp: covers_def sample_matches_def task_tier_def map_of_as_sample list_all_iff)

lemma falls_into_own: "distinct (map fst (mr_combination r)) \<Longrightarrow> falls_into (as_sample (mr_combination r)) r"
  by (auto simp: falls_into_def map_of_as_sample list_all_iff)

lemma find_last:
  assumes "ts \<noteq> []" "P (last ts)"
  shows "find P ts = Some (case find P (butlast ts) of Some t \<Rightarrow> t | None \<Rightarrow> last ts)"
proof -
  have "find P (xs @ [x]) = Some (case find P xs of Some t \<Rightarrow> t | None \<Rightarrow> x)" if "P x" for xs x
    using that by (induction xs) auto
  from this [OF assms(2), of "butlast ts"] show ?thesis using assms(1) by simp
qed

lemma find_covers:
  assumes "ts \<noteq> []" "vt_conditions (last ts) = []"
  shows "find (covers c) (map task_tier ts) = map_option task_tier (matchedTier (as_sample c) ts)"
proof -
  have "sample_matches (as_sample c) (last ts)" by (simp add: sample_matches_def assms(2))
  from find_last [where P = "sample_matches (as_sample c)", OF assms(1) this] show ?thesis
    using assms(1) by (simp add: find_of_map matchedTier_def o_def covers_sample)
qed

lemma extend_nonempty: "cs \<noteq> [] \<Longrightarrow> enum_values (snd f) \<noteq> [] \<Longrightarrow> extend_combinations f cs \<noteq> []"
  by (cases cs) (auto simp: extend_combinations_def)

lemma fold_extend_nonempty:
  "cs \<noteq> [] \<Longrightarrow> \<forall>f \<in> set fs. enum_values (snd f) \<noteq> [] \<Longrightarrow> fold extend_combinations fs cs \<noteq> []"
  by (induction fs arbitrary: cs) (simp_all add: extend_nonempty)

lemma combinations_nonempty: "getTaskEnumCombinations cmp (Some schema) \<noteq> []"
  unfolding getTaskEnumCombinations_def
  by (rule fold_extend_nonempty) (auto simp: getTaskEnumFields_def has_enum_def enum_values_def split: option.splits)

lemma combinations_fields:
  assumes "distinct (map fst schema)" "c \<in> set (getTaskEnumCombinations cmp (Some schema))"
  shows "fst ` set c = fst ` set (enum_fields schema)"
proof -
  have "map_of c \<in> choices (enum_fields schema)" using combinations_choices(1) [OF assms(1), of cmp] assms(2) by blast
  then show ?thesis by (simp add: choices_def dom_map_of_conv_image_fst)
qed

definition distinct_enums :: "BillingUsageSchema \<Rightarrow> bool" where
  "distinct_enums schema \<longleftrightarrow> (\<forall>(f, d) \<in> set (enum_fields schema). distinct (enum_values d))"

lemma canonical_matrix:
  assumes "distinct (map fst schema)" "distinct_enums schema" "map mr_combination rows = getTaskEnumCombinations cmp (Some schema)"
  shows "matrix_ok rows" "rows \<noteq> []"
proof -
  have c: "mr_combination r \<in> set (getTaskEnumCombinations cmp (Some schema))" if "r \<in> set rows" for r
    using that assms(3) [symmetric] by simp
  have "distinct (map map_of (map mr_combination rows))"
    unfolding assms(3) using combinations_choices(3) [OF assms(1)] assms(2) by (simp add: distinct_enums_def)
  then have "distinct (map (map_of \<circ> mr_combination) rows)" by (simp add: o_def)
  moreover have "fst ` set (mr_combination r) = fst ` set (enum_fields schema)" if "r \<in> set rows" for r
    using combinations_fields [OF assms(1) c [OF that]] .
  ultimately show "matrix_ok rows"
    unfolding matrix_ok_def using combinations_choices(2) [OF assms(1) c] by (metis (no_types, lifting))
  show "rows \<noteq> []" using combinations_nonempty [of cmp schema] assms(3) by auto
qed

lemma field_prices_cong:
  "(\<And>f. f \<in> fst ` set fs \<Longrightarrow> price_or_zero a f = price_or_zero b f) \<Longrightarrow> field_prices fs a = field_prices fs b"
  unfolding field_prices_def by (rule arg_cong [where f = fromEntries]) force

lemma tiers_rows:
  assumes "t \<in> set (taskMatrixToTiers cmp rows schema)"
  shows "\<exists>r \<in> set rows. vt_constant t = mr_constant r \<and>
    vt_unitPrices t = field_prices (getTaskNumberFields cmp (Some schema)) (mr_unitPrices r) \<and>
    vt_conditions t \<in> {[], row_conditions cmp r}"
  using assms by (cases rows) (auto simp: taskMatrixToTiers_def Let_def set_zip enumerate_eq_zip nth_Cons' split: if_splits)

lemma tiers_last:
  assumes "rows \<noteq> []" "getTaskNumberFields cmp (Some schema) \<noteq> []"
  shows "taskMatrixToTiers cmp rows schema \<noteq> [] \<and> vt_conditions (last (taskMatrixToTiers cmp rows schema)) = []"
proof -
  obtain rs l where rl: "rows = rs @ [l]" using assms(1) by (metis rev_exhaust)
  show ?thesis
  proof (cases "is_uniform (getTaskNumberFields cmp (Some schema)) (hd rows) rows")
    case True
    then show ?thesis using assms by (cases rows) (simp_all add: taskMatrixToTiers_def)
  next
    case False
    then show ?thesis using tiers_of_rows [OF assms(2), of rs l] rl by (simp add: row_tier_def)
  qed
qed

lemma plain_price_or_zero: "list_all (\<lambda>p. plain_price (snd p)) prices \<Longrightarrow> plain_price (price_or_zero prices f)"
  by (auto simp: price_or_zero_def list_all_iff zero_num_def plain_price_def [of "Fin False 0"] split: option.splits
      dest!: map_of_SomeD)

lemma same_plain: "same_num a b \<Longrightarrow> plain_price a \<Longrightarrow> plain_price b \<Longrightarrow> a = b"
  unfolding same_num_def using plain_price_eq by blast

lemma matched_in:
  assumes "matchedTier sample ts = Some t"
  shows "t \<in> set ts"
proof -
  have ts: "ts \<noteq> []" and t: "t = (case find (sample_matches sample) (butlast ts) of Some t \<Rightarrow> t | None \<Rightarrow> last ts)"
    using assms by (simp_all add: matchedTier_def split: if_splits)
  show ?thesis
  proof (cases "find (sample_matches sample) (butlast ts)")
    case None
    then show ?thesis using t ts by simp
  next
    case (Some u)
    then have "u \<in> set (butlast ts)" by (auto simp: find_Some_iff)
    then show ?thesis using t Some in_set_butlastD by simp
  qed
qed

lemma tier_row_back:
  assumes "distinct (map fst schema)" "number_fields schema \<noteq> {}" "matrix_ok rows" "canonical cmp schema rows" "r \<in> set rows"
    "ts = taskMatrixToTiers cmp rows schema"
  shows "matrix_row (getTaskNumberFields cmp (Some schema)) (map task_tier ts) l (mr_combination r) = r"
proof -
  let ?fs = "getTaskNumberFields cmp (Some schema)"
  have fs: "?fs \<noteq> []" "distinct (map fst ?fs)"
    using set_number_fields(1) [of cmp schema] set_number_fields(2) [of schema cmp] assms(1,2) by auto
  have own: "falls_into (as_sample (mr_combination r)) r"
    using assms(3,5) by (intro falls_into_own) (simp add: matrix_ok_def)
  obtain t where t: "matchedTier (as_sample (mr_combination r)) ts = Some t" "same_num (vt_constant t) (mr_constant r)"
    "\<forall>f \<in> number_fields schema. same_num (price_or_zero (vt_unitPrices t) f) (price_or_zero (mr_unitPrices r) f)"
    using tiers_choose_row [OF assms(3,5) own assms(1,2), of cmp] assms(6) by blast
  obtain q where q: "q \<in> set rows" "vt_constant t = mr_constant q" "vt_unitPrices t = field_prices ?fs (mr_unitPrices q)"
    using tiers_rows [of t cmp rows schema] matched_in [OF t(1)] assms(6) by blast
  have plain: "plain_price (mr_constant x)" "mr_unitPrices x = field_prices ?fs (mr_unitPrices x)"
    "plain_price (price_or_zero (mr_unitPrices x) f)" if "x \<in> set rows" for x f
    using assms(4) that plain_price_or_zero unfolding canonical_def by blast+
  have "vt_unitPrices t = mr_unitPrices q" using q(3) plain(2) [OF q(1)] by simp
  then have "price_or_zero (vt_unitPrices t) f = price_or_zero (mr_unitPrices r) f" if "f \<in> fst ` set ?fs" for f
    using t(3) that plain(3) q(1) assms(5) same_plain unfolding set_number_fields(1) by metis
  then have p: "field_prices ?fs (vt_unitPrices t) = mr_unitPrices r"
    using field_prices_cong [of ?fs "vt_unitPrices t" "mr_unitPrices r"] plain(2) [OF assms(5)] by simp
  have "vt_constant t = mr_constant r" using t(2) q plain(1) assms(5) same_plain by metis
  moreover have "find (covers (mr_combination r)) (map task_tier ts) = Some (task_tier t)"
    using find_covers [of ts "mr_combination r"] tiers_last [of rows, OF _ fs(1)] assms(5,6) t(1) by fastforce
  ultimately show ?thesis using p by (simp add: matrix_row_def task_tier_def)
qed

lemma row_conditions_fields: "map kc_field (row_conditions cmp r) = map fst (sort_entries cmp (mr_combination r))"
  by (auto simp: row_conditions_def)

lemma matrix_roundtrip:
  assumes "distinct (map fst schema)" "distinct_enums schema" "number_fields schema \<noteq> {}" "canonical cmp schema rows"
  shows "matrix_of_tiers cmp schema (map task_tier (taskMatrixToTiers cmp rows schema)) = Some rows"
proof -
  let ?ts = "taskMatrixToTiers cmp rows schema"
  have c: "map mr_combination rows = getTaskEnumCombinations cmp (Some schema)" using assms(4) by (simp add: canonical_def)
  note rows = canonical_matrix [OF assms(1,2) c]
  have fs: "getTaskNumberFields cmp (Some schema) \<noteq> []" using set_number_fields(1) [of cmp schema] assms(3) by auto
  note last = tiers_last [OF rows(2) fs]
  have "distinct (map kc_field (vt_conditions t))" if t: "t \<in> set ?ts" for t
  proof -
    obtain r where "r \<in> set rows" "vt_conditions t \<in> {[], row_conditions cmp r}" using tiers_rows [OF t] by blast
    then show ?thesis using rows(1) by (auto simp: row_conditions_fields matrix_ok_def)
  qed
  then have "\<not> list_ex (\<lambda>tier. \<not> distinct (map kc_field (kt_conditions tier))) (map task_tier ?ts)"
    by (auto simp: list_ex_iff task_tier_def)
  moreover have "map (matrix_row (getTaskNumberFields cmp (Some schema)) (map task_tier ?ts) l) (map mr_combination rows) = rows" for l
    using tier_row_back [OF assms(1,3) rows(1) assms(4) _ refl] by (simp add: map_idI)
  ultimately show ?thesis using last by (simp add: matrix_of_tiers_def last_map task_tier_def [of "last ?ts"] flip: c)
qed

section \<open>Normal configurations\<close>

lemma clamp_idem [simp]: "clamp_price (clamp_price x) = clamp_price x"
  by (simp add: clamp_price_def)

lemma clamp_zero [simp]: "clamp_price zero_num = zero_num"
  by (simp add: clamp_price_def)

lemma map_of_entries:
  assumes "distinct fs"
  shows "map_of (fromEntries (map (\<lambda>f. (f, g f)) fs)) f = (if f \<in> set fs then Some (g f) else None)"
proof -
  have d: "distinct (map fst (map (\<lambda>f. (f, g f)) fs))" using assms by (simp add: o_def)
  show ?thesis unfolding fromEntries_distinct(2) [OF d] by (simp add: map_of_map_restrict)
qed

lemma normalize_tier_idem:
  assumes "distinct fs"
  shows "normalize_tier fs es (i, normalize_tier fs es (i, t)) = normalize_tier fs es (i, t)"
proof -
  have n: "tier_name i (tier_name i l) = tier_name i l" for l by (simp add: tier_name_def)
  have m: "map (\<lambda>f. (f, clamp_price (case map_of (fromEntries (map (\<lambda>f. (f, clamp_price (p f))) fs)) f of Some v \<Rightarrow> v | None \<Rightarrow> NaN))) fs
      = map (\<lambda>f. (f, clamp_price (p f))) fs" for p
    by (rule map_cong [OF refl]) (simp add: map_of_entries [OF assms])
  show ?thesis by (simp add: normalize_tier_def n arg_cong [where f = fromEntries, OF m])
qed

lemma normal_default:
  assumes "distinct (map fst schema)"
  shows "normalizeTaskVisualConfig cmp (Some (createDefaultTaskVisualConfig cmp schema)) schema = createDefaultTaskVisualConfig cmp schema"
proof -
  let ?fs = "map fst (getTaskNumberFields cmp (Some schema))"
  have d: "distinct ?fs" by (rule set_number_fields(2) [OF assms])
  have e: "map (\<lambda>(field, _). (field, zero_num)) (getTaskNumberFields cmp (Some schema)) = map (\<lambda>f. (f, zero_num)) ?fs"
    by (simp add: case_prod_beta o_def)
  have m: "map (\<lambda>f. (f, clamp_price (case map_of (fromEntries (map (\<lambda>f. (f, zero_num)) ?fs)) f of Some v \<Rightarrow> v | None \<Rightarrow> NaN))) ?fs
      = map (\<lambda>f. (f, zero_num)) ?fs"
    by (rule map_cong [OF refl]) (simp add: map_of_entries [OF d] del: map_map)
  show ?thesis unfolding normalizeTaskVisualConfig_def createDefaultTaskVisualConfig_def e
    using arg_cong [where f = fromEntries, OF m] by (simp add: normalize_tier_def tier_name_def del: map_map)
qed

lemma normalize_config_idem:
  assumes "distinct (map fst schema)"
  shows "normalizeTaskVisualConfig cmp (Some (normalizeTaskVisualConfig cmp config schema)) schema
    = normalizeTaskVisualConfig cmp config schema"
proof (cases "config = None \<or> config = Some []")
  case True
  then have "normalizeTaskVisualConfig cmp config schema = createDefaultTaskVisualConfig cmp schema"
    by (auto simp: normalizeTaskVisualConfig_def)
  then show ?thesis using normal_default [OF assms] by simp
next
  case False
  then obtain ts where ts: "config = Some ts" "ts \<noteq> []" by auto
  let ?n = "normalize_tier (map fst (getTaskNumberFields cmp (Some schema)))
    (map (\<lambda>(field, d). (field, enum_values d)) (getTaskEnumFields cmp (Some schema)))"
  have "map ?n (enumerate 0 (map ?n (enumerate 0 ts))) = map ?n (enumerate 0 ts)"
    by (rule nth_equalityI) (simp_all add: nth_enumerate_eq normalize_tier_idem [OF set_number_fields(2) [OF assms]])
  moreover have "enumerate 0 ts \<noteq> []" using ts(2) by (cases ts) simp_all
  ultimately show ?thesis using ts by (simp add: normalizeTaskVisualConfig_def)
qed

text \<open>What a normal tier is: finite prices that are not negative for exactly the number fields, conditions on
  declared values only, and a label.\<close>

definition normal_tier :: "BillingUsageSchema \<Rightarrow> TaskVisualTier \<Rightarrow> bool" where
  "normal_tier schema t \<longleftrightarrow> vt_label t \<noteq> [] \<and> finite_price (vt_constant t) \<and>
     fst ` set (vt_unitPrices t) = number_fields schema \<and> (\<forall>p \<in> set (vt_unitPrices t). finite_price (snd p)) \<and>
     (\<forall>c \<in> set (vt_conditions t). \<exists>d. (kc_field c, d) \<in> set (enum_fields schema) \<and> kc_value c \<in> set (enum_values d))"

lemma finite_clamp: "finite_price (clamp_price x)"
  by (cases x) (auto simp: clamp_price_def finite_price_def zero_num_def js_le_def)

lemma normalize_tier_normal:
  assumes "distinct (map fst schema)"
  shows "normal_tier schema (normalize_tier (map fst (getTaskNumberFields cmp (Some schema)))
    (map (\<lambda>(field, d). (field, enum_values d)) (getTaskEnumFields cmp (Some schema))) (i, t))"
proof -
  let ?fs = "map fst (getTaskNumberFields cmp (Some schema))"
  have d: "distinct (map fst (map (\<lambda>f. (f, g f)) ?fs))" for g :: "jsstr \<Rightarrow> jsnum"
    using set_number_fields(2) [OF assms] by (simp add: o_def)
  have "set (fromEntries (map (\<lambda>f. (f, g f)) ?fs)) = (\<lambda>f. (f, g f)) ` number_fields schema" for g :: "jsstr \<Rightarrow> jsnum"
    unfolding fromEntries_distinct(3) [OF d] set_number_fields(1) [of cmp, symmetric] by (simp add: image_image)
  moreover have "\<exists>d. (kc_field c, d) \<in> set (enum_fields schema) \<and> kc_value c \<in> set (enum_values d)"
    if "case map_of (map (\<lambda>(field, d). (field, enum_values d)) (getTaskEnumFields cmp (Some schema))) (kc_field c) of
      Some vs \<Rightarrow> kc_value c \<in> set vs | None \<Rightarrow> False" for c
    using that set_enum_fields(1) [of cmp schema] by (auto split: option.splits dest!: map_of_SomeD)
  ultimately show ?thesis
    by (auto simp: normalize_tier_def normal_tier_def tier_name_def finite_clamp image_image simp del: map_map)
qed

section \<open>Previews\<close>

text \<open>A part of a preview: a fact of the sample with its price, both valid, and their product.\<close>

definition usage_ok :: "BillingUsageSchema option \<Rightarrow> (jsstr, jsval) js_map \<Rightarrow> TaskPart \<Rightarrow> bool" where
  "usage_ok schema sample p \<longleftrightarrow>
     (case p of
        Part_usage f a q u \<Rightarrow> q = fact_number (map_of sample f) \<and> finite_price q \<and> finite_price u \<and> isFinite a \<and>
          a = (if is_token_field schema f then js_div (js_mul q u) million else js_mul q u)
      | Part_constant _ \<Rightarrow> False)"

lemma usage_ok_usage [simp]:
  "usage_ok schema sample (Part_usage f a q u) \<longleftrightarrow> q = fact_number (map_of sample f) \<and> finite_price q \<and> finite_price u \<and>
     isFinite a \<and> a = (if is_token_field schema f then js_div (js_mul q u) million else js_mul q u)"
  by (simp add: usage_ok_def)

lemma usage_parts_ok:
  "usage_parts schema sample prices = Some parts \<Longrightarrow>
     list_all (usage_ok schema sample) parts \<and>
     map (\<lambda>p. (part_field p, part_unitPrice p)) parts = filter (\<lambda>(f, u). \<not> js_num_eq u zero_num) prices"
proof (induction schema sample prices arbitrary: parts rule: usage_parts.induct)
  case (2 schema sample field unitPrice prices)
  then show ?case by (auto simp: Let_def split: if_splits)
qed simp

lemma evaluate_compiled_success:
  "evaluate_compiled H c X = Eval_success s \<Longrightarrow> \<exists>k. c = Ready k \<and> evaluation_steps H k X = Inr s"
  by (cases c) (simp_all add: evaluate_compiled_def split: sum.splits)

lemma preview_sound:
  assumes "evaluateTaskVisualConfig H tiers sample schema = Some r"
  shows "matchedTier sample tiers = Some (pr_tier r) \<and> finite_price (pr_total r) \<and>
    (\<exists>parts. pr_parts r = (if js_lt zero_num (vt_constant (pr_tier r)) then [Part_constant (vt_constant (pr_tier r))] else []) @ parts \<and>
       list_all (usage_ok schema sample) parts \<and>
       map (\<lambda>p. (part_field p, part_unitPrice p)) parts
         = filter (\<lambda>(f, u). \<not> js_num_eq u zero_num) (vt_unitPrices (pr_tier r)))"
proof -
  obtain tier where t: "matchedTier sample tiers = Some tier"
    using assms by (cases "matchedTier sample tiers") (simp_all add: evaluateTaskVisualConfig_def)
  obtain parts where p: "usage_parts schema sample (vt_unitPrices tier) = Some parts"
    using assms t by (cases "usage_parts schema sample (vt_unitPrices tier)")
      (simp_all add: evaluateTaskVisualConfig_def split: if_splits)
  let ?parts = "(if js_lt zero_num (vt_constant tier) then [Part_constant (vt_constant tier)] else []) @ parts"
  obtain s where e: "\<exists>c X. evaluate_compiled H c X = Eval_success s"
    and r: "r = \<lparr>pr_tier = tier, pr_total = bs_cost s, pr_parts = ?parts\<rparr>"
  proof (cases "evaluate_compiled H (compile_source (preview_text schema tier ?parts))
      \<lparr>cx_imageCount = None, cx_tokens = None, cx_request = None, cx_usage = Some (fold part_usage ?parts sample), cx_now = None\<rparr>")
    case (Eval_failure f)
    then show thesis using assms t p by (simp add: evaluateTaskVisualConfig_def Let_def split: if_split_asm)
  next
    case (Eval_success s)
    then have "r = \<lparr>pr_tier = tier, pr_total = bs_cost s, pr_parts = ?parts\<rparr>"
      using assms t p unfolding evaluateTaskVisualConfig_def Let_def by (simp split: if_split_asm)
    then show thesis using that Eval_success by blast
  qed
  obtain c X where "evaluation_steps H c X = Inr s"
    using e evaluate_compiled_success by blast
  then have "finite_price (bs_cost s)" by (rule evaluation_steps_success) (simp add: finite_price_def)
  then show ?thesis using t usage_parts_ok [OF p] r by auto
qed

end
