(* ===== verification/Examples.thy ===== *)
theory Examples
  imports Tier_Props Condition_Props Breakdown_Match Task_Display_Props Visual_Props Billing_Props Task_Props
begin

text \<open>
  Concrete inputs on which the properties are instantiated: a short expression with its tree, a
  fixed-price expression, a host whose clock stands still and which knows no time zones, and a context.
\<close>

definition ex_src :: jsstr where
  "ex_src = js ''p*2''"

definition ex_ast :: ExpressionNode where
  "ex_ast = Binary (js ''*'') (Variable (js ''p'') 0 1) (Literal (LNum (Fin False 2)) True 2 3) 0 3"

lemma ex_parse: "parse ex_src = Inr ex_ast"
  by code_simp

lemma ex_height: "height ex_ast \<le> 256"
  by (simp add: ex_ast_def)

definition ex_compiled :: CompiledBillingExpression where
  "ex_compiled = \<lparr>compiled_source = ex_src, compiled_ast = ex_ast, compiled_variables = [js ''p''],
     compiled_functions = [], compiled_rules = []\<rparr>"

lemma ex_compile: "compile_steps ex_src = Inr ex_compiled"
  by code_simp

text \<open>A tier with a fixed price, as the parser builds it from \<open>tier('a',fixed(2))\<close>.\<close>

definition fx_ast :: ExpressionNode where
  "fx_ast = Call (js ''tier'') [Literal (LStr (js ''a'')) False 5 8,
     Call (js ''fixed'') [Literal (LNum (Fin False 2)) True 15 16] 9 17] 0 18"

definition ex_host :: host where
  "ex_host = \<lparr>host_now = 1700000000000, toLowerCase = id, date_time_format = (\<lambda>_. None)\<rparr>"

definition ex_context :: BillingSimulationContext where
  "ex_context = \<lparr>cx_imageCount = None, cx_tokens = Some [(js ''p'', JNum (Fin False 100))],
     cx_request = None, cx_usage = None, cx_now = None\<rparr>"

text \<open>The runtime object the constructor builds for a context without a request.\<close>

definition ex_rt :: rt where
  "ex_rt = \<lparr>rt_rules = [], rt_tier = [], rt_unit = Unit_token, rt_fixed = None,
     rt_now = Some 1700000000000, rt_times = [], rt_headers = []\<rparr>"

lemma ex_runtime_init: "runtime_init ex_host [] ex_context = Inr ex_rt"
  by code_simp

definition fx_src :: jsstr where
  "fx_src = 116 # 105 # 101 # 114 # 40 # 39 # 97 # 39 # 44 # js ''fixed(2))''"

definition fx_compiled :: CompiledBillingExpression where
  "fx_compiled = \<lparr>compiled_source = fx_src, compiled_ast = fx_ast, compiled_variables = [],
     compiled_functions = [js ''fixed'', js ''tier''], compiled_rules = []\<rparr>"

lemma fx_ready: "compile_source fx_src = Ready fx_compiled"
  by code_simp

lemma fx_uses_fixed: "js ''fixed'' \<in> set (compiled_functions fx_compiled)"
  by (simp add: fx_compiled_def)

lemma fx_init: "runtime_init ex_host (compiled_rules fx_compiled) ex_context = Inr ex_rt"
  by code_simp

lemma fx_evaluates:
  "evaluate ex_host (compiled_rules fx_compiled) ex_context 0 (compiled_ast fx_compiled) ex_rt
     = Inr (plain (JNum (Fin False 2000000)),
            ex_rt\<lparr>rt_unit := Unit_request, rt_fixed := Some (Fin False 2), rt_tier := js ''a''\<rparr>)"
  by code_simp

section \<open>Price tables\<close>

definition tier_call :: "jsstr \<Rightarrow> ExpressionNode \<Rightarrow> nat \<Rightarrow> nat \<Rightarrow> ExpressionNode" where
  "tier_call label body s e = Call (js ''tier'') [Literal (LStr label) False (s + 5) (s + 8), body] s e"

definition number_at :: "int \<Rightarrow> nat \<Rightarrow> nat \<Rightarrow> ExpressionNode" where
  "number_at k s e = Literal (LNum (Fin False (of_int k))) True s e"

text \<open>\<open>p > 50 ? tier('a', p * 2) : tier('b', p * 3)\<close>.\<close>

definition dx_ast :: ExpressionNode where
  "dx_ast = Conditional (Binary (js ''>'') (Variable (js ''p'') 0 1) (number_at 50 4 6) 0 6)
     (tier_call (js ''a'') (Binary (js ''*'') (Variable (js ''p'') 19 20) (number_at 2 23 24) 19 24) 9 25)
     (tier_call (js ''b'') (Binary (js ''*'') (Variable (js ''p'') 38 39) (number_at 3 42 43) 38 43) 28 44) 0 44"

definition dx_tiers :: "TokenTier list" where
  "dx_tiers = [plain_tier (js ''a'') [\<lparr>tc_var = js ''p'', tc_op = js ''>'', tc_value = Fin False 50\<rparr>] [(js ''p'', Fin False 2)],
     plain_tier (js ''b'') [] [(js ''p'', Fin False 3)]]"

lemma dx_read: "readTokenTierChain dx_ast = Some dx_tiers"
  by code_simp

lemma dx_evaluates: "evaluate ex_host [] ex_context 0 dx_ast ex_rt = Inr (plain (JNum (Fin False 200)), ex_rt\<lparr>rt_tier := js ''a''\<rparr>)"
  by code_simp

text \<open>The same tiers chosen by the hour instead.\<close>

definition tx_condition :: ExpressionNode where
  "tx_condition = Binary (js ''>'') (Call (js ''hour'') [Literal (LStr (js ''UTC'')) False 5 10] 0 11) (number_at 8 14 15) 0 15"

definition tx_ast :: ExpressionNode where
  "tx_ast = (case dx_ast of Conditional _ y n s e \<Rightarrow> Conditional tx_condition y n s e | node \<Rightarrow> node)"

lemma tx_read: "case timeTierBranches [] tx_ast [] of Inr (Some tiers) \<Rightarrow>
    map tm_conditions tiers = [[(tx_condition, True)], [(tx_condition, False)]] | _ \<Rightarrow> False"
  by code_simp

text \<open>\<open>tier('a', u('seconds') * 2)\<close> for a schema that declares the seconds.\<close>

definition seconds_field :: UsageField where
  "seconds_field = \<lparr>uf_type = Some Field_number, uf_unit = Some (js ''second''), uf_unitLabel = None, uf_enum = None,
     uf_enumLabels = None, uf_description = None\<rparr>"

definition size_field :: UsageField where
  "size_field = \<lparr>uf_type = None, uf_unit = None, uf_unitLabel = None, uf_enum = Some [js ''s'', js ''m''],
     uf_enumLabels = None, uf_description = None\<rparr>"

definition kx_schema :: BillingUsageSchema where
  "kx_schema = [(js ''seconds'', seconds_field)]"

definition kx_ast :: ExpressionNode where
  "kx_ast = tier_call (js ''a'') (Binary (js ''*'') (Call (js ''u'') [Literal (LStr (js ''seconds'')) False 12 21] 10 22)
     (number_at 2 25 26) 10 26) 0 27"

definition kx_tiers :: "TaskTier list" where
  "kx_tiers = [\<lparr>kt_conditionText = None, kt_label = js ''a'', kt_conditions = [], kt_constant = zero_num,
     kt_unitPrices = [(js ''seconds'', Fin False 2)]\<rparr>]"

lemma kx_read: "readTaskTierChain kx_ast kx_schema True = Some kx_tiers"
  by code_simp

section \<open>Visual documents\<close>

text \<open>\<open>tier('a',p*2)\<close>.\<close>

definition vx_src :: jsstr where
  "vx_src = 116 # 105 # 101 # 114 # 40 # 39 # 97 # 39 # 44 # js ''p*2)''"

lemma vx_parses: "case parseVisualBillingDocument ex_host vx_src [] of Some _ \<Rightarrow> True | None \<Rightarrow> False"
  by code_simp

section \<open>Request rules\<close>

text \<open>A rule for the night, and one whose hour is out of range.\<close>

definition rx_night :: RequestRuleGroup where
  "rx_night = plain_group [Time \<lparr>ti_timeFunc = js ''hour'', ti_timezone = js ''UTC'', ti_mode = MATCH_RANGE, ti_value = [],
     ti_rangeStart = js ''21'', ti_rangeEnd = js ''6''\<rparr>] (js ''0.5'')"

definition rx_rules :: "RequestRuleGroup list" where
  "rx_rules = [rx_night, plain_group [Time (createEmptyTimeCondition\<lparr>ti_value := js ''24''\<rparr>)] (js ''2'')]"

definition rx_price :: jsstr where
  "rx_price = js ''tier('' @ [34, 97, 34] @ js '', p * 2)''"

definition rx_expr :: jsstr where
  "rx_expr = js ''('' @ rx_price @ js '') * (hour('' @ [34, 85, 84, 67, 34] @ js '') < 6 ? 0.5 : 1)''"

lemma rx_splits: "case splitBillingExprAndRequestRules rx_expr of Inr (price, rules) \<Rightarrow> rules \<noteq> [] | Inl _ \<Rightarrow> False"
  by code_simp

section \<open>Task prices\<close>

text \<open>A task with one enumerated fact and a duration, and a price for each value of the fact.\<close>

definition mx_order :: comparison where
  "mx_order a b = int (length a) - int (length b)"

definition mx_schema :: BillingUsageSchema where
  "mx_schema = [(js ''size'', size_field),
     (js ''seconds'', seconds_field)]"

definition mx_row :: "jsstr \<Rightarrow> int \<Rightarrow> TaskMatrixRow" where
  "mx_row v price = \<lparr>mr_combination = [(js ''size'', v)], mr_constant = zero_num,
     mr_unitPrices = [(js ''seconds'', Fin False (of_int price))]\<rparr>"

definition mx_rows :: TaskMatrixConfig where
  "mx_rows = [mx_row (js ''s'') 2, mx_row (js ''m'') 3]"

definition mx_sample :: "(jsstr, jsval) js_map" where
  "mx_sample = [(js ''size'', JStr (js ''m'')), (js ''seconds'', JNum (Fin False 10))]"

lemma mx_canonical: "canonical mx_order mx_schema mx_rows"
  by code_simp

lemma mx_schema_ok: "distinct (map fst mx_schema) \<and> distinct_enums mx_schema \<and> number_fields mx_schema \<noteq> {}"
  by code_simp

lemma mx_preview: "case evaluateTaskVisualConfig ex_host (taskMatrixToTiers mx_order mx_rows mx_schema) mx_sample (Some mx_schema) of
    Some r \<Rightarrow> pr_total r = Fin False 30 | None \<Rightarrow> False"
  by code_simp

section \<open>Conditional task tables\<close>

text \<open>\<open>hour('UTC')>8?tier('a',u('seconds')):tier('b',2)\<close>.\<close>

definition cx_src :: jsstr where
  "cx_src = js ''hour('' @ [34] @ js ''UTC'' @ [34] @ js '')>8?tier('' @ [34, 97, 34] @ js '',u('' @ [34] @ js ''seconds'' @ [34] @
     js '')):tier('' @ [34, 98, 34] @ js '',2)''"

lemma cx_read: "case readConditionalTaskPricing cx_src kx_schema of Inr (Some ts) \<Rightarrow> length ts = 2 | _ \<Rightarrow> False"
  by code_simp

text \<open>Tasks of size \<open>s\<close> have a price by the hour, the others one price:
  \<open>u('size') == 's' ? (hour('UTC') > 8 ? tier('a', u('seconds')) : tier('b', 2)) : tier('c', 3)\<close>.\<close>

definition cx_condition :: ExpressionNode where
  "cx_condition = Binary (js ''=='') (Call (js ''u'') [Literal (LStr (js ''size'')) False 2 8] 0 9)
     (Literal (LStr (js ''s'')) False 13 16) 0 16"

definition cx_ast :: ExpressionNode where
  "cx_ast = Conditional cx_condition
     (Conditional tx_condition (tier_call (js ''a'') (Call (js ''u'') [Literal (LStr (js ''seconds'')) False 53 62] 51 63) 40 64)
        (tier_call (js ''b'') (number_at 2 78 79) 67 80) 20 81)
     (tier_call (js ''c'') (number_at 3 95 96) 84 97) 0 97"

definition cx_facts :: TaskDisplayContext where
  "cx_facts = \<lparr>dc_source = cx_src, dc_schema = mx_schema, dc_facts = [(js ''size'', LStr (js ''s''))]\<rparr>"

definition cx_branches :: "PriceBranch list" where
  "cx_branches = (case taskPriceBranches cx_facts cx_ast 100 of Some (bs, _) \<Rightarrow> bs | None \<Rightarrow> [])"

lemma cx_branches: "taskPriceBranches cx_facts cx_ast 100 = Some (cx_branches, 92)" "length cx_branches = 2"
  by code_simp+

text \<open>A task of size \<open>s\<close>.\<close>

definition cx_context :: BillingSimulationContext where
  "cx_context = ex_context\<lparr>cx_usage := Some [(js ''size'', JStr (js ''s'')), (js ''seconds'', JNum (Fin False 10))]\<rparr>"

lemma cx_known: "taskDisplayCondition cx_facts cx_condition 100 = Some (Known True, 99)"
  by code_simp

lemma cx_holds: "facts_hold cx_facts cx_context"
  by (auto simp: facts_hold_def cx_facts_def cx_context_def declared_fact_def mx_schema_def seconds_field_def size_field_def field_values_def
      split: if_splits)

lemma cx_evaluates: "evaluate ex_host [] cx_context 0 cx_condition ex_rt = Inr (plain (JBool True), ex_rt)"
  by code_simp

section \<open>Shown conditions\<close>

text \<open>\<open>hour('UTC') >= 18 && hour('UTC') < 24\<close>.\<close>

definition hour_comparison :: "jsstr \<Rightarrow> int \<Rightarrow> nat \<Rightarrow> ExpressionNode" where
  "hour_comparison operator k s =
     Binary operator (Call (js ''hour'') [Literal (LStr (js ''UTC'')) False (s + 5) (s + 10)] s (s + 11)) (number_at k (s + 15) (s + 17)) s (s + 17)"

definition hx_ast :: ExpressionNode where
  "hx_ast = Binary (js ''&&'') (hour_comparison (js ''>='') 18 0) (hour_comparison (js ''<'') 24 21) 0 38"

definition hx_ranges :: "TimeComparison list" where
  "hx_ranges = [\<lparr>cp_name = js ''hour'', cp_timezone = js ''UTC'', cp_operator = js ''>='', cp_value = Fin False 18\<rparr>,
     \<lparr>cp_name = js ''hour'', cp_timezone = js ''UTC'', cp_operator = js ''<'', cp_value = Fin False 24\<rparr>]"

lemma hx_read: "mapO timeComparison (flattenBinary (js ''&&'') hx_ast) = Some hx_ranges"
  by code_simp

lemma hx_clock: "clock_at ex_host (Some 1700000000000) ex_rt"
  by (simp add: clock_at_def ex_rt_def times.valid_def)

lemma hx_evaluates: "case evaluate ex_host [] ex_context 0 hx_ast ex_rt of Inr (v, _) \<Rightarrow> rv_value v = JBool True | Inl _ \<Rightarrow> False"
  by code_simp

lemma hx_time: "case timeInBillingZone ex_host (Some 1700000000000) (js ''UTC'') of
    Inr vals \<Rightarrow> time_field (js ''hour'') vals = Fin False (of_int 22) | Inl _ \<Rightarrow> False"
  by code_simp

text \<open>\<open>u('z')=='s'?tier('a',u('n')*2):tier('b',u('n')*3)\<close>: the fallback is for the other value.\<close>

definition gx_schema :: BillingUsageSchema where
  "gx_schema = [(js ''z'', size_field),
     (js ''n'', seconds_field)]"

definition gx_src :: jsstr where
  "gx_src = js ''u('' @ [34, 122, 34] @ js '')=='' @ [34, 115, 34] @ js ''?tier('' @ [34, 97, 34] @ js '',u('' @ [34, 110, 34] @ js '')*2):tier('' @
     [34, 98, 34] @ js '',u('' @ [34, 110, 34] @ js '')*3)''"

definition gx_tiers :: "TaskTier list" where
  "gx_tiers =
     [\<lparr>kt_conditionText = None, kt_label = js ''a'', kt_conditions = [condition_on (js ''z'') (js ''s'')],
       kt_constant = zero_num, kt_unitPrices = [(js ''n'', Fin False 2)]\<rparr>,
      \<lparr>kt_conditionText = None, kt_label = js ''b'', kt_conditions = [], kt_constant = zero_num,
       kt_unitPrices = [(js ''n'', Fin False 3)]\<rparr>]"

lemma gx_read: "parseTaskTiersFromExpr gx_src (Some gx_schema) True = Inr gx_tiers"
  by code_simp

lemma gx_named: "name_fallback gx_schema gx_tiers =
    [hd gx_tiers, (last gx_tiers)\<lparr>kt_conditions := [condition_on (js ''z'') (js ''m'')]\<rparr>]"
  by code_simp

lemma gx_facts: "list_all (\<lambda>f. js ''m'' \<in> set (fact_values gx_schema f)) (condition_fields (butlast gx_tiers))"
  by code_simp

section \<open>Token tiers\<close>

text \<open>\<open>len > 200000 ? tier('long', p * 4 + c * 8) : tier('base', p * 2 + c * 4)\<close> as tiers of the editor; the last one has a
  condition that is not written.\<close>

definition base_tier :: "jsstr \<Rightarrow> TierConditionInput list \<Rightarrow> jsnum \<Rightarrow> jsnum \<Rightarrow> VisualTier" where
  "base_tier label conditions ic oc =
     normalizeVisualTier \<lparr>px_billing_unit = None, px_fixed_price = None, px_label = Some label, px_conditions = Some conditions,
       px_cache_mode = None, px_costs = [INPUT_COST \<mapsto> ic, OUTPUT_COST \<mapsto> oc]\<rparr>"

lemma base_tier_normal:
  assumes "label \<noteq> []" "34 \<notin> set label" "list_all valid_condition conditions" "valid_cost ic" "valid_cost oc"
  shows "editor_tier (base_tier label conditions ic oc)"
proof -
  let ?t = "base_tier label conditions ic oc"
  have costs: "xt_costs ?t field = (if field \<in> set NORMAL_COSTS then Some zero_num
      else if field = OUTPUT_COST then Some oc else if field = INPUT_COST then Some ic else None)" for field
    using cost_map_facts(8,9) by (auto simp: base_tier_def normalizeVisualTier_def normal_cost_def cost_or_zero_def)
  have timed: "TIMED_COST \<noteq> INPUT_COST" "TIMED_COST \<noteq> OUTPUT_COST" using cost_map_facts(7,8,9) by auto
  have mode: "xt_cache_mode ?t = getTierCacheMode ((as_partial ?t)\<lparr>px_cache_mode := None\<rparr>)"
    using costs [of TIMED_COST] cost_map_facts(7) timed
    by (simp add: getTierCacheMode_def as_partial_def) (simp add: base_tier_def normalizeVisualTier_def getTierCacheMode_def zero_num_def)
  have "case xt_costs ?t field of
      Some x \<Rightarrow> field \<in> set (INPUT_COST # OUTPUT_COST # map fst BILLING_CACHE_VAR_MAP) \<and> valid_cost x \<and>
        (field \<notin> set (INPUT_COST # OUTPUT_COST # NORMAL_COSTS) \<longrightarrow> x \<noteq> zero_num)
    | None \<Rightarrow> field \<notin> set (INPUT_COST # OUTPUT_COST # NORMAL_COSTS)" for field
    using assms(4,5) valid_cost_or_zero(3) cost_map_facts(6) by (auto simp: costs list_all_iff)
  then show ?thesis using assms mode unfolding editor_tier_def by (simp add: base_tier_def normalizeVisualTier_def)
qed

definition lx_config :: VisualConfig where
  "lx_config = [base_tier (js ''long'') [\<lparr>ti_var = js ''len'', ti_op = js ''>'', ti_bound = Value_number (Fin False 200000)\<rparr>]
       (Fin False 4) (Fin False 8), base_tier (js ''base'') [\<lparr>ti_var = js ''p'', ti_op = js ''<='', ti_bound = Value_number (Fin False 100)\<rparr>]
       (Fin False 2) (Fin False 4)]"

lemma valid_cost_numeral: "numeral n \<le> (9007199254740992 :: rat) \<Longrightarrow> valid_cost (Fin False (numeral n))"
  by (simp add: valid_cost_def mk_num_numeral)

lemma lx_draft: "editor_draft lx_config"
proof -
  have "num_to_string (Fin False 200000) = js ''200000''" "num_to_string (Fin False 100) = js ''100''" by code_simp+
  then have "editor_tier t" if "t \<in> set lx_config" for t
    using that by (auto simp: lx_config_def valid_condition_def valid_cost_numeral intro!: base_tier_normal)
  then show ?thesis by (auto simp: editor_draft_def list_all_iff lx_config_def base_tier_def normalizeVisualTier_def)
qed

end
