(* ===== verification/Currency.thy ===== *)
theory Currency
  imports Display JS_Regex
begin

text \<open>
  Amounts of money as the pages show them (\<^verbatim>\<open>lib/currency.ts\<close> with the configuration of
  \<^verbatim>\<open>stores/system-config-store.ts\<close>). The stored configuration, \<open>Intl.NumberFormat\<close> and \<open>Math.pow(10, -digits)\<close>
  are parameters: the language leaves the formatter and the accuracy of the power to its environment.
  Numbers of digits are integers.
\<close>

section \<open>Configuration\<close>

record CurrencyConfig =
  cc_displayInCurrency :: bool
  cc_quotaDisplayType :: jsstr
  cc_quotaPerUnit :: jsnum
  cc_usdExchangeRate :: jsnum
  cc_customCurrencySymbol :: jsstr
  cc_customCurrencyExchangeRate :: jsnum

definition DEFAULT_CURRENCY_CONFIG :: CurrencyConfig where
  "DEFAULT_CURRENCY_CONFIG =
     \<lparr>cc_displayInCurrency = True, cc_quotaDisplayType = js ''USD'', cc_quotaPerUnit = Fin False 500000,
      cc_usdExchangeRate = Fin False 1, cc_customCurrencySymbol = [164], cc_customCurrencyExchangeRate = Fin False 1\<rparr>"

record NumberFormat =
  nf_locale :: "jsstr option"
  nf_currency :: "jsstr option"
  nf_compact :: bool
  nf_minimumFractionDigits :: "int option"
  nf_maximumFractionDigits :: int

record currency_host =
  ch_currency :: "CurrencyConfig option"
  ch_format :: "NumberFormat \<Rightarrow> jsnum \<Rightarrow> exn + jsstr"
  ch_pow10 :: "int \<Rightarrow> jsnum"

record CurrencyFormatOptions =
  fo_digitsLarge :: "int option"
  fo_digitsSmall :: "int option"
  fo_abbreviate :: "bool option"
  fo_minimumNonZero :: "jsnum option"
  fo_compact :: "bool option"
  fo_showSymbol :: "bool option"
  fo_locale :: "jsstr option"

record ResolvedCurrencyFormatOptions =
  ro_digitsLarge :: int
  ro_digitsSmall :: int
  ro_abbreviate :: bool
  ro_minimumNonZero :: jsnum
  ro_compact :: bool
  ro_showSymbol :: bool
  ro_locale :: "jsstr option"

datatype DisplayMeta =
    Meta_currency (meta_symbol: jsstr) (meta_code: jsstr) (meta_rate: jsnum)
  | Meta_custom (meta_symbol: jsstr) (meta_rate: jsnum)
  | Meta_tokens (meta_quotaPerUnit: jsnum)

definition DEFAULT_FORMAT_OPTIONS :: ResolvedCurrencyFormatOptions where
  "DEFAULT_FORMAT_OPTIONS =
     \<lparr>ro_digitsLarge = 2, ro_digitsSmall = 4, ro_abbreviate = True, ro_minimumNonZero = Fin False 0, ro_compact = False,
      ro_showSymbol = True, ro_locale = None\<rparr>"

definition DISPLAY_TYPE_VALUES :: "jsstr list" where
  "DISPLAY_TYPE_VALUES = [js ''USD'', js ''CNY'', js ''TOKENS'', js ''CUSTOM'']"

definition isCurrencyDisplayType :: "jsval \<Rightarrow> bool" where
  "isCurrencyDisplayType v = (case v of JStr s \<Rightarrow> s \<in> set DISPLAY_TYPE_VALUES | _ \<Rightarrow> False)"

definition parseCurrencyDisplayType :: "jsval \<Rightarrow> jsstr \<Rightarrow> jsstr" where
  "parseCurrencyDisplayType v fallback =
     (case v of JStr s \<Rightarrow> if isCurrencyDisplayType v then s else fallback | _ \<Rightarrow> fallback)"

definition positive_or :: "jsnum \<Rightarrow> jsnum \<Rightarrow> jsnum" where
  "positive_or x d = (if js_lt (Fin False 0) x then x else d)"

definition getConfig :: "currency_host \<Rightarrow> CurrencyConfig" where
  "getConfig C =
     (let currency = (case ch_currency C of Some c \<Rightarrow> c | None \<Rightarrow> DEFAULT_CURRENCY_CONFIG);
          symbol = trim (cc_customCurrencySymbol currency)
      in currency\<lparr>
           cc_quotaPerUnit := positive_or (cc_quotaPerUnit currency) (cc_quotaPerUnit DEFAULT_CURRENCY_CONFIG),
           cc_usdExchangeRate := positive_or (cc_usdExchangeRate currency) (cc_usdExchangeRate DEFAULT_CURRENCY_CONFIG),
           cc_customCurrencyExchangeRate :=
             positive_or (cc_customCurrencyExchangeRate currency) (cc_customCurrencyExchangeRate DEFAULT_CURRENCY_CONFIG),
           cc_customCurrencySymbol := (if symbol \<noteq> [] then symbol else cc_customCurrencySymbol DEFAULT_CURRENCY_CONFIG)\<rparr>)"

definition usd_meta :: DisplayMeta where
  "usd_meta = Meta_currency [36] (js ''USD'') (Fin False 1)"

definition getDisplayMeta :: "CurrencyConfig \<Rightarrow> DisplayMeta" where
  "getDisplayMeta config =
     (if cc_quotaDisplayType config = js ''CNY'' then Meta_currency [165] (js ''CNY'') (cc_usdExchangeRate config)
      else if cc_quotaDisplayType config = js ''CUSTOM''
        then Meta_custom (cc_customCurrencySymbol config) (cc_customCurrencyExchangeRate config)
      else if cc_quotaDisplayType config = js ''TOKENS'' then Meta_tokens (cc_quotaPerUnit config)
      else usd_meta)"

definition getBillingDisplayMeta :: "CurrencyConfig \<Rightarrow> DisplayMeta" where
  "getBillingDisplayMeta config =
     (case getDisplayMeta config of Meta_tokens _ \<Rightarrow> usd_meta | meta \<Rightarrow> meta)"

definition or_default :: "'a option \<Rightarrow> 'a \<Rightarrow> 'a" where
  "or_default v d = (case v of Some x \<Rightarrow> x | None \<Rightarrow> d)"

definition mergeOptions :: "CurrencyFormatOptions option \<Rightarrow> ResolvedCurrencyFormatOptions" where
  "mergeOptions options =
     (case options of
        None \<Rightarrow> DEFAULT_FORMAT_OPTIONS
      | Some opts \<Rightarrow>
          \<lparr>ro_digitsLarge = or_default (fo_digitsLarge opts) (ro_digitsLarge DEFAULT_FORMAT_OPTIONS),
           ro_digitsSmall = or_default (fo_digitsSmall opts) (ro_digitsSmall DEFAULT_FORMAT_OPTIONS),
           ro_abbreviate = or_default (fo_abbreviate opts) (ro_abbreviate DEFAULT_FORMAT_OPTIONS),
           ro_minimumNonZero = or_default (fo_minimumNonZero opts) (ro_minimumNonZero DEFAULT_FORMAT_OPTIONS),
           ro_compact = or_default (fo_compact opts) (ro_compact DEFAULT_FORMAT_OPTIONS),
           ro_showSymbol = or_default (fo_showSymbol opts) (ro_showSymbol DEFAULT_FORMAT_OPTIONS),
           ro_locale = (case fo_locale opts of Some l \<Rightarrow> Some l | None \<Rightarrow> ro_locale DEFAULT_FORMAT_OPTIONS)\<rparr>)"

section \<open>Numbers with a fixed number of digits\<close>

text \<open>
  \<open>x.toFixed(digits)\<close>: the integer \<open>n\<close> for which \<open>n / 10 ^ digits\<close> is closest to \<open>x\<close>, the larger one of two.
\<close>

definition fixed_digits :: "rat \<Rightarrow> nat \<Rightarrow> jsstr" where
  "fixed_digits m f =
     (let n = \<lfloor>m * 10 ^ f + 1 / 2\<rfloor>; ds = digits_of n; padded = replicate (Suc f - length ds) 48 @ ds
      in if f = 0 then ds
         else take (length padded - f) padded @ 46 # drop (length padded - f) padded)"

definition js_toFixed :: "jsnum \<Rightarrow> int \<Rightarrow> exn + jsstr" where
  "js_toFixed x digits =
     (if digits < 0 \<or> 100 < digits then Inl (HostError (js ''toFixed() digits argument must be between 0 and 100''))
      else
        Inr (case x of
               Fin s m \<Rightarrow>
                 if 10 ^ 21 \<le> m then num_to_string x
                 else (if s \<and> m \<noteq> 0 then [45] else []) @ fixed_digits m (nat digits)
             | _ \<Rightarrow> num_to_string x))"

definition getFractionDigits :: "jsnum \<Rightarrow> int \<Rightarrow> int \<Rightarrow> int" where
  "getFractionDigits x digitsLarge digitsSmall = (if js_le (Fin False 1) (js_abs x) then digitsLarge else digitsSmall)"

definition getCurrencyFractionDigits :: "jsnum \<Rightarrow> CurrencyFormatOptions option \<Rightarrow> int" where
  "getCurrencyFractionDigits x options =
     (let merged = mergeOptions options in getFractionDigits x (ro_digitsLarge merged) (ro_digitsSmall merged))"

text \<open>\<open>text.replace(regex, replacement)\<close> with the groups of the first match.\<close>

fun re_replace :: "regex \<Rightarrow> (captures \<Rightarrow> jsstr) \<Rightarrow> jsstr \<Rightarrow> jsstr" where
  "re_replace r f [] = (case first_match r [] of Some (t, c) \<Rightarrow> f c @ t | None \<Rightarrow> [])"
| "re_replace r f (x # s) = (case first_match r (x # s) of Some (t, c) \<Rightarrow> f c @ t | None \<Rightarrow> x # re_replace r f s)"

text \<open>\<open>(\.[0-9]*?)0+$\<close> and \<open>\.$\<close>.\<close>

definition trailing_zeros_re :: regex where
  "trailing_zeros_re =
     re_list [Re_group 1 (re_list [Re_char (\<lambda>x. x = 46), Re_lazy (Re_char is_digit)]), re_plus (Re_char (\<lambda>x. x = 48)), Re_end]"

definition trailing_point_re :: regex where
  "trailing_point_re = re_list [Re_char (\<lambda>x. x = 46), Re_end]"

definition removeTrailingZeros :: "jsstr \<Rightarrow> jsstr" where
  "removeTrailingZeros s =
     (if 46 \<notin> set s then s
      else re_replace trailing_point_re (\<lambda>_. [])
             (re_replace trailing_zeros_re (\<lambda>c. case capture c 1 of Some w \<Rightarrow> w | None \<Rightarrow> []) s))"

definition formatNumberWithSuffix :: "jsnum \<Rightarrow> int \<Rightarrow> int \<Rightarrow> bool \<Rightarrow> exn + jsstr" where
  "formatNumberWithSuffix x digitsLarge digitsSmall abbreviate =
     (if abbreviate \<and> js_le (Fin False 1000) (js_abs x)
      then bindR (js_toFixed (js_div x (Fin False 1000)) 1) (\<lambda>s. Inr (removeTrailingZeros s @ js ''k''))
      else bindR (js_toFixed x (getFractionDigits x digitsLarge digitsSmall)) (\<lambda>s. Inr (removeTrailingZeros s)))"

section \<open>Amounts\<close>

definition adjustForMinimum :: "currency_host \<Rightarrow> jsnum \<Rightarrow> int \<Rightarrow> jsnum \<Rightarrow> jsnum" where
  "adjustForMinimum C x digits minimumNonZero =
     (if js_num_eq x (Fin False 0) then x
      else
        (let threshold = (if js_lt (Fin False 0) minimumNonZero then minimumNonZero else ch_pow10 C digits);
             a = js_abs x
         in if js_lt (Fin False 0) a \<and> js_lt a threshold
            then (if js_lt (Fin False 0) x then threshold else js_neg threshold)
            else x))"

definition compact_format :: "ResolvedCurrencyFormatOptions \<Rightarrow> NumberFormat" where
  "compact_format options =
     \<lparr>nf_locale = ro_locale options, nf_currency = None, nf_compact = True, nf_minimumFractionDigits = None,
      nf_maximumFractionDigits = 1\<rparr>"

definition amount_format :: "ResolvedCurrencyFormatOptions \<Rightarrow> jsstr option \<Rightarrow> int \<Rightarrow> NumberFormat" where
  "amount_format options code digits =
     \<lparr>nf_locale = ro_locale options, nf_currency = code, nf_compact = ro_compact options, nf_minimumFractionDigits = Some 0,
      nf_maximumFractionDigits = (if ro_compact options then 1 else digits)\<rparr>"

definition formatCurrencyValue :: "currency_host \<Rightarrow> jsnum \<Rightarrow> ResolvedCurrencyFormatOptions \<Rightarrow> DisplayMeta \<Rightarrow> exn + jsstr" where
  "formatCurrencyValue C x options meta =
     (let digits = getFractionDigits x (ro_digitsLarge options) (ro_digitsSmall options);
          adjusted = adjustForMinimum C x digits (ro_minimumNonZero options)
      in case meta of
           Meta_tokens _ \<Rightarrow>
             if ro_compact options then ch_format C (compact_format options) x
             else formatNumberWithSuffix x (ro_digitsLarge options) (ro_digitsSmall options) (ro_abbreviate options)
         | Meta_currency _ code _ \<Rightarrow>
             ch_format C (amount_format options (if ro_showSymbol options then Some code else None) digits) adjusted
         | Meta_custom symbol _ \<Rightarrow>
             bindR (ch_format C (amount_format options None digits) adjusted) (\<lambda>decimal.
               Inr (if ro_showSymbol options then symbol @ js '' '' @ decimal else decimal)))"

definition getCurrencyDisplay :: "currency_host \<Rightarrow> CurrencyConfig \<times> DisplayMeta" where
  "getCurrencyDisplay C = (let config = getConfig C in (config, getDisplayMeta config))"

definition formatCurrencyFromUSD :: "currency_host \<Rightarrow> jsnum option \<Rightarrow> CurrencyFormatOptions option \<Rightarrow> exn + jsstr" where
  "formatCurrencyFromUSD C amountUSD options =
     (case amountUSD of
        None \<Rightarrow> Inr (js ''-'')
      | Some amountUSD \<Rightarrow>
          if amountUSD = NaN then Inr (js ''-'')
          else
            (let (config, meta) = getCurrencyDisplay C; merged = mergeOptions options
             in case meta of
                  Meta_tokens _ \<Rightarrow>
                    (let tokens = js_mul amountUSD (cc_quotaPerUnit config)
                     in if ro_compact merged then ch_format C (compact_format merged) tokens
                        else formatNumberWithSuffix tokens 0 (ro_digitsSmall merged) (ro_abbreviate merged))
                | _ \<Rightarrow> formatCurrencyValue C (js_mul amountUSD (meta_rate meta)) merged meta))"

definition formatBillingCurrencyFromUSD :: "currency_host \<Rightarrow> jsnum option \<Rightarrow> CurrencyFormatOptions option \<Rightarrow> exn + jsstr" where
  "formatBillingCurrencyFromUSD C amountUSD options =
     (case amountUSD of
        None \<Rightarrow> Inr (js ''-'')
      | Some amountUSD \<Rightarrow>
          if amountUSD = NaN then Inr (js ''-'')
          else
            (let (config, _) = getCurrencyDisplay C; meta = getBillingDisplayMeta config; merged = mergeOptions options;
                 v = (case meta of Meta_tokens _ \<Rightarrow> amountUSD | _ \<Rightarrow> js_mul amountUSD (meta_rate meta))
             in formatCurrencyValue C v merged meta))"

definition formatQuotaWithCurrency :: "currency_host \<Rightarrow> jsnum option \<Rightarrow> CurrencyFormatOptions option \<Rightarrow> exn + jsstr" where
  "formatQuotaWithCurrency C quota options =
     (case quota of
        None \<Rightarrow> Inr (js ''-'')
      | Some quota \<Rightarrow>
          if quota = NaN then Inr (js ''-'')
          else
            (let (config, _) = getCurrencyDisplay C
             in formatCurrencyFromUSD C (Some (js_div quota (cc_quotaPerUnit config))) options))"

definition getCurrencyLabel :: "currency_host \<Rightarrow> jsstr" where
  "getCurrencyLabel C =
     (let (config, meta) = getCurrencyDisplay C
      in case meta of
           Meta_tokens _ \<Rightarrow> js ''Tokens''
         | _ \<Rightarrow>
             if cc_quotaDisplayType config = js ''CNY'' then js ''CNY''
             else if cc_quotaDisplayType config = js ''CUSTOM''
               then (case meta of Meta_custom symbol _ \<Rightarrow> symbol | _ \<Rightarrow> js ''Custom'')
             else js ''USD'')"

definition isCurrencyDisplayEnabled :: "currency_host \<Rightarrow> bool" where
  "isCurrencyDisplayEnabled C =
     (let (_, meta) = getCurrencyDisplay C in case meta of Meta_tokens _ \<Rightarrow> False | _ \<Rightarrow> True)"

definition formatLocalCurrencyAmount :: "currency_host \<Rightarrow> jsnum option \<Rightarrow> CurrencyFormatOptions option \<Rightarrow> exn + jsstr" where
  "formatLocalCurrencyAmount C amount options =
     (case amount of
        None \<Rightarrow> Inr (js ''-'')
      | Some amount \<Rightarrow>
          if amount = NaN then Inr (js ''-'')
          else
            (let (config, _) = getCurrencyDisplay C
             in formatCurrencyValue C amount (mergeOptions options) (getBillingDisplayMeta config)))"

end
