(* ===== verification/Model_Helpers.thy ===== *)
theory Model_Helpers
  imports Currency Task_Matrix_Display
begin

text \<open>
  Models as the pricing pages receive them (\<^verbatim>\<open>features/pricing/types.ts\<close>), with the helpers that choose a
  group ratio (\<^verbatim>\<open>model-helpers.ts\<close>, \<^verbatim>\<open>lib/auto-groups.ts\<close>), the prices of providers
  (\<^verbatim>\<open>plugin-pricing.ts\<close>) and the prices of models without expressions (\<^verbatim>\<open>price.ts\<close>). The record of a
  model has the properties that this code reads; a property that may be missing is an option. Objects used as
  tables have their own properties only: a key that every object inherits is not looked up.
\<close>

section \<open>Models\<close>

record BillingPluginVariant =
  bp_plugin_key :: jsstr
  bp_billing_expr :: jsstr
  bp_billing_mode :: "jsstr option"
  bp_billing_usage_schema :: BillingUsageSchema
  bp_billing_usage_examples :: "UsageExample list option"

record PricingModel =
  pm_billing_plugin_variants :: "BillingPluginVariant list option"
  pm_model_name :: "jsstr option"
  pm_description :: "jsstr option"
  pm_vendor_name :: "jsstr option"
  pm_quota_type :: jsnum
  pm_pricing_configured :: "bool option"
  pm_model_ratio :: jsnum
  pm_completion_ratio :: jsnum
  pm_model_price :: "jsnum option"
  pm_cache_ratio :: "jsnum option"
  pm_create_cache_ratio :: "jsnum option"
  pm_image_ratio :: "jsnum option"
  pm_audio_ratio :: "jsnum option"
  pm_audio_completion_ratio :: "jsnum option"
  pm_enable_groups :: "jsstr list option"
  pm_tags :: "jsstr option"
  pm_supported_endpoint_types :: "jsstr list option"
  pm_group_ratio :: "(jsstr, jsnum) js_map option"
  pm_billing_mode :: "jsstr option"
  pm_billing_expr :: "jsstr option"
  pm_billing_usage_schema :: "BillingUsageSchema option"
  pm_billing_unit :: "jsstr option"
  pm_billing_usage_examples :: "UsageExample list option"

datatype TokenUnit = Unit_M | Unit_K

datatype PriceType =
  Price_input | Price_output | Price_cache | Price_create_cache | Price_image | Price_audio_input | Price_audio_output

definition FILTER_ALL :: jsstr where
  "FILTER_ALL = js ''all''"

definition EXCLUDED_GROUPS :: "jsstr list" where
  "EXCLUDED_GROUPS = [[]]"

definition QUOTA_TOKEN :: jsnum where
  "QUOTA_TOKEN = Fin False 0"

definition QUOTA_REQUEST :: jsnum where
  "QUOTA_REQUEST = Fin False 1"

fun TOKEN_UNIT_DIVISORS :: "TokenUnit \<Rightarrow> jsnum" where
  "TOKEN_UNIT_DIVISORS Unit_M = Fin False 1"
| "TOKEN_UNIT_DIVISORS Unit_K = Fin False 1000"

section \<open>Groups\<close>

text \<open>The chains of automatic groups, as an object or as a set of names.\<close>

datatype AutoGroups = Group_chains "(jsstr, jsstr list) js_map" | Group_names "jsstr list"

text \<open>Chains given as an unknown value: an object of chains, or the list of the chain \<open>auto\<close>.\<close>

definition cleanChain :: "jsval \<Rightarrow> jsstr list" where
  "cleanChain v =
     (case v of
        JArr xs \<Rightarrow> concat (map (\<lambda>x. case x of JStr s \<Rightarrow> if s \<noteq> [] then [s] else [] | _ \<Rightarrow> []) xs)
      | _ \<Rightarrow> [])"

definition normalizeAutoGroupChains :: "jsval \<Rightarrow> jsval \<Rightarrow> (jsstr, jsstr list) js_map" where
  "normalizeAutoGroupChains namedChains legacyGroups =
     (let named =
            (case namedChains of
               JObj es \<Rightarrow> fold (\<lambda>(name, v) m. if name \<noteq> [] \<and> cleanChain v \<noteq> [] then object_with name (cleanChain v) m else m) es []
             | _ \<Rightarrow> []);
          legacyChain = cleanChain legacyGroups
      in if named \<noteq> [] then named else if legacyChain \<noteq> [] then [(js ''auto'', legacyChain)] else [])"

definition getAutoGroupNames :: "(jsstr, jsstr list) js_map \<Rightarrow> jsstr list" where
  "getAutoGroupNames groups = map fst groups"

definition getAutoGroupChain :: "(jsstr, jsstr list) js_map \<Rightarrow> jsstr \<Rightarrow> jsstr list" where
  "getAutoGroupChain groups name = or_default (map_of groups name) []"

definition isAutoGroupName :: "jsstr option \<Rightarrow> AutoGroups option \<Rightarrow> bool" where
  "isAutoGroupName name groups =
     (case name of
        None \<Rightarrow> False
      | Some name \<Rightarrow>
          name \<noteq> [] \<and>
          (case groups of
             Some (Group_names names) \<Rightarrow> name \<in> set names \<or> name = js ''auto''
           | Some (Group_chains m) \<Rightarrow> map_of m name \<noteq> None \<or> name = js ''auto''
           | None \<Rightarrow> name = js ''auto''))"

definition model_groups :: "PricingModel \<Rightarrow> jsstr list" where
  "model_groups model = or_default (pm_enable_groups model) []"

definition getAvailableGroups :: "PricingModel \<Rightarrow> (jsstr, jsstr) js_map \<Rightarrow> AutoGroups option \<Rightarrow> jsstr list" where
  "getAvailableGroups model usableGroup groups =
     filter (\<lambda>g. g \<in> set (model_groups model))
       (filter (\<lambda>g. g \<notin> set EXCLUDED_GROUPS \<and> \<not> isAutoGroupName (Some g) groups) (map fst usableGroup))"

definition getConfiguredGroupRatio :: "(jsstr, jsnum) js_map \<Rightarrow> jsstr \<Rightarrow> jsnum" where
  "getConfiguredGroupRatio groupRatio g =
     (case map_of groupRatio g of Some ratio \<Rightarrow> if isFinite ratio then ratio else Fin False 1 | None \<Rightarrow> Fin False 1)"

definition lower_ratio :: "(jsstr, jsnum) js_map \<Rightarrow> jsstr \<Rightarrow> jsnum \<Rightarrow> jsnum" where
  "lower_ratio groupRatio g minRatio =
     (case map_of groupRatio g of
        Some ratio \<Rightarrow> if isFinite ratio \<and> js_lt ratio minRatio then ratio else minRatio
      | None \<Rightarrow> minRatio)"

definition best_group_ratio :: "jsstr list \<Rightarrow> (jsstr, jsnum) js_map \<Rightarrow> jsnum" where
  "best_group_ratio groups groupRatio =
     (if groups = [] then Fin False 1
      else
        (let minRatio = fold (lower_ratio groupRatio) groups (Inf False)
         in if minRatio = Inf False then Fin False 1 else minRatio))"

definition getDisplayGroupRatio :: "PricingModel \<Rightarrow> jsstr option \<Rightarrow> jsnum" where
  "getDisplayGroupRatio model selectedGroup =
     (let groups = model_groups model; groupRatio = or_default (pm_group_ratio model) []
      in case selectedGroup of
           Some g \<Rightarrow>
             if g \<noteq> [] \<and> g \<noteq> FILTER_ALL \<and> g \<in> set groups then getConfiguredGroupRatio groupRatio g
             else best_group_ratio groups groupRatio
         | None \<Rightarrow> best_group_ratio groups groupRatio)"

text \<open>
  \<open>text.replaceAll(pattern, replacement)\<close> with a pattern that is not empty. In the replacement, \<open>$$\<close>, \<open>$&\<close>,
  \<open>$`\<close> and \<open>$'\<close> stand for a dollar sign, the match, the text before and the text after it.
\<close>

fun substitution :: "jsstr \<Rightarrow> jsstr \<Rightarrow> jsstr \<Rightarrow> jsstr \<Rightarrow> jsstr" where
  "substitution matched before after [] = []"
| "substitution matched before after [x] = [x]"
| "substitution matched before after (x # y # r) =
     (if x = 36 \<and> y = 36 then 36 # substitution matched before after r
      else if x = 36 \<and> y = 38 then matched @ substitution matched before after r
      else if x = 36 \<and> y = 96 then before @ substitution matched before after r
      else if x = 36 \<and> y = 39 then after @ substitution matched before after r
      else x # substitution matched before after (y # r))"

function replace_all :: "jsstr \<Rightarrow> jsstr \<Rightarrow> jsstr \<Rightarrow> jsstr \<Rightarrow> jsstr" where
  "replace_all pattern replacement before [] = []"
| "replace_all pattern replacement before (x # s) =
     (if pattern \<noteq> [] \<and> starts_with (x # s) pattern
      then (let after = drop (length pattern) (x # s)
            in substitution pattern before after replacement @ replace_all pattern replacement (before @ pattern) after)
      else x # replace_all pattern replacement (before @ [x]) s)"
  by pat_completeness auto
termination
  by (relation "measure (\<lambda>(_, _, _, s). length s)") auto

definition replaceModelInPath :: "jsstr \<Rightarrow> jsstr \<Rightarrow> jsstr" where
  "replaceModelInPath path modelName = replace_all (js ''{model}'') modelName [] path"

definition isTokenBasedModel :: "PricingModel \<Rightarrow> bool" where
  "isTokenBasedModel model = js_num_eq (pm_quota_type model) QUOTA_TOKEN"

definition isPricingExplicitlyUnconfigured :: "PricingModel \<Rightarrow> bool" where
  "isPricingExplicitlyUnconfigured model \<longleftrightarrow> pm_pricing_configured model = Some False"

section \<open>Providers\<close>

text \<open>\<open>^[a-z0-9][a-z0-9_-]{0,29}$\<close>.\<close>

definition is_plugin_start :: "code_unit \<Rightarrow> bool" where
  "is_plugin_start c \<longleftrightarrow> is_lower c \<or> is_digit c"

definition is_plugin_name :: "jsstr \<Rightarrow> bool" where
  "is_plugin_name s \<longleftrightarrow>
     s \<noteq> [] \<and> is_plugin_start (hd s) \<and> list_all (\<lambda>c. is_plugin_start c \<or> c = 95 \<or> c = 45) (tl s) \<and> length s \<le> 30"

fun index_of :: "jsstr \<Rightarrow> jsstr \<Rightarrow> nat option" where
  "index_of [] p = (if p = [] then Some 0 else None)"
| "index_of (x # s) p = (if starts_with (x # s) p then Some 0 else map_option Suc (index_of s p))"

definition splitPluginBillingExprKey :: "jsstr \<Rightarrow> (jsstr \<times> jsstr) option" where
  "splitPluginBillingExprKey key =
     (case index_of key (js ''::'') of
        None \<Rightarrow> None
      | Some separator \<Rightarrow>
          if separator < 1 then None
          else
            (let plugin = take separator key; model = drop (separator + 2) key
             in if \<not> is_plugin_name plugin \<or> trim model = [] then None else Some (plugin, model)))"

definition compatible_visitor :: "BillingUsageSchema \<Rightarrow> ExpressionNode \<Rightarrow> bool \<Rightarrow> exn + bool" where
  "compatible_visitor schema node compatible =
     Inr (case node of
            Call name args _ _ \<Rightarrow>
              if name = js ''u''
              then (case args of
                      Literal (LStr key) _ _ _ # _ \<Rightarrow> compatible \<and> map_of schema key \<noteq> None
                    | _ \<Rightarrow> compatible)
              else compatible
          | _ \<Rightarrow> compatible)"

definition taskExpressionCompatible :: "jsstr \<Rightarrow> BillingUsageSchema \<Rightarrow> exn + bool option" where
  "taskExpressionCompatible e schema =
     (if trim e = [] then Inr (Some False)
      else
        (case compile_source e of
           Failed _ \<Rightarrow> Inr None
         | Ready compiled \<Rightarrow>
             bindR (visitExpression (compiled_ast compiled) (compatible_visitor schema)
                      (js ''fixed'' \<notin> set (compiled_functions compiled))) (\<lambda>compatible.
             Inr (Some compatible))))"

definition withPluginPricing :: "PricingModel \<Rightarrow> BillingPluginVariant \<Rightarrow> PricingModel" where
  "withPluginPricing model variant =
     model\<lparr>pm_quota_type := (if bp_billing_mode variant = Some (js ''ratio'') then pm_quota_type model else Fin False 0),
       pm_billing_mode := Some (or_default (bp_billing_mode variant) (js ''tiered_expr'')),
       pm_billing_expr := Some (bp_billing_expr variant),
       pm_billing_usage_schema := Some (bp_billing_usage_schema variant),
       pm_billing_usage_examples := bp_billing_usage_examples variant,
       pm_billing_plugin_variants := None\<rparr>"

definition pluginExpressionsEqual :: "(jsstr, jsstr) js_map option \<Rightarrow> (jsstr, jsstr) js_map option \<Rightarrow> bool" where
  "pluginExpressionsEqual left right =
     (let left = or_default left []; right = or_default right []
      in length left = length right \<and> list_all (\<lambda>key. map_of right key \<noteq> None \<and> map_of left key = map_of right key) (map fst left))"

definition pluginUsageSchema :: "PricingModel option \<Rightarrow> jsstr option \<Rightarrow> BillingUsageSchema option" where
  "pluginUsageSchema model pluginKey =
     (case model of
        None \<Rightarrow> None
      | Some model \<Rightarrow>
          (case List.find (\<lambda>v. Some (bp_plugin_key v) = pluginKey) (or_default (pm_billing_plugin_variants model) []) of
             Some variant \<Rightarrow> Some (bp_billing_usage_schema variant)
           | None \<Rightarrow> pm_billing_usage_schema model))"

section \<open>Prices without expressions\<close>

definition js_parseFloat :: "jsstr \<Rightarrow> jsnum" where
  "js_parseFloat s =
     (let t = trim_start s; sg = sign_prefix t; r = drop (length sg) t; m = match_number r;
          x = (if starts_with r (js ''Infinity'') then Inf False else if m = [] then NaN else num_of_decimal m)
      in if sg = [45] then js_neg x else x)"

text \<open>\<open>^([^\d-]*)([-\d,]+\.?\d*)(k?)$\<close> and \<open>\.?0+$\<close>.\<close>

definition formatted_re :: regex where
  "formatted_re =
     re_list [Re_group 1 (Re_star (Re_char (\<lambda>c. \<not> is_digit c \<and> c \<noteq> 45))),
       Re_group 2 (re_list [re_plus (Re_char (\<lambda>c. c = 45 \<or> is_digit c \<or> c = 44)), Re_opt (Re_char (\<lambda>c. c = 46)), Re_star (Re_char is_digit)]),
       Re_group 3 (Re_opt (Re_char (\<lambda>c. c = 107))), Re_end]"

definition point_zeros_re :: regex where
  "point_zeros_re = re_list [Re_opt (Re_char (\<lambda>c. c = 46)), re_plus (Re_char (\<lambda>c. c = 48)), Re_end]"

definition group_text :: "captures \<Rightarrow> nat \<Rightarrow> jsstr" where
  "group_text c n = (case capture c n of Some w \<Rightarrow> w | None \<Rightarrow> [])"

definition stripTrailingZeros :: "jsstr \<Rightarrow> exn + jsstr" where
  "stripTrailingZeros formatted =
     (case first_match formatted_re formatted of
        None \<Rightarrow> Inr formatted
      | Some (_, c) \<Rightarrow>
          (let parsed = js_parseFloat (filter (\<lambda>x. x \<noteq> 44) (group_text c 2)); result = num_to_string parsed
           in if parsed = NaN then Inr formatted
              else
                bindR (if 101 \<in> set result
                       then bindR (js_toFixed parsed 20) (\<lambda>t. Inr (re_replace point_zeros_re (\<lambda>_. []) t))
                       else Inr result) (\<lambda>result.
                Inr (group_text c 1 @ result @ group_text c 3))))"

definition hasRatio :: "jsnum option \<Rightarrow> bool" where
  "hasRatio v = (case v of Some x \<Rightarrow> isFinite x | None \<Rightarrow> False)"

definition times_ratio :: "jsnum \<Rightarrow> jsnum option \<Rightarrow> jsnum" where
  "times_ratio base v = (case v of Some x \<Rightarrow> if isFinite x then js_mul base x else NaN | None \<Rightarrow> NaN)"

fun calculateTokenPrice :: "PricingModel \<Rightarrow> PriceType \<Rightarrow> jsnum \<Rightarrow> jsnum" where
  "calculateTokenPrice model t ratio =
     (let base = js_mul (js_mul (pm_model_ratio model) (Fin False 2)) ratio
      in case t of
           Price_input \<Rightarrow> base
         | Price_output \<Rightarrow> js_mul base (pm_completion_ratio model)
         | Price_cache \<Rightarrow> times_ratio base (pm_cache_ratio model)
         | Price_create_cache \<Rightarrow> times_ratio base (pm_create_cache_ratio model)
         | Price_image \<Rightarrow> times_ratio base (pm_image_ratio model)
         | Price_audio_input \<Rightarrow> times_ratio base (pm_audio_ratio model)
         | Price_audio_output \<Rightarrow>
             if hasRatio (pm_audio_ratio model) \<and> hasRatio (pm_audio_completion_ratio model)
             then times_ratio (times_ratio base (pm_audio_ratio model)) (pm_audio_completion_ratio model)
             else NaN)"

definition applyRechargeRate :: "jsnum \<Rightarrow> bool \<Rightarrow> jsnum \<Rightarrow> jsnum \<Rightarrow> jsnum" where
  "applyRechargeRate price showWithRecharge priceRate usdExchangeRate =
     (if \<not> showWithRecharge then price else js_div (js_mul price priceRate) usdExchangeRate)"

text \<open>\<open>{ showSymbol, digitsLarge: 4, digitsSmall, abbreviate: false }\<close>.\<close>

definition price_options :: "bool option \<Rightarrow> int \<Rightarrow> CurrencyFormatOptions" where
  "price_options showSymbol digitsSmall =
     \<lparr>fo_digitsLarge = Some 4, fo_digitsSmall = Some digitsSmall, fo_abbreviate = Some False, fo_minimumNonZero = None,
      fo_compact = None, fo_showSymbol = showSymbol, fo_locale = None\<rparr>"

definition is_request_model :: "PricingModel \<Rightarrow> bool" where
  "is_request_model model = js_num_eq (pm_quota_type model) QUOTA_REQUEST"

text \<open>\<open>x || 0\<close>.\<close>

definition amount_or_zero :: "jsnum option \<Rightarrow> jsnum" where
  "amount_or_zero v = (case v of Some x \<Rightarrow> if x = NaN \<or> js_num_eq x (Fin False 0) then Fin False 0 else x | None \<Rightarrow> Fin False 0)"

definition formatPrice ::
  "currency_host \<Rightarrow> PricingModel \<Rightarrow> PriceType \<Rightarrow> TokenUnit \<Rightarrow> bool \<Rightarrow> jsnum \<Rightarrow> jsnum \<Rightarrow> jsstr option \<Rightarrow> bool \<Rightarrow> exn + jsstr" where
  "formatPrice C model t tokenUnit showWithRecharge priceRate usdExchangeRate selectedGroup showCurrencySymbol =
     (if is_request_model model then Inr (js ''-'')
      else
        (let priceInUSD = applyRechargeRate (calculateTokenPrice model t (getDisplayGroupRatio model selectedGroup))
               showWithRecharge priceRate usdExchangeRate
         in formatBillingCurrencyFromUSD C (Some (js_div priceInUSD (TOKEN_UNIT_DIVISORS tokenUnit)))
              (Some (price_options (Some showCurrencySymbol) 6))))"

definition formatGroupPrice ::
  "currency_host \<Rightarrow> PricingModel \<Rightarrow> jsstr \<Rightarrow> PriceType \<Rightarrow> TokenUnit \<Rightarrow> bool \<Rightarrow> jsnum \<Rightarrow> jsnum \<Rightarrow> (jsstr, jsnum) js_map \<Rightarrow>
     exn + jsstr" where
  "formatGroupPrice C model g t tokenUnit showWithRecharge priceRate usdExchangeRate groupRatio =
     (if is_request_model model then Inr (js ''-'')
      else
        (let priceInUSD = applyRechargeRate (calculateTokenPrice model t (getConfiguredGroupRatio groupRatio g))
               showWithRecharge priceRate usdExchangeRate
         in formatBillingCurrencyFromUSD C (Some (js_div priceInUSD (TOKEN_UNIT_DIVISORS tokenUnit)))
              (Some (price_options None 6))))"

definition formatFixedPrice ::
  "currency_host \<Rightarrow> PricingModel \<Rightarrow> jsstr \<Rightarrow> bool \<Rightarrow> jsnum \<Rightarrow> jsnum \<Rightarrow> (jsstr, jsnum) js_map \<Rightarrow> exn + jsstr" where
  "formatFixedPrice C model g showWithRecharge priceRate usdExchangeRate groupRatio =
     (if \<not> is_request_model model then Inr (js ''-'')
      else
        formatBillingCurrencyFromUSD C
          (Some (applyRechargeRate (js_mul (amount_or_zero (pm_model_price model)) (getConfiguredGroupRatio groupRatio g))
             showWithRecharge priceRate usdExchangeRate))
          (Some (price_options None 4)))"

definition formatRequestPrice ::
  "currency_host \<Rightarrow> PricingModel \<Rightarrow> bool \<Rightarrow> jsnum \<Rightarrow> jsnum \<Rightarrow> jsstr option \<Rightarrow> bool \<Rightarrow> exn + jsstr" where
  "formatRequestPrice C model showWithRecharge priceRate usdExchangeRate selectedGroup showCurrencySymbol =
     (if \<not> is_request_model model then Inr (js ''-'')
      else
        formatBillingCurrencyFromUSD C
          (Some (applyRechargeRate (js_mul (amount_or_zero (pm_model_price model)) (getDisplayGroupRatio model selectedGroup))
             showWithRecharge priceRate usdExchangeRate))
          (Some (price_options (Some showCurrencySymbol) 4)))"

end
