(* ===== verification/Dynamic_Price.thy ===== *)
theory Dynamic_Price
  imports Model_Helpers
begin

text \<open>
  Prices of models with expressions as the cards and tables of the marketplace show them
  (\<^verbatim>\<open>features/pricing/lib/dynamic-price.ts\<close>, \<^verbatim>\<open>billing-mode.ts\<close>): the entries of a tier, and the summary
  of a model, for one expression or for the expressions of several providers. A function of the code that
  calls itself for the providers of a model has two definitions here, one for models without providers and
  one for all: the model of a provider has no providers itself.
\<close>

section \<open>Data\<close>

record DynamicPriceOptions =
  dp_tokenUnit :: TokenUnit
  dp_showCurrencySymbol :: "bool option"
  dp_showRechargePrice :: "bool option"
  dp_priceRate :: "jsnum option"
  dp_usdExchangeRate :: "jsnum option"
  dp_groupRatioMultiplier :: "jsnum option"
  dp_usageSchema :: "BillingUsageSchema option"
  dp_now :: "int option option"

datatype DynamicPriceLabelKind = Label_i18n | Label_schema

record DynamicPriceEntry =
  de_key :: jsstr
  de_field :: jsstr
  de_label :: jsstr
  de_shortLabel :: jsstr
  de_labelKind :: DynamicPriceLabelKind
  de_value :: jsnum
  de_formatted :: jsstr
  de_formattedRange :: "jsstr option"
  de_minValue :: "jsnum option"
  de_maxValue :: "jsnum option"
  de_unit :: jsstr
  de_unitLabel :: "LocalizedTextValue option"
  de_variable :: "BillingVar option"
  de_description :: "LocalizedTextValue option"

datatype DynamicPricingTier = Token_tier ParsedTier | Task_tier TaskTier

record DynamicPricingSummary =
  sm_tiers :: "DynamicPricingTier list"
  sm_tier :: "DynamicPricingTier option"
  sm_tierCount :: nat
  sm_hasRequestRules :: bool
  sm_isSpecialExpression :: bool
  sm_rawExpression :: jsstr
  sm_entries :: "DynamicPriceEntry list"
  sm_primaryEntries :: "DynamicPriceEntry list"
  sm_secondaryEntries :: "DynamicPriceEntry list"
  sm_isTaskUsage :: bool
  sm_isTimePricing :: "bool option"
  sm_isMixedBilling :: "bool option"
  sm_providerCount :: "nat option"
  sm_hasUnconfiguredProviders :: "bool option"

text \<open>\<open>array.sort(compare)\<close>: stable; a comparison that is not a number counts as zero.\<close>

fun insert_by :: "('a \<Rightarrow> 'a \<Rightarrow> jsnum) \<Rightarrow> 'a \<Rightarrow> 'a list \<Rightarrow> 'a list" where
  "insert_by compare x [] = [x]"
| "insert_by compare x (y # ys) = (if js_lt (Fin False 0) (compare x y) then y # insert_by compare x ys else x # y # ys)"

definition sort_by_compare :: "('a \<Rightarrow> 'a \<Rightarrow> jsnum) \<Rightarrow> 'a list \<Rightarrow> 'a list" where
  "sort_by_compare compare xs = foldr (insert_by compare) xs []"

section \<open>Labels of units\<close>

definition getTaskUsageQuantityUnitLabelKey :: "jsstr option \<Rightarrow> jsstr" where
  "getTaskUsageQuantityUnitLabelKey u =
     (if u = Some (js ''second'') then js ''s''
      else if u = Some (js ''token'') then js ''token (unit)''
      else if u = Some (js ''credit'') then js ''credit''
      else js ''unit'')"

definition getTaskUsagePriceUnitLabelKey :: "jsstr option \<Rightarrow> jsstr" where
  "getTaskUsagePriceUnitLabelKey u =
     (if u = Some (js ''second'') then js ''second''
      else if u = Some (js ''token'') then js ''1M token''
      else if u = Some (js ''credit'') then js ''credit''
      else js ''unit'')"

definition getDynamicPriceUnitLabelKey :: "DynamicPriceEntry \<Rightarrow> jsstr option" where
  "getDynamicPriceUnitLabelKey entry =
     (if de_unit entry = js ''second'' then Some (js ''s'')
      else if de_unit entry = js ''count'' then Some (js ''unit'')
      else if de_unit entry = js ''credit'' then Some (js ''credit'')
      else if de_unit entry = js ''token'' \<and> de_variable entry = None then Some (js ''1M token'')
      else if de_unit entry = js ''request'' then Some (js ''request'')
      else if de_unit entry = js ''image'' then Some (js ''image'')
      else None)"

definition PRIMARY_DYNAMIC_FIELDS :: "jsstr list" where
  "PRIMARY_DYNAMIC_FIELDS = [js ''inputPrice'', js ''outputPrice'']"

section \<open>Kinds of models\<close>

definition provider_variants :: "PricingModel \<Rightarrow> BillingPluginVariant list" where
  "provider_variants model = or_default (pm_billing_plugin_variants model) []"

definition isDynamicPricingModel :: "PricingModel \<Rightarrow> bool" where
  "isDynamicPricingModel model =
     (if provider_variants model \<noteq> []
      then list_ex (\<lambda>v. bp_billing_mode v \<noteq> Some (js ''ratio'') \<and> bp_billing_expr v \<noteq> []) (provider_variants model)
      else pm_billing_mode model = Some (js ''tiered_expr'') \<and> or_default (pm_billing_expr model) [] \<noteq> [])"

definition hasTaskUsageSchema :: "PricingModel \<Rightarrow> bool" where
  "hasTaskUsageSchema model \<longleftrightarrow> or_default (pm_billing_usage_schema model) [] \<noteq> []"

definition isPerSecondTaskModel :: "PricingModel \<Rightarrow> bool" where
  "isPerSecondTaskModel model \<longleftrightarrow> js_num_eq (pm_quota_type model) (Fin False 1) \<and> pm_billing_unit model = Some (js ''second'')"

definition isTaskUsagePricingModel :: "PricingModel \<Rightarrow> bool" where
  "isTaskUsagePricingModel model \<longleftrightarrow> pm_billing_mode model = Some (js ''tiered_expr'') \<and> hasTaskUsageSchema model"

definition unconfigured_model :: "PricingModel \<Rightarrow> bool" where
  "unconfigured_model model \<longleftrightarrow>
     \<not> js_num_eq (pm_quota_type model) (Fin False 1) \<and> hasTaskUsageSchema model \<and> \<not> isDynamicPricingModel model"

definition unconfigured_provider :: "PricingModel \<Rightarrow> BillingPluginVariant \<Rightarrow> bool" where
  "unconfigured_provider model v =
     (if bp_billing_mode v = Some (js ''ratio'') then unconfigured_model (withPluginPricing model v) else bp_billing_expr v = [])"

definition isUnconfiguredTaskUsageModel :: "PricingModel \<Rightarrow> bool" where
  "isUnconfiguredTaskUsageModel model =
     (if provider_variants model \<noteq> [] then list_all (unconfigured_provider model) (provider_variants model)
      else unconfigured_model model)"

definition getTaskPricingUnit :: "comparison \<Rightarrow> PricingModel \<Rightarrow> jsstr option" where
  "getTaskPricingUnit cmp model =
     (case getTaskNumberFields cmp (pm_billing_usage_schema model) of (_, d) # _ \<Rightarrow> uf_unit d | [] \<Rightarrow> None)"

definition getDynamicDisplayGroupRatio :: "PricingModel \<Rightarrow> jsstr option \<Rightarrow> jsnum" where
  "getDynamicDisplayGroupRatio model selectedGroup = getDisplayGroupRatio model selectedGroup"

definition getBillingModeLabelKey :: "PricingModel \<Rightarrow> jsstr" where
  "getBillingModeLabelKey model =
     (if hasTaskUsageSchema model then js ''Task billing''
      else if isDynamicPricingModel model then js ''Dynamic Pricing''
      else if isTokenBasedModel model then js ''Token-based''
      else js ''Per Request'')"

section \<open>Formatted prices\<close>

definition option_amount :: "DynamicPriceOptions \<Rightarrow> jsnum \<Rightarrow> jsnum" where
  "option_amount options priceUSD =
     applyRechargeRate priceUSD (or_default (dp_showRechargePrice options) False)
       (or_default (dp_priceRate options) (Fin False 1)) (or_default (dp_usdExchangeRate options) (Fin False 1))"

definition option_format :: "DynamicPriceOptions \<Rightarrow> CurrencyFormatOptions" where
  "option_format options = price_options (Some (or_default (dp_showCurrencySymbol options) True)) 6"

definition formatDynamicUnitPrice :: "currency_host \<Rightarrow> jsnum \<Rightarrow> DynamicPriceOptions \<Rightarrow> exn + jsstr" where
  "formatDynamicUnitPrice C valuePerMillionTokens options =
     formatBillingCurrencyFromUSD C
       (Some (option_amount options
          (js_div (js_mul valuePerMillionTokens (or_default (dp_groupRatioMultiplier options) (Fin False 1)))
             (TOKEN_UNIT_DIVISORS (dp_tokenUnit options)))))
       (Some (option_format options))"

definition formatTaskUsageUnitPrice :: "currency_host \<Rightarrow> jsnum \<Rightarrow> DynamicPriceOptions \<Rightarrow> exn + jsstr" where
  "formatTaskUsageUnitPrice C valuePerUnit options =
     formatBillingCurrencyFromUSD C
       (Some (option_amount options (js_mul valuePerUnit (or_default (dp_groupRatioMultiplier options) (Fin False 1)))))
       (Some (option_format options))"

section \<open>Tiers and rules of a model\<close>

definition model_tiers :: "host \<Rightarrow> PricingModel \<Rightarrow> exn + DynamicPricingTier list" where
  "model_tiers H model =
     (if \<not> isDynamicPricingModel model then Inr []
      else
        bindR (splitBillingExprAndRequestRules (or_default (pm_billing_expr model) [])) (\<lambda>(billingExpr, _).
          if isTaskUsagePricingModel model
          then bindR (getTaskPricingDisplayTiers (Some billingExpr) (pm_billing_usage_schema model)) (\<lambda>ts. Inr (map Task_tier ts))
          else bindR (parseTiersFromExpr H billingExpr) (\<lambda>ts. Inr (map Token_tier ts))))"

definition getDynamicPricingTiers :: "host \<Rightarrow> PricingModel \<Rightarrow> exn + DynamicPricingTier list" where
  "getDynamicPricingTiers H model =
     (if provider_variants model \<noteq> []
      then bindR (mapR (\<lambda>v. model_tiers H (withPluginPricing model v)) (provider_variants model)) (\<lambda>ts. Inr (concat ts))
      else model_tiers H model)"

definition model_rules :: "PricingModel \<Rightarrow> exn + bool" where
  "model_rules model =
     (if \<not> isDynamicPricingModel model then Inr False
      else
        bindR (splitBillingExprAndRequestRules (or_default (pm_billing_expr model) [])) (\<lambda>(_, requestRuleExpr).
        bindR (tryParseRequestRuleExpr requestRuleExpr) (\<lambda>groups.
          if or_default groups [] \<noteq> [] then Inr True
          else Inr (case compile_source (or_default (pm_billing_expr model) []) of
                      Ready compiled \<Rightarrow> compiled_rules compiled \<noteq> []
                    | Failed _ \<Rightarrow> False))))"

text \<open>\<open>array.some(f)\<close>, which stops at the first element with the value true.\<close>

fun someR :: "('a \<Rightarrow> exn + bool) \<Rightarrow> 'a list \<Rightarrow> exn + bool" where
  "someR f [] = Inr False"
| "someR f (x # xs) = bindR (f x) (\<lambda>b. if b then Inr True else someR f xs)"

definition hasDynamicRequestRules :: "PricingModel \<Rightarrow> exn + bool" where
  "hasDynamicRequestRules model =
     (if provider_variants model \<noteq> [] then someR (\<lambda>v. model_rules (withPluginPricing model v)) (provider_variants model)
      else model_rules model)"

section \<open>Entries of a tier\<close>

definition price_entry :: "jsstr \<Rightarrow> jsstr \<Rightarrow> jsstr \<Rightarrow> jsstr \<Rightarrow> jsnum \<Rightarrow> jsstr \<Rightarrow> jsstr \<Rightarrow> DynamicPriceEntry" where
  "price_entry key field label shortLabel v formatted u =
     \<lparr>de_key = key, de_field = field, de_label = label, de_shortLabel = shortLabel, de_labelKind = Label_i18n, de_value = v,
      de_formatted = formatted, de_formattedRange = None, de_minValue = None, de_maxValue = None, de_unit = u,
      de_unitLabel = None, de_variable = None, de_description = None\<rparr>"

definition shown_price :: "jsnum option \<Rightarrow> jsnum option" where
  "shown_price v = (case v of Some x \<Rightarrow> if isFinite x \<and> \<not> js_lt x (Fin False 0) then Some x else None | None \<Rightarrow> None)"

definition usage_entry ::
  "currency_host \<Rightarrow> TaskTier \<Rightarrow> DynamicPriceOptions \<Rightarrow> jsstr \<times> UsageField \<Rightarrow> exn + DynamicPriceEntry list" where
  "usage_entry C tier options = (\<lambda>(field, d).
     case (shown_price (map_of (kt_unitPrices tier) field), uf_unit d) of
       (Some v, Some u) \<Rightarrow>
         if u = [] then Inr []
         else bindR (formatTaskUsageUnitPrice C v options) (\<lambda>formatted.
                Inr [(price_entry field field field field v formatted u)\<lparr>
                  de_labelKind := Label_schema, de_unitLabel := uf_unitLabel d, de_description := uf_description d\<rparr>])
     | _ \<Rightarrow> Inr [])"

definition tier_price :: "DynamicPricingTier \<Rightarrow> jsstr \<Rightarrow> jsnum option" where
  "tier_price tier field = (case tier of Token_tier t \<Rightarrow> map_of (pt_fields t) field | Task_tier _ \<Rightarrow> None)"

definition variable_entry ::
  "currency_host \<Rightarrow> DynamicPricingTier \<Rightarrow> DynamicPriceOptions \<Rightarrow> BillingVar \<Rightarrow> exn + DynamicPriceEntry list" where
  "variable_entry C tier options v =
     (case bv_field v of
        None \<Rightarrow> Inr []
      | Some field \<Rightarrow>
          (case shown_price (tier_price tier field) of
             None \<Rightarrow> Inr []
           | Some x \<Rightarrow>
               if field = [] \<or> bv_key v = js ''cr'' \<and> \<not> js_num_eq x (Fin False 0) \<and>
                 (case tier_price tier (js ''inputPrice'') of Some y \<Rightarrow> js_num_eq x y | None \<Rightarrow> False)
               then Inr []
               else
                 (let timed = bv_key v = js ''cc'' \<and> tier_price tier (js ''cacheCreate1hPrice'') \<noteq> None
                  in bindR (formatDynamicUnitPrice C x options) (\<lambda>formatted.
                       Inr [(price_entry (bv_key v) field (if timed then js ''Cache Creation (5m)'' else bv_label v)
                               (if timed then js ''Cache Write (5m)'' else bv_shortLabel v) x formatted (js ''token''))\<lparr>
                              de_variable := Some v\<rparr>]))))"

definition is_primary :: "DynamicPriceEntry \<Rightarrow> bool" where
  "is_primary entry \<longleftrightarrow> de_field entry \<in> set PRIMARY_DYNAMIC_FIELDS"

definition compare_primary :: "DynamicPriceEntry \<Rightarrow> DynamicPriceEntry \<Rightarrow> jsnum" where
  "compare_primary a b =
     (if is_primary a \<noteq> is_primary b then (if is_primary a then Fin True 1 else Fin False 1) else Fin False 0)"

definition getDynamicPriceEntries ::
  "currency_host \<Rightarrow> comparison \<Rightarrow> DynamicPricingTier option \<Rightarrow> DynamicPriceOptions \<Rightarrow> exn + DynamicPriceEntry list" where
  "getDynamicPriceEntries C cmp tier options =
     (case tier of
        None \<Rightarrow> Inr []
      | Some tier \<Rightarrow>
          (let variables =
                 bindR (mapR (variable_entry C tier options) BILLING_PRICING_VARS) (\<lambda>es.
                   Inr (sort_by_compare compare_primary (concat es)))
           in case tier of
                Token_tier t \<Rightarrow>
                  (case (pt_billingUnit t, pt_fixedPrice t) of
                     (Some Unit_request, Some price) \<Rightarrow>
                       bindR (formatTaskUsageUnitPrice C price options) (\<lambda>formatted.
                         Inr [price_entry (js ''fixed'') (js ''fixedPrice'')
                           (if pt_imageCount t then js ''Price per image'' else js ''Price per request'')
                           (if pt_imageCount t then js ''Per image'' else js ''Per-call'') price formatted
                           (if pt_imageCount t then js ''image'' else js ''request'')])
                   | _ \<Rightarrow> variables)
              | Task_tier t \<Rightarrow>
                  (case dp_usageSchema options of
                     None \<Rightarrow> variables
                   | Some schema \<Rightarrow>
                       bindR (mapR (usage_entry C t options) (getTaskNumberFields cmp (Some schema))) (\<lambda>es.
                         if js_lt (Fin False 0) (kt_constant t)
                         then bindR (formatTaskUsageUnitPrice C (kt_constant t) options) (\<lambda>formatted.
                                Inr (concat es @ [price_entry (js ''constant'') (js ''constant'') (js ''Additional charge'')
                                  (js ''Additional charge'') (kt_constant t) formatted (js ''request'')]))
                         else Inr (concat es)))))"

section \<open>Summary of one expression\<close>

text \<open>The least and the greatest price of a field over the tiers, and the text of a range.\<close>

definition range_step :: "jsstr \<Rightarrow> DynamicPricingTier \<Rightarrow> jsnum \<times> jsnum \<Rightarrow> jsnum \<times> jsnum" where
  "range_step field tier = (\<lambda>(lo, hi).
     case tier of
       Token_tier _ \<Rightarrow> (lo, hi)
     | Task_tier t \<Rightarrow>
         (case shown_price (map_of (kt_unitPrices t) field) of
            Some v \<Rightarrow> (js_min lo v, js_max hi v)
          | None \<Rightarrow> (lo, hi)))"

definition price_range :: "DynamicPricingTier list \<Rightarrow> jsstr \<Rightarrow> (jsnum \<times> jsnum) option" where
  "price_range tiers field =
     (let (lo, hi) = fold (range_step field) tiers (Inf False, Inf True)
      in if isFinite lo \<and> isFinite hi then Some (lo, hi) else None)"

definition price_range_text :: "currency_host \<Rightarrow> DynamicPriceOptions \<Rightarrow> jsnum \<Rightarrow> jsnum \<Rightarrow> exn + jsstr option" where
  "price_range_text C options lo hi =
     (if js_num_eq lo hi then Inr None
      else
        bindR (formatTaskUsageUnitPrice C lo options) (\<lambda>a.
        bindR (formatTaskUsageUnitPrice C hi options) (\<lambda>b.
        Inr (Some (a @ [32, 8211, 32] @ b)))))"

definition price_ranges :: "comparison \<Rightarrow> PricingModel \<Rightarrow> DynamicPricingTier list \<Rightarrow> (jsstr, jsnum \<times> jsnum) js_map" where
  "price_ranges cmp model tiers =
     fold (\<lambda>(field, _) m. case price_range tiers field of Some r \<Rightarrow> js_map_set field r m | None \<Rightarrow> m)
       (getTaskNumberFields cmp (pm_billing_usage_schema model)) []"

definition ranged_entry ::
  "currency_host \<Rightarrow> DynamicPriceOptions \<Rightarrow> (jsstr, jsnum \<times> jsnum) js_map \<Rightarrow> DynamicPriceEntry \<Rightarrow> exn + DynamicPriceEntry" where
  "ranged_entry C options ranges entry =
     (case map_of ranges (de_field entry) of
        None \<Rightarrow> Inr entry
      | Some (lo, hi) \<Rightarrow>
          bindR (price_range_text C options lo hi) (\<lambda>t.
          Inr (entry\<lparr>de_minValue := Some lo, de_maxValue := Some hi, de_formattedRange := t\<rparr>)))"

definition per_use :: "DynamicPriceEntry \<Rightarrow> bool" where
  "per_use entry \<longleftrightarrow> de_unit entry = js ''request'' \<or> de_unit entry = js ''image''"

definition is_request_tier :: "DynamicPricingTier \<Rightarrow> bool" where
  "is_request_tier tier = (case tier of Token_tier t \<Rightarrow> pt_billingUnit t = Some Unit_request | Task_tier _ \<Rightarrow> False)"

definition is_token_tier :: "DynamicPricingTier \<Rightarrow> bool" where
  "is_token_tier tier = (case tier of Token_tier t \<Rightarrow> pt_billingUnit t \<noteq> Some Unit_request | Task_tier _ \<Rightarrow> False)"

text \<open>The entries of the summary, and whether token prices and prices per request are mixed.\<close>

definition summary_entries ::
  "currency_host \<Rightarrow> comparison \<Rightarrow> PricingModel \<Rightarrow> DynamicPriceOptions \<Rightarrow> DynamicPricingTier list \<Rightarrow> DynamicPricingTier list \<Rightarrow>
     DynamicPricingTier option \<Rightarrow> exn + DynamicPriceEntry list \<times> bool" where
  "summary_entries C cmp model options tiers summaryTiers tier =
     bindR (getDynamicPriceEntries C cmp tier (options\<lparr>dp_usageSchema := pm_billing_usage_schema model\<rparr>)) (\<lambda>entries.
       if isTaskUsagePricingModel model
       then bindR (mapR (ranged_entry C options (price_ranges cmp model tiers)) entries) (\<lambda>es. Inr (es, False))
       else
         (case (List.find is_token_tier summaryTiers, List.find is_request_tier summaryTiers) of
            (Some tok, Some req) \<Rightarrow>
              bindR (getDynamicPriceEntries C cmp (Some tok) options) (\<lambda>a.
              bindR (getDynamicPriceEntries C cmp (Some req) options) (\<lambda>b.
              Inr (a @ b, True)))
          | _ \<Rightarrow> Inr (entries, False)))"

definition finished_summary ::
  "PricingModel \<Rightarrow> DynamicPricingTier list \<Rightarrow> DynamicPricingTier option \<Rightarrow> bool \<Rightarrow> DynamicPriceEntry list \<Rightarrow> bool \<Rightarrow> bool \<Rightarrow>
     DynamicPricingSummary" where
  "finished_summary model tiers tier timed entries isMixedBilling hasRequestRules =
     (let isTaskUsage = isTaskUsagePricingModel model; rawExpression = or_default (pm_billing_expr model) []
      in \<lparr>sm_tiers = tiers, sm_tier = tier, sm_tierCount = length tiers, sm_hasRequestRules = hasRequestRules,
          sm_isSpecialExpression = (trim rawExpression \<noteq> [] \<and> tiers = []), sm_rawExpression = rawExpression,
          sm_entries = entries,
          sm_primaryEntries =
            (if isTaskUsage then filter (\<lambda>e. \<not> per_use e) entries else filter (\<lambda>e. per_use e \<or> is_primary e) entries),
          sm_secondaryEntries =
            (if isTaskUsage then filter per_use entries else filter (\<lambda>e. \<not> per_use e \<and> \<not> is_primary e) entries),
          sm_isTaskUsage = isTaskUsage, sm_isTimePricing = Some timed,
          sm_isMixedBilling = (if isMixedBilling then Some True else None), sm_providerCount = None,
          sm_hasUnconfiguredProviders = None\<rparr>)"

definition model_summary ::
  "host \<Rightarrow> currency_host \<Rightarrow> comparison \<Rightarrow> PricingModel \<Rightarrow> DynamicPriceOptions \<Rightarrow> exn + DynamicPricingSummary option" where
  "model_summary H C cmp model options =
     (if \<not> isDynamicPricingModel model then Inr None
      else
        bindR (model_tiers H model) (\<lambda>tiers.
        bindR (splitBillingExprAndRequestRules (or_default (pm_billing_expr model) [])) (\<lambda>(baseExpression, _).
        bindR (if isTaskUsagePricingModel model then Inr None
               else getCurrentTimePricingTiers H baseExpression (or_default (dp_now options) (Some (host_now H)))) (\<lambda>timeTiers.
        let summaryTiers = (case timeTiers of Some ts \<Rightarrow> map Token_tier ts | None \<Rightarrow> tiers);
            tier = (if summaryTiers = [] then None
                    else if isTaskUsagePricingModel model then Some (last summaryTiers) else Some (hd summaryTiers))
        in bindR (summary_entries C cmp model options tiers summaryTiers tier) (\<lambda>(entries, isMixedBilling).
           bindR (model_rules model) (\<lambda>hasRequestRules.
           Inr (Some (finished_summary model tiers tier (timeTiers \<noteq> None) entries isMixedBilling hasRequestRules))))))))"

section \<open>Summary of providers\<close>

definition per_call_entries :: "currency_host \<Rightarrow> PricingModel \<Rightarrow> DynamicPriceOptions \<Rightarrow> exn + DynamicPriceEntry list" where
  "per_call_entries C model options =
     (case pm_model_price model of
        Some price \<Rightarrow>
          if js_num_eq (pm_quota_type model) (Fin False 1) \<and>
            list_ex (\<lambda>v. bp_billing_mode v = Some (js ''ratio'')) (provider_variants model)
          then
            (let perSecond = isPerSecondTaskModel model
             in bindR (formatTaskUsageUnitPrice C price options) (\<lambda>formatted.
                  Inr [price_entry (js ''modelPrice'') (js ''modelPrice'')
                    (if perSecond then js ''Price per second'' else js ''Price per request'')
                    (if perSecond then js ''Per Second'' else js ''Per-call'') price formatted
                    (if perSecond then js ''second'' else js ''request'')]))
          else Inr []
      | None \<Rightarrow> Inr [])"

definition entry_key :: "DynamicPriceEntry \<Rightarrow> jsstr" where
  "entry_key entry = de_field entry @ js '':'' @ de_unit entry"

text \<open>A label of a unit that is missing: \<open>!label\<close>, or an object without properties.\<close>

definition no_label :: "LocalizedTextValue option \<Rightarrow> bool" where
  "no_label v = (case v of None \<Rightarrow> True | Some (Bare_text s) \<Rightarrow> s = [] | Some (Text_table m) \<Rightarrow> m = [])"

definition entry_min :: "DynamicPriceEntry \<Rightarrow> jsnum" where
  "entry_min entry = or_default (de_minValue entry) (de_value entry)"

definition entry_max :: "DynamicPriceEntry \<Rightarrow> jsnum" where
  "entry_max entry = or_default (de_maxValue entry) (de_value entry)"

definition merge_entry ::
  "DynamicPriceEntry \<Rightarrow> (jsstr, DynamicPriceEntry \<times> jsnum \<times> jsnum) js_map \<Rightarrow> (jsstr, DynamicPriceEntry \<times> jsnum \<times> jsnum) js_map" where
  "merge_entry entry ranges =
     (let key = entry_key entry;
          (merged, lo, hi) = (case map_of ranges key of Some r \<Rightarrow> r | None \<Rightarrow> (entry\<lparr>de_key := key\<rparr>, Inf False, Inf True));
          merged = (if no_label (de_unitLabel merged) then merged\<lparr>de_unitLabel := de_unitLabel entry\<rparr> else merged)
      in js_map_set key (merged, js_min lo (entry_min entry), js_max hi (entry_max entry)) ranges)"

definition merge_entries :: "DynamicPriceEntry list list \<Rightarrow> (jsstr, DynamicPriceEntry \<times> jsnum \<times> jsnum) js_map" where
  "merge_entries providers = fold (fold merge_entry) providers []"

definition merged_entry ::
  "currency_host \<Rightarrow> DynamicPriceOptions \<Rightarrow> DynamicPriceEntry \<times> jsnum \<times> jsnum \<Rightarrow> exn + DynamicPriceEntry" where
  "merged_entry C options = (\<lambda>(entry, lo, hi).
     bindR (formatTaskUsageUnitPrice C lo options) (\<lambda>formatted.
     bindR (price_range_text C options lo hi) (\<lambda>t.
     Inr (entry\<lparr>de_value := lo, de_minValue := Some lo, de_maxValue := Some hi, de_formatted := formatted,
            de_formattedRange := t\<rparr>))))"

definition compare_keys :: "jsstr list \<Rightarrow> DynamicPriceEntry \<Rightarrow> DynamicPriceEntry \<Rightarrow> jsnum" where
  "compare_keys keys a b =
     js_sub (if de_key b \<in> set keys then Fin False 1 else Fin False 0) (if de_key a \<in> set keys then Fin False 1 else Fin False 0)"

definition provider_summary ::
  "currency_host \<Rightarrow> PricingModel \<Rightarrow> DynamicPriceOptions \<Rightarrow> DynamicPricingSummary list \<Rightarrow> exn + DynamicPricingSummary" where
  "provider_summary C model options summaries =
     bindR (per_call_entries C model options) (\<lambda>perCall.
     bindR (mapR (merged_entry C options) (map snd (merge_entries (map sm_entries summaries @ [perCall])))) (\<lambda>entries.
     let primaryKeys = concat (map (\<lambda>s. map entry_key (take 1 (sm_primaryEntries s))) summaries);
         single = (\<lambda>e. \<not> per_use e \<or> de_field e = js ''modelPrice'');
         tiers = concat (map sm_tiers summaries)
     in Inr
          \<lparr>sm_tiers = tiers, sm_tier = (case summaries of s # _ \<Rightarrow> sm_tier s | [] \<Rightarrow> None), sm_tierCount = length tiers,
           sm_hasRequestRules = list_ex sm_hasRequestRules summaries,
           sm_isSpecialExpression = (perCall = [] \<and> summaries \<noteq> [] \<and> list_all sm_isSpecialExpression summaries),
           sm_rawExpression = (case summaries of s # _ \<Rightarrow> sm_rawExpression s | [] \<Rightarrow> []),
           sm_entries = entries,
           sm_primaryEntries = sort_by_compare (compare_keys primaryKeys) (filter single entries),
           sm_secondaryEntries = filter (\<lambda>e. per_use e \<and> de_field e \<noteq> js ''modelPrice'') entries,
           sm_isTaskUsage = True, sm_isTimePricing = None, sm_isMixedBilling = None,
           sm_providerCount = (if 2 \<le> length (provider_variants model) then Some (length (provider_variants model)) else None),
           sm_hasUnconfiguredProviders = Some (list_ex (unconfigured_provider model) (provider_variants model))\<rparr>))"

definition getDynamicPricingSummary ::
  "host \<Rightarrow> currency_host \<Rightarrow> comparison \<Rightarrow> PricingModel \<Rightarrow> DynamicPriceOptions \<Rightarrow> exn + DynamicPricingSummary option" where
  "getDynamicPricingSummary H C cmp model options =
     (if provider_variants model \<noteq> []
      then
        bindR (mapR (\<lambda>v. model_summary H C cmp (withPluginPricing model v) options) (provider_variants model)) (\<lambda>summaries.
        bindR (provider_summary C model options (concat (map (\<lambda>s. case s of Some x \<Rightarrow> [x] | None \<Rightarrow> []) summaries))) (\<lambda>s.
        Inr (Some s)))
      else model_summary H C cmp model options)"

section \<open>The example of a card\<close>

definition example_price ::
  "host \<Rightarrow> currency_host \<Rightarrow> comparison \<Rightarrow> PricingModel \<Rightarrow> DynamicPriceOptions \<Rightarrow> exn + (jsstr \<times> jsstr) option" where
  "example_price H C cmp model options =
     (if \<not> isTaskUsagePricingModel model then Inr None
      else
        (case (pm_billing_usage_schema model, or_default (pm_billing_usage_examples model) []) of
           (Some schema, firstExample # _) \<Rightarrow>
             bindR (splitBillingExprAndRequestRules (or_default (pm_billing_expr model) [])) (\<lambda>(billingExpr, _).
             bindR (tryParseTaskVisualConfig cmp (Some billingExpr) schema) (\<lambda>config.
               case config of
                 None \<Rightarrow> Inr None
               | Some config \<Rightarrow>
                   (case evaluateTaskVisualConfig H config (ue_facts firstExample) (Some schema) of
                      None \<Rightarrow> Inr None
                    | Some result \<Rightarrow>
                        bindR (formatTaskUsageUnitPrice C (pr_total result) options) (\<lambda>formatted.
                        Inr (Some (ue_label firstExample, formatted))))))
         | _ \<Rightarrow> Inr None))"

definition getCardExamplePrice ::
  "host \<Rightarrow> currency_host \<Rightarrow> comparison \<Rightarrow> PricingModel \<Rightarrow> DynamicPriceOptions \<Rightarrow> exn + (jsstr \<times> jsstr) option" where
  "getCardExamplePrice H C cmp model options =
     (if provider_variants model \<noteq> []
      then
        (case List.find (\<lambda>v. bp_billing_expr v \<noteq> []) (provider_variants model) of
           Some v \<Rightarrow> example_price H C cmp (withPluginPricing model v) options
         | None \<Rightarrow> Inr None)
      else example_price H C cmp model options)"

text \<open>The model of a provider has no providers, so the calls of the code end after one level.\<close>

lemma provider_without_providers [simp]: "provider_variants (withPluginPricing model v) = []"
  by (simp add: provider_variants_def withPluginPricing_def or_default_def)

lemma provider_calls:
  "getDynamicPricingTiers H (withPluginPricing model v) = model_tiers H (withPluginPricing model v)"
  "hasDynamicRequestRules (withPluginPricing model v) = model_rules (withPluginPricing model v)"
  "isUnconfiguredTaskUsageModel (withPluginPricing model v) = unconfigured_model (withPluginPricing model v)"
  "getDynamicPricingSummary H C cmp (withPluginPricing model v) options = model_summary H C cmp (withPluginPricing model v) options"
  "getCardExamplePrice H C cmp (withPluginPricing model v) options = example_price H C cmp (withPluginPricing model v) options"
  by (simp_all add: getDynamicPricingTiers_def hasDynamicRequestRules_def isUnconfiguredTaskUsageModel_def
      getDynamicPricingSummary_def getCardExamplePrice_def)

end
