(* ===== verification/Marketplace.thy ===== *)
theory Marketplace
  imports Dynamic_Price Condition_Display
begin

text \<open>
  The list of models on the marketplace (\<^verbatim>\<open>features/pricing/lib/filters.ts\<close>): search, filters by vendor, group,
  kind of price, endpoint and tag, and sorting; and the texts of task prices
  (\<^verbatim>\<open>task-price-display.ts\<close>).
\<close>

section \<open>Filters\<close>

definition text_includes :: "host \<Rightarrow> jsstr option \<Rightarrow> jsstr \<Rightarrow> bool" where
  "text_includes H v lowerQuery = (case v of Some s \<Rightarrow> js_includes (toLowerCase H s) lowerQuery | None \<Rightarrow> False)"

definition matches_search :: "host \<Rightarrow> jsstr \<Rightarrow> PricingModel \<Rightarrow> bool" where
  "matches_search H lowerQuery m \<longleftrightarrow>
     text_includes H (pm_model_name m) lowerQuery \<or> text_includes H (pm_description m) lowerQuery \<or>
     text_includes H (pm_tags m) lowerQuery \<or> text_includes H (pm_vendor_name m) lowerQuery"

definition filterBySearch :: "host \<Rightarrow> PricingModel list \<Rightarrow> jsstr \<Rightarrow> PricingModel list" where
  "filterBySearch H models query = (if query = [] then models else filter (matches_search H (toLowerCase H query)) models)"

definition filterByVendor :: "PricingModel list \<Rightarrow> jsstr \<Rightarrow> PricingModel list" where
  "filterByVendor models vendor =
     (if vendor = FILTER_ALL then models else filter (\<lambda>m. pm_vendor_name m = Some vendor) models)"

definition filterByGroup :: "PricingModel list \<Rightarrow> jsstr \<Rightarrow> PricingModel list" where
  "filterByGroup models g = (if g = FILTER_ALL then models else filter (\<lambda>m. g \<in> set (model_groups m)) models)"

definition QUOTA_TYPE_ALL :: jsstr where
  "QUOTA_TYPE_ALL = js ''all''"

definition QUOTA_TYPE_TOKEN :: jsstr where
  "QUOTA_TYPE_TOKEN = js ''token''"

definition QUOTA_TYPE_REQUEST :: jsstr where
  "QUOTA_TYPE_REQUEST = js ''request''"

definition QUOTA_TYPE_TASK :: jsstr where
  "QUOTA_TYPE_TASK = js ''task''"

definition filterByQuotaType :: "PricingModel list \<Rightarrow> jsstr \<Rightarrow> PricingModel list" where
  "filterByQuotaType models quotaType =
     (if quotaType = QUOTA_TYPE_ALL then models
      else if quotaType = QUOTA_TYPE_TASK then filter hasTaskUsageSchema models
      else
        (let targetType = (if quotaType = QUOTA_TYPE_TOKEN then QUOTA_TOKEN else QUOTA_REQUEST)
         in filter (\<lambda>m. js_num_eq (pm_quota_type m) targetType \<and> \<not> hasTaskUsageSchema m) models))"

definition filterByEndpointType :: "PricingModel list \<Rightarrow> jsstr \<Rightarrow> PricingModel list" where
  "filterByEndpointType models endpointType =
     (if endpointType = js ''all'' then models
      else filter (\<lambda>m. endpointType \<in> set (or_default (pm_supported_endpoint_types m) [])) models)"

text \<open>\<open>[,;|\s]+\<close>.\<close>

definition tag_separator_re :: regex where
  "tag_separator_re = re_plus (Re_char (\<lambda>c. c = 44 \<or> c = 59 \<or> c = 124 \<or> is_space c))"

definition parseTags :: "jsstr option \<Rightarrow> jsstr list" where
  "parseTags tagsString =
     (let s = or_default tagsString []
      in if s = [] then [] else filter (\<lambda>t. t \<noteq> []) (map trim (re_split tag_separator_re s [])))"

definition extractAllTags :: "host \<Rightarrow> comparison \<Rightarrow> PricingModel list \<Rightarrow> jsstr list" where
  "extractAllTags H cmp models =
     sort_by_compare (\<lambda>a b. num_of_int (cmp a b))
       (fold (\<lambda>model tags. fold (\<lambda>tag. set_add (toLowerCase H tag)) (parseTags (pm_tags model)) tags) models [])"

definition has_tag :: "host \<Rightarrow> jsstr \<Rightarrow> PricingModel \<Rightarrow> bool" where
  "has_tag H tag m \<longleftrightarrow>
     or_default (pm_tags m) [] \<noteq> [] \<and> toLowerCase H tag \<in> set (map (toLowerCase H) (parseTags (pm_tags m)))"

definition filterByTag :: "host \<Rightarrow> PricingModel list \<Rightarrow> jsstr \<Rightarrow> PricingModel list" where
  "filterByTag H models tag = (if tag = FILTER_ALL then models else filter (has_tag H tag) models)"

section \<open>Sorting\<close>

definition getModelPrice :: "PricingModel \<Rightarrow> jsnum" where
  "getModelPrice model =
     (if js_num_eq (pm_quota_type model) (Fin False 0) then pm_model_ratio model else amount_or_zero (pm_model_price model))"

definition SORT_NAME :: jsstr where
  "SORT_NAME = js ''name''"

definition SORT_PRICE_LOW :: jsstr where
  "SORT_PRICE_LOW = js ''price-low''"

definition SORT_PRICE_HIGH :: jsstr where
  "SORT_PRICE_HIGH = js ''price-high''"

definition sortModels :: "comparison \<Rightarrow> PricingModel list \<Rightarrow> jsstr \<Rightarrow> PricingModel list" where
  "sortModels cmp models sortBy =
     (if sortBy = SORT_NAME
      then sort_by_compare (\<lambda>a b. num_of_int (cmp (or_default (pm_model_name a) []) (or_default (pm_model_name b) []))) models
      else if sortBy = SORT_PRICE_LOW then sort_by_compare (\<lambda>a b. js_sub (getModelPrice a) (getModelPrice b)) models
      else if sortBy = SORT_PRICE_HIGH then sort_by_compare (\<lambda>a b. js_sub (getModelPrice b) (getModelPrice a)) models
      else models)"

record ModelFilters =
  mf_search :: jsstr
  mf_vendor :: jsstr
  mf_group :: jsstr
  mf_quotaType :: jsstr
  mf_endpointType :: jsstr
  mf_tag :: jsstr
  mf_sortBy :: jsstr

definition filterAndSortModels :: "host \<Rightarrow> comparison \<Rightarrow> PricingModel list \<Rightarrow> ModelFilters \<Rightarrow> PricingModel list" where
  "filterAndSortModels H cmp models filters =
     (let result = filterBySearch H models (mf_search filters);
          result = filterByVendor result (mf_vendor filters);
          result = filterByGroup result (mf_group filters);
          result = filterByQuotaType result (mf_quotaType filters);
          result = filterByEndpointType result (mf_endpointType filters);
          result = filterByTag H result (mf_tag filters)
      in sortModels cmp result (mf_sortBy filters))"

section \<open>Texts of task prices\<close>

text \<open>The English text of a table is replaced by the name of the field where it is blank.\<close>

definition taskPriceLabel :: "host \<Rightarrow> comparison \<Rightarrow> LocalizedTextValue option \<Rightarrow> jsstr \<Rightarrow> jsstr \<Rightarrow> jsstr" where
  "taskPriceLabel H cmp description field language =
     (let localized =
            (case description of
               Some (Text_table m) \<Rightarrow>
                 Some (Text_table (object_with (js ''en'')
                   (let en = trim (or_default (map_of m (js ''en'')) []) in if en \<noteq> [] then en else field) m))
             | v \<Rightarrow> v);
          t = resolveLocalizedText H cmp localized language
      in if t \<noteq> [] then t else field)"

definition taskEnumLabel :: "host \<Rightarrow> comparison \<Rightarrow> UsageField option \<Rightarrow> jsstr \<Rightarrow> jsstr \<Rightarrow> jsstr" where
  "taskEnumLabel H cmp d v language =
     taskPriceLabel H cmp
       (case d of Some d \<Rightarrow> (case uf_enumLabels d of Some m \<Rightarrow> map_of m v | None \<Rightarrow> None) | None \<Rightarrow> None) v language"

definition taskUsageUnitLabel :: "host \<Rightarrow> comparison \<Rightarrow> UsageField option \<Rightarrow> jsstr \<Rightarrow> jsstr \<Rightarrow> jsstr" where
  "taskUsageUnitLabel H cmp d language fallback =
     (case d of
        None \<Rightarrow> fallback
      | Some d \<Rightarrow>
          if uf_unit d \<noteq> Some (js ''count'') then fallback
          else
            (let t = resolveLocalizedText H cmp (uf_unitLabel d) language in if t \<noteq> [] then t else fallback))"

definition task_condition_text ::
  "host \<Rightarrow> comparison \<Rightarrow> (jsstr \<Rightarrow> exn + jsstr) \<Rightarrow> BillingUsageSchema option \<Rightarrow> jsstr \<Rightarrow> TaskCondition \<Rightarrow> exn + jsstr" where
  "task_condition_text H cmp t schema language c =
     (let d = (case schema of Some m \<Rightarrow> map_of m (kc_field c) | None \<Rightarrow> None);
          label = taskPriceLabel H cmp (case d of Some d \<Rightarrow> uf_description d | None \<Rightarrow> None) (kc_field c) language
      in if (case d of Some d \<Rightarrow> uf_type d = Some Field_boolean | None \<Rightarrow> False)
         then bindR (t (if kc_value c = js ''true'' then js ''Yes'' else js ''No'')) (\<lambda>s. Inr (label @ js '': '' @ s))
         else
           (let optionLabel = taskEnumLabel H cmp d (kc_value c) language
            in Inr (if optionLabel \<noteq> kc_value c then optionLabel else label @ js '': '' @ optionLabel)))"

definition taskPricingConditions ::
  "host \<Rightarrow> comparison \<Rightarrow> (jsstr \<Rightarrow> exn + jsstr) \<Rightarrow> TaskCondition list \<Rightarrow> BillingUsageSchema option \<Rightarrow> jsstr \<Rightarrow> exn + jsstr" where
  "taskPricingConditions H cmp t conditions schema language =
     bindR (mapR (task_condition_text H cmp t schema language) conditions) (\<lambda>texts. Inr (join [32, 183, 32] texts))"

definition hasSimpleTaskPricing :: "PricingModel \<Rightarrow> exn + bool" where
  "hasSimpleTaskPricing model =
     (case pm_billing_usage_schema model of
        None \<Rightarrow> Inr False
      | Some schema \<Rightarrow>
          if pm_billing_mode model \<noteq> Some (js ''tiered_expr'') \<or> or_default (pm_billing_expr model) [] = [] then Inr False
          else
            bindR (splitBillingExprAndRequestRules (or_default (pm_billing_expr model) [])) (\<lambda>(billingExpr, requestRuleExpr).
              if trim requestRuleExpr \<noteq> [] then Inr False
              else
                bindR (getTaskPricingDisplayTiers (Some billingExpr) (Some schema)) (\<lambda>tiers.
                Inr (case tiers of [tier] \<Rightarrow> or_default (kt_conditionText tier) [] = [] | _ \<Rightarrow> False))))"

definition taskTierConditions ::
  "host \<Rightarrow> display_host \<Rightarrow> comparison \<Rightarrow> TaskTier \<Rightarrow> BillingUsageSchema option \<Rightarrow> jsstr \<Rightarrow> exn + jsstr" where
  "taskTierConditions H D cmp tier schema language =
     bindR (taskPricingConditions H cmp (\<lambda>key. dh_translate D key []) (kt_conditions tier) schema language) (\<lambda>usage.
     let condition = or_default (kt_conditionText tier) [];
         time = (if condition = [] then [] else or_default (formatBillingCondition D language condition) condition)
     in Inr (join [32, 183, 32] (filter (\<lambda>s. s \<noteq> []) [usage, time])))"

definition metadata_visitor :: "BillingUsageSchema option \<Rightarrow> ExpressionNode \<Rightarrow> bool \<Rightarrow> exn + bool" where
  "metadata_visitor schema node absent =
     (case node of
        Call name args _ _ \<Rightarrow>
          if name \<noteq> js ''u'' then Inr absent
          else
            (case schema of
               None \<Rightarrow> Inr True
             | Some m \<Rightarrow>
                 (case args of
                    [] \<Rightarrow> Inl (HostError (js ''key is undefined''))
                  | Literal (LStr key) _ _ _ # _ \<Rightarrow> Inr (absent \<or> map_of m key = None)
                  | _ \<Rightarrow> Inr True))
      | _ \<Rightarrow> Inr absent)"

definition pricingDisplayFallbackKey :: "jsstr \<Rightarrow> BillingUsageSchema option \<Rightarrow> exn + jsstr" where
  "pricingDisplayFallbackKey e schema =
     bindR (case compile_source e of
              Failed _ \<Rightarrow> Inr False
            | Ready compiled \<Rightarrow> visitExpression (compiled_ast compiled) (metadata_visitor schema) False) (\<lambda>absent.
     Inr (if absent then js ''Task usage metadata is unavailable. Pricing details cannot be displayed.''
          else js ''This expression cannot be expanded into a price table. View the original expression below.''))"

end
