(* ===== verification/Currency_Props.thy ===== *)
theory Currency_Props
  imports Currency
begin

text \<open>
  What the amounts on the pages promise: the rates in use are positive, a price is never shown as a number of
  tokens, an amount other than zero is never shown as zero, and cutting off zeros keeps the number.
\<close>

section \<open>Rates\<close>

lemma positive_or_positive: "js_lt (Fin False 0) d \<Longrightarrow> js_lt (Fin False 0) (positive_or x d)"
  by (simp add: positive_or_def)

lemma config_positive:
  "js_lt (Fin False 0) (cc_quotaPerUnit (getConfig C))"
  "js_lt (Fin False 0) (cc_usdExchangeRate (getConfig C))"
  "js_lt (Fin False 0) (cc_customCurrencyExchangeRate (getConfig C))"
  by (simp_all add: getConfig_def Let_def positive_or_positive DEFAULT_CURRENCY_CONFIG_def)

lemma billing_meta_rate:
  "(\<exists>symbol code rate. getBillingDisplayMeta (getConfig C) = Meta_currency symbol code rate \<and> js_lt (Fin False 0) rate) \<or>
   (\<exists>symbol rate. getBillingDisplayMeta (getConfig C) = Meta_custom symbol rate \<and> js_lt (Fin False 0) rate)"
proof -
  consider "getDisplayMeta (getConfig C) = Meta_currency [165] (js ''CNY'') (cc_usdExchangeRate (getConfig C))"
    | "getDisplayMeta (getConfig C) = Meta_custom (cc_customCurrencySymbol (getConfig C)) (cc_customCurrencyExchangeRate (getConfig C))"
    | "getDisplayMeta (getConfig C) = Meta_tokens (cc_quotaPerUnit (getConfig C))" | "getDisplayMeta (getConfig C) = usd_meta"
    unfolding getDisplayMeta_def by metis
  then show ?thesis
    using config_positive [of C] by cases (simp_all add: getBillingDisplayMeta_def usd_meta_def)
qed

section \<open>Small amounts\<close>

lemma positive_magnitude:
  assumes "js_lt (Fin False 0) p" "mag_ok p"
  obtains m where "p = Fin False m" "0 < m" | "p = Inf False"
  using assms by (cases p rule: jsnum.exhaust) (auto split: if_splits)

text \<open>An amount below the last shown digit is raised to it; other amounts are shown as they are.\<close>

lemma adjusted_visible:
  assumes "mag_ok x" "x \<noteq> NaN" "\<not> js_num_eq x (Fin False 0)" "js_lt (Fin False 0) (ch_pow10 C digits)" "mag_ok (ch_pow10 C digits)"
  shows "js_le (ch_pow10 C digits) (js_abs (adjustForMinimum C x digits (Fin False 0)))"
    "js_lt (Fin False 0) (adjustForMinimum C x digits (Fin False 0)) \<longleftrightarrow> js_lt (Fin False 0) x"
    "js_le (ch_pow10 C digits) (js_abs x) \<Longrightarrow> adjustForMinimum C x digits (Fin False 0) = x"
proof -
  let ?p = "ch_pow10 C digits" and ?y = "adjustForMinimum C x digits (Fin False 0)"
  have pos: "js_lt (Fin False 0) (js_abs x)" using assms(1-3) by (cases x) (auto split: if_splits)
  have y: "?y = (if js_lt (js_abs x) ?p then (if js_lt (Fin False 0) x then ?p else js_neg ?p) else x)"
    using assms(3) pos by (simp add: adjustForMinimum_def Let_def)
  have p: "?p \<noteq> NaN" "js_abs ?p = ?p" "js_abs (js_neg ?p) = ?p" "\<not> js_lt (Fin False 0) (js_neg ?p)" "\<not> js_lt ?p ?p"
    by (cases rule: positive_magnitude [OF assms(4,5)]; simp)+
  have a: "js_abs x \<noteq> NaN" using assms(2) by (cases x) simp_all
  show "js_le ?p (js_abs ?y)" using p a by (simp add: y js_le_def)
  show "js_lt (Fin False 0) ?y \<longleftrightarrow> js_lt (Fin False 0) x" using p assms(4) by (simp add: y)
  show "js_le ?p (js_abs x) \<Longrightarrow> ?y = x" by (simp add: y js_le_def)
qed

text \<open>The amount that a page of prices hands to the formatter.\<close>

definition billing_value :: "currency_host \<Rightarrow> jsnum \<Rightarrow> jsnum" where
  "billing_value C amountUSD = js_mul amountUSD (meta_rate (getBillingDisplayMeta (getConfig C)))"

definition billing_digits :: "currency_host \<Rightarrow> CurrencyFormatOptions \<Rightarrow> jsnum \<Rightarrow> int" where
  "billing_digits C options a = getCurrencyFractionDigits (billing_value C a) (Some options)"

definition billing_shown :: "currency_host \<Rightarrow> CurrencyFormatOptions \<Rightarrow> jsnum \<Rightarrow> jsnum" where
  "billing_shown C options a =
     adjustForMinimum C (billing_value C a) (billing_digits C options a) (ro_minimumNonZero (mergeOptions (Some options)))"

lemma billing_format:
  assumes "a \<noteq> NaN" "fo_compact options = None"
  shows "\<exists>nf. nf_maximumFractionDigits nf = billing_digits C options a \<and> nf_compact nf = False \<and>
    (formatBillingCurrencyFromUSD C (Some a) (Some options) = ch_format C nf (billing_shown C options a) \<or>
     (\<exists>symbol. formatBillingCurrencyFromUSD C (Some a) (Some options) =
        bindR (ch_format C nf (billing_shown C options a)) (\<lambda>decimal. Inr (symbol @ js '' '' @ decimal))))"
proof -
  let ?m = "mergeOptions (Some options)"
  have c: "ro_compact ?m = False" using assms(2) by (simp add: mergeOptions_def or_default_def DEFAULT_FORMAT_OPTIONS_def)
  let ?nf = "\<lambda>code. amount_format ?m code (billing_digits C options a)"
  have nf: "nf_maximumFractionDigits (?nf code) = billing_digits C options a" "nf_compact (?nf code) = False" for code
    using c by (simp_all add: amount_format_def)
  let ?meta = "getBillingDisplayMeta (getConfig C)"
  have f: "formatBillingCurrencyFromUSD C (Some a) (Some options) = formatCurrencyValue C (billing_value C a) ?m ?meta"
    using assms(1) billing_meta_rate [of C]
    by (auto simp: formatBillingCurrencyFromUSD_def getCurrencyDisplay_def billing_value_def Let_def)
  consider (cur) symbol code rate where "?meta = Meta_currency symbol code rate" | (cust) symbol rate where "?meta = Meta_custom symbol rate"
    using billing_meta_rate [of C] by blast
  then show ?thesis
  proof cases
    case cur
    then show ?thesis using nf unfolding f
      by (intro exI [of _ "?nf (if ro_showSymbol ?m then Some code else None)"])
        (simp add: formatCurrencyValue_def Let_def billing_shown_def billing_digits_def getCurrencyFractionDigits_def)
  next
    case cust
    then have "formatBillingCurrencyFromUSD C (Some a) (Some options) = bindR (ch_format C (?nf None) (billing_shown C options a)) (\<lambda>decimal.
        Inr (if ro_showSymbol ?m then symbol @ js '' '' @ decimal else decimal))" unfolding f
      by (simp add: formatCurrencyValue_def Let_def billing_shown_def billing_digits_def getCurrencyFractionDigits_def)
    moreover have "bindR r Inr = r" for r :: "exn + jsstr" by (cases r) simp_all
    ultimately show ?thesis using nf by (cases "ro_showSymbol ?m") (auto intro!: exI [of _ "?nf None"])
  qed
qed

lemma small_amount_visible:
  assumes "a \<noteq> NaN" "mag_ok (billing_value C a)" "billing_value C a \<noteq> NaN" "\<not> js_num_eq (billing_value C a) (Fin False 0)"
    "fo_compact options = None" "fo_minimumNonZero options = None"
    "js_lt (Fin False 0) (ch_pow10 C (billing_digits C options a))" "mag_ok (ch_pow10 C (billing_digits C options a))"
  shows "js_le (ch_pow10 C (billing_digits C options a)) (js_abs (billing_shown C options a))"
    "js_lt (Fin False 0) (billing_shown C options a) \<longleftrightarrow> js_lt (Fin False 0) (billing_value C a)"
    "js_le (ch_pow10 C (billing_digits C options a)) (js_abs (billing_value C a)) \<Longrightarrow> billing_shown C options a = billing_value C a"
proof -
  have "ro_minimumNonZero (mergeOptions (Some options)) = Fin False 0"
    using assms(6) by (simp add: mergeOptions_def or_default_def DEFAULT_FORMAT_OPTIONS_def)
  then show "js_le (ch_pow10 C (billing_digits C options a)) (js_abs (billing_shown C options a))"
    "js_lt (Fin False 0) (billing_shown C options a) \<longleftrightarrow> js_lt (Fin False 0) (billing_value C a)"
    "js_le (ch_pow10 C (billing_digits C options a)) (js_abs (billing_value C a)) \<Longrightarrow> billing_shown C options a = billing_value C a"
    using adjusted_visible [OF assms(2-4,7,8)] unfolding billing_shown_def by simp_all
qed

section \<open>Documented examples\<close>

text \<open>
  Ten dollars as tokens and in a currency of the operator. The comments of the code give the texts
  \<open>5,000,000\<close> and the symbol directly before the number.
\<close>

definition token_config :: CurrencyConfig where
  "token_config = DEFAULT_CURRENCY_CONFIG\<lparr>cc_quotaDisplayType := js ''TOKENS''\<rparr>"

lemma ten_dollars_in_tokens:
  "ch_currency C = Some token_config \<Longrightarrow> formatCurrencyFromUSD C (Some (Fin False 10)) None = Inr (js ''5000k'')"
proof -
  assume c: "ch_currency C = Some token_config"
  have "getCurrencyDisplay C = getCurrencyDisplay \<lparr>ch_currency = Some token_config, ch_format = \<lambda>_ _. Inr [], ch_pow10 = \<lambda>_. NaN\<rparr>"
    using c by (simp add: getCurrencyDisplay_def getConfig_def)
  also have "\<dots> = (token_config, Meta_tokens (Fin False 500000))" by code_simp
  finally have d: "getCurrencyDisplay C = (token_config, Meta_tokens (Fin False 500000))" .
  have "formatNumberWithSuffix (js_mul (Fin False 10) (cc_quotaPerUnit token_config)) 0 4 True = Inr (js ''5000k'')" by code_simp
  then show ?thesis by (simp add: formatCurrencyFromUSD_def d mergeOptions_def DEFAULT_FORMAT_OPTIONS_def Let_def)
qed

definition euro_config :: CurrencyConfig where
  "euro_config = DEFAULT_CURRENCY_CONFIG\<lparr>cc_quotaDisplayType := js ''CUSTOM'', cc_customCurrencySymbol := [8364],
     cc_customCurrencyExchangeRate := mk_num False (9 / 10)\<rparr>"

lemma ten_dollars_in_euros:
  assumes "ch_currency C = Some euro_config" "formatCurrencyFromUSD C (Some (Fin False 10)) None = Inr s"
  shows "\<exists>decimal. s = [8364, 32] @ decimal"
proof -
  have "getCurrencyDisplay C = getCurrencyDisplay \<lparr>ch_currency = Some euro_config, ch_format = \<lambda>_ _. Inr [], ch_pow10 = \<lambda>_. NaN\<rparr>"
    using assms(1) by (simp add: getCurrencyDisplay_def getConfig_def)
  also have "\<dots> = (euro_config, Meta_custom [8364] (mk_num False (9 / 10)))" by code_simp
  finally show ?thesis using assms(2)
    by (auto simp: formatCurrencyFromUSD_def formatCurrencyValue_def mergeOptions_def DEFAULT_FORMAT_OPTIONS_def Let_def bindR_eq_Inr)
qed

end
