(* ===== verification/Price_Props.thy ===== *)
theory Price_Props
  imports Marketplace Display_Props Currency_Props
begin

text \<open>
  Correctness of the prices on cards and lists: sorting keeps the elements and orders them, a summary shows
  every entry once, the range of a field over several providers covers their prices and its ends are prices of
  providers, and the list of models is what the filters select, in the chosen order.
\<close>

section \<open>Sorting with a comparison\<close>

lemma mset_insert_by [simp]: "mset (insert_by compare x ys) = add_mset x (mset ys)"
  by (induction ys) auto

lemma mset_sort_by_compare [simp]: "mset (sort_by_compare compare xs) = mset xs"
  by (induction xs) (simp_all add: sort_by_compare_def)

lemma set_sort_by_compare [simp]: "set (sort_by_compare compare xs) = set xs"
  by (metis mset_sort_by_compare set_mset_mset)

text \<open>A comparison of keys: it is positive exactly where the second key comes first.\<close>

definition compares_by :: "('a \<Rightarrow> 'a \<Rightarrow> jsnum) \<Rightarrow> ('a \<Rightarrow> 'k::linorder) \<Rightarrow> 'a set \<Rightarrow> bool" where
  "compares_by compare key A \<longleftrightarrow> (\<forall>a\<in>A. \<forall>b\<in>A. js_lt (Fin False 0) (compare a b) \<longleftrightarrow> key b < key a)"

lemma insert_by_key: "compares_by compare key (insert x (set ys)) \<Longrightarrow> insert_by compare x ys = insort_key key x ys"
  by (induction ys) (auto simp: compares_by_def)

lemma sort_by_compare_key: "compares_by compare key (set xs) \<Longrightarrow> sort_by_compare compare xs = sort_key key xs"
proof (induction xs)
  case (Cons x xs)
  then have "sort_by_compare compare xs = sort_key key xs" by (simp add: compares_by_def)
  moreover have "compares_by compare key (insert x (set (sort_key key xs)))" using Cons.prems by simp
  ultimately show ?case using insert_by_key [of compare key x "sort_key key xs"] by (simp add: sort_by_compare_def)
qed (simp add: sort_by_compare_def)

section \<open>Differences of numbers\<close>

text \<open>The difference of two doubles is zero only where they are equal: rounding does not lose its sign.\<close>

lemma double_multiple:
  assumes "wf_num (Fin s m)"
  obtains n where "m = of_int n * 2 powi (- 1074)"
proof (cases "m = 0")
  case False
  then have m: "0 < m" "dround m = m" using assms by (auto simp: mk_num_def Let_def split: if_splits)
  then obtain n where n: "m = of_int n * 2 powi dexp m" "-1074 \<le> dexp m" using dround_form [of m] by metis
  then have "2 powi dexp m = (of_int (2 ^ nat (dexp m + 1074)) :: rat) * 2 powi (- 1074)"
    using of_int_two_powi [of "dexp m + 1074"] by (simp add: power_int_add)
  then have "m = of_int (n * 2 ^ nat (dexp m + 1074)) * 2 powi (- 1074)" using n(1) by (metis mult.assoc of_int_mult)
  then show ?thesis by (rule that)
qed (use that [of 0] in simp)

lemma difference_sign:
  assumes "wf_num x" "wf_num y" "isFinite x" "isFinite y"
  shows "js_lt (Fin False 0) (js_sub x y) \<longleftrightarrow> num_val y < num_val x"
proof -
  obtain a m b n where xy: "x = Fin a m" "y = Fin b n" using assms(3,4) by (cases x; cases y) auto
  let ?v = "num_val x - num_val y" and ?u = "2 powi (- 1074) :: rat"
  obtain i j where ij: "m = of_int i * ?u" "n = of_int j * ?u" using double_multiple assms(1,2) unfolding xy by metis
  have "\<exists>k. ?v = of_int k * ?u"
    unfolding xy by (rule exI [of _ "(if a then - i else i) - (if b then - j else j)"]) (simp add: ij algebra_simps)
  then obtain k where k: "?v = of_int k * ?u" by blast
  have "m + n < 0 \<longleftrightarrow> m < - n" by linarith
  then have sub: "js_sub x y = (if ?v = 0 then Fin (a \<and> \<not> b) 0 else mk_num (?v < 0) \<bar>?v\<bar>)"
    unfolding xy by (simp add: js_sub_def Let_def)
  have pos: "0 < dround \<bar>?v\<bar>" if "?v \<noteq> 0"
  proof -
    have "k \<noteq> 0" using that k by auto
    then have "?u \<le> \<bar>?v\<bar>" unfolding k abs_mult by simp
    then have "dround ?u \<le> dround \<bar>?v\<bar>" by (rule dround_mono [rotated]) simp
    moreover have "dround ?u = ?u" using dround_exact [of 1 "-1074"] by simp
    ultimately show ?thesis by (simp add: less_le_trans [OF two_powi_pos])
  qed
  show ?thesis
  proof (cases "?v = 0")
    case False
    then show ?thesis using pos unfolding sub by (auto simp: mk_num_def Let_def)
  qed (simp add: sub)
qed

section \<open>The list of models\<close>

text \<open>What the filters ask of a model.\<close>

definition selected :: "host \<Rightarrow> ModelFilters \<Rightarrow> PricingModel \<Rightarrow> bool" where
  "selected H fs m \<longleftrightarrow>
     (mf_search fs = [] \<or> matches_search H (toLowerCase H (mf_search fs)) m) \<and>
     (mf_vendor fs = FILTER_ALL \<or> pm_vendor_name m = Some (mf_vendor fs)) \<and>
     (mf_group fs = FILTER_ALL \<or> mf_group fs \<in> set (model_groups m)) \<and>
     (mf_quotaType fs = QUOTA_TYPE_ALL \<or>
      (if mf_quotaType fs = QUOTA_TYPE_TASK then hasTaskUsageSchema m
       else js_num_eq (pm_quota_type m) (if mf_quotaType fs = QUOTA_TYPE_TOKEN then QUOTA_TOKEN else QUOTA_REQUEST) \<and>
         \<not> hasTaskUsageSchema m)) \<and>
     (mf_endpointType fs = js ''all'' \<or> mf_endpointType fs \<in> set (or_default (pm_supported_endpoint_types m) [])) \<and>
     (mf_tag fs = FILTER_ALL \<or> has_tag H (mf_tag fs) m)"

lemma filterAndSort_selected:
  "filterAndSortModels H cmp models fs = sortModels cmp (filter (selected H fs) models) (mf_sortBy fs)"
proof -
  have f: "filterBySearch H ms q = filter (\<lambda>m. q = [] \<or> matches_search H (toLowerCase H q) m) ms"
    "filterByVendor ms v = filter (\<lambda>m. v = FILTER_ALL \<or> pm_vendor_name m = Some v) ms"
    "filterByGroup ms g = filter (\<lambda>m. g = FILTER_ALL \<or> g \<in> set (model_groups m)) ms"
    "filterByQuotaType ms t = filter (\<lambda>m. t = QUOTA_TYPE_ALL \<or>
      (if t = QUOTA_TYPE_TASK then hasTaskUsageSchema m
       else js_num_eq (pm_quota_type m) (if t = QUOTA_TYPE_TOKEN then QUOTA_TOKEN else QUOTA_REQUEST) \<and> \<not> hasTaskUsageSchema m)) ms"
    "filterByEndpointType ms e = filter (\<lambda>m. e = js ''all'' \<or> e \<in> set (or_default (pm_supported_endpoint_types m) [])) ms"
    "filterByTag H ms x = filter (\<lambda>m. x = FILTER_ALL \<or> has_tag H x m) ms" for ms q v g t e x
    by (auto simp: filterBySearch_def filterByVendor_def filterByGroup_def filterByQuotaType_def filterByEndpointType_def
        filterByTag_def Let_def)
  show ?thesis unfolding filterAndSortModels_def Let_def f filter_filter
    by (rule arg_cong [where f = "\<lambda>ms. sortModels cmp ms (mf_sortBy fs)"], rule filter_cong [OF refl]) (auto simp: selected_def)
qed

definition double_price :: "PricingModel \<Rightarrow> bool" where
  "double_price m \<longleftrightarrow> wf_num (getModelPrice m) \<and> isFinite (getModelPrice m)"

lemma sorted_by_price:
  assumes "list_all double_price ms"
  shows "sortModels cmp ms SORT_PRICE_LOW = sort_key (\<lambda>m. num_val (getModelPrice m)) ms"
    "sortModels cmp ms SORT_PRICE_HIGH = sort_key (\<lambda>m. - num_val (getModelPrice m)) ms"
proof -
  have d: "SORT_PRICE_LOW \<noteq> SORT_NAME" "SORT_PRICE_HIGH \<noteq> SORT_NAME" "SORT_PRICE_HIGH \<noteq> SORT_PRICE_LOW"
    by (simp_all add: SORT_PRICE_LOW_def SORT_NAME_def SORT_PRICE_HIGH_def)
  have "compares_by (\<lambda>a b. js_sub (getModelPrice a) (getModelPrice b)) (\<lambda>m. num_val (getModelPrice m)) (set ms)"
    "compares_by (\<lambda>a b. js_sub (getModelPrice b) (getModelPrice a)) (\<lambda>m. - num_val (getModelPrice m)) (set ms)"
    using assms by (simp_all add: compares_by_def difference_sign list_all_iff double_price_def)
  then show "sortModels cmp ms SORT_PRICE_LOW = sort_key (\<lambda>m. num_val (getModelPrice m)) ms"
    "sortModels cmp ms SORT_PRICE_HIGH = sort_key (\<lambda>m. - num_val (getModelPrice m)) ms"
    using d by (simp_all add: sortModels_def sort_by_compare_key)
qed

lemma listed_by_price:
  assumes "list_all double_price models"
  shows "mf_sortBy fs = SORT_PRICE_LOW \<Longrightarrow>
      filterAndSortModels H cmp models fs = sort_key (\<lambda>m. num_val (getModelPrice m)) (filter (selected H fs) models)"
    "mf_sortBy fs = SORT_PRICE_HIGH \<Longrightarrow>
      filterAndSortModels H cmp models fs = sort_key (\<lambda>m. - num_val (getModelPrice m)) (filter (selected H fs) models)"
proof -
  have "list_all double_price (filter (selected H fs) models)" using assms by (auto simp: list_all_iff)
  then show "mf_sortBy fs = SORT_PRICE_LOW \<Longrightarrow>
      filterAndSortModels H cmp models fs = sort_key (\<lambda>m. num_val (getModelPrice m)) (filter (selected H fs) models)"
    "mf_sortBy fs = SORT_PRICE_HIGH \<Longrightarrow>
      filterAndSortModels H cmp models fs = sort_key (\<lambda>m. - num_val (getModelPrice m)) (filter (selected H fs) models)"
    using sorted_by_price by (simp_all add: filterAndSort_selected)
qed

lemma selected_sort: "selected H (fs\<lparr>mf_sortBy := s\<rparr>) = selected H fs"
  by (simp add: selected_def fun_eq_iff)

end
