(* ===== verification/Summary_Props.thy ===== *)
theory Summary_Props
  imports Price_Props
begin

text \<open>
  The summary of a model: every entry is shown once, no price in it is \<open>NaN\<close>, and for a model with several
  providers the range of a price covers the prices of all of them.
\<close>

section \<open>Entries of a summary\<close>

text \<open>Every entry is either primary or secondary.\<close>

lemma split_entries: "mset (filter P es) + mset (filter (\<lambda>e. \<not> P e) es) = mset es"
  by (induction es) auto

lemma model_summary_cases:
  assumes "model_summary H C cmp model options = Inr (Some s)"
  obtains tiers timeTiers entries mixed rules base rest tier where
    "isDynamicPricingModel model" "model_tiers H model = Inr tiers"
    "splitBillingExprAndRequestRules (or_default (pm_billing_expr model) []) = Inr (base, rest)"
    "(if isTaskUsagePricingModel model then Inr None
      else getCurrentTimePricingTiers H base (or_default (dp_now options) (Some (host_now H)))) = Inr timeTiers"
    "tier = None \<or> tier \<in> Some ` set (case timeTiers of Some ts \<Rightarrow> map Token_tier ts | None \<Rightarrow> tiers)"
    "summary_entries C cmp model options tiers (case timeTiers of Some ts \<Rightarrow> map Token_tier ts | None \<Rightarrow> tiers) tier = Inr (entries, mixed)"
    "s = finished_summary model tiers tier (timeTiers \<noteq> None) entries mixed rules"
proof -
  have dyn: "isDynamicPricingModel model" using assms by (auto simp: model_summary_def split: if_splits)
  obtain tiers base rest where a: "model_tiers H model = Inr tiers"
    "splitBillingExprAndRequestRules (or_default (pm_billing_expr model) []) = Inr (base, rest)"
    using assms dyn by (auto simp: model_summary_def bindR_eq_Inr)
  obtain timeTiers where t: "(if isTaskUsagePricingModel model then Inr None
      else getCurrentTimePricingTiers H base (or_default (dp_now options) (Some (host_now H)))) = Inr timeTiers"
    using assms dyn a by (auto simp: model_summary_def bindR_eq_Inr)
  define st where "st = (case timeTiers of Some ts \<Rightarrow> map Token_tier ts | None \<Rightarrow> tiers)"
  define tier where "tier = (if st = [] then None else if isTaskUsagePricingModel model then Some (last st) else Some (hd st))"
  have "bindR (summary_entries C cmp model options tiers st tier) (\<lambda>(entries, mixed). bindR (model_rules model) (\<lambda>rules.
      Inr (Some (finished_summary model tiers tier (timeTiers \<noteq> None) entries mixed rules)))) = Inr (Some s)"
    using assms unfolding model_summary_def Let_def a bindR_simps prod.case t st_def [symmetric] tier_def [symmetric]
    using dyn by simp
  then obtain entries mixed rules where e: "summary_entries C cmp model options tiers st tier = Inr (entries, mixed)"
    "s = finished_summary model tiers tier (timeTiers \<noteq> None) entries mixed rules"
    by (auto simp: bindR_eq_Inr)
  have "tier = None \<or> tier \<in> Some ` set st" by (auto simp: tier_def)
  then show thesis using that dyn a t e by (auto simp: st_def)
qed

lemma model_summary_split:
  assumes "model_summary H C cmp model options = Inr (Some s)"
  shows "mset (sm_primaryEntries s) + mset (sm_secondaryEntries s) = mset (sm_entries s)"
proof -
  obtain tiers timed tier es mixed rules where s: "s = finished_summary model tiers tier timed es mixed rules"
    using assms by (rule model_summary_cases)
  show ?thesis using split_entries [of "\<lambda>e. \<not> per_use e" es] split_entries [of "\<lambda>e. per_use e \<or> is_primary e" es]
    by (simp add: s finished_summary_def Let_def)
qed

lemma provider_summary_split:
  assumes "provider_summary C model options summaries = Inr s"
  shows "mset (sm_primaryEntries s) + mset (sm_secondaryEntries s) = mset (sm_entries s)"
  using assms split_entries [of "\<lambda>e. \<not> per_use e \<or> de_field e = js ''modelPrice''" "sm_entries s"]
  by (auto simp: provider_summary_def Let_def bindR_eq_Inr)

section \<open>Prices that are numbers\<close>

text \<open>A fixed price of a tier is a literal of the expression.\<close>

definition fixed_finite :: "'a TokenTier_scheme \<Rightarrow> bool" where
  "fixed_finite t \<longleftrightarrow> (\<forall>a. tt_fixedPrice t = Some a \<longrightarrow> isFinite a)"

lemma tokenTier_finite:
  assumes "tokenTier n cs = Some t" "wf_ast n"
  shows "fixed_finite t"
  using assms(1)
proof (rule tokenTier_shape)
  fix i a b body s e
  assume n: "n = Call (js ''tier'') [Literal (LStr (tt_label t)) i a b, body] s e"
    and fx: "\<And>amount. tt_fixedPrice t = Some amount \<Longrightarrow> \<exists>i a b s e. body = Call (js ''fixed'') [Literal (LNum amount) i a b] s e"
  have "wf_ast body" using assms(2) n by (simp add: node_invariants)
  then show ?thesis unfolding fixed_finite_def using fx by (fastforce simp: node_invariants wf_ast_iff [of "Literal v i x y" for v i x y])
qed

lemma tier_chain_finite: "tier_chain n = Some ts \<Longrightarrow> wf_ast n \<Longrightarrow> list_all fixed_finite ts"
proof (induction n arbitrary: ts rule: tier_chain.induct)
  case (1 c y n s e)
  then have w: "wf_ast y" "wf_ast n" by (simp_all add: node_invariants)
  then show ?case using "1.prems"(1) "1.IH" tokenTier_finite by (auto split: option.splits)
qed (auto dest: tokenTier_finite)

lemma audio_tiers_finite:
  assumes "audio_tiers n = Some ts" "wf_ast n"
  shows "list_all fixed_finite ts"
proof -
  obtain f l r y m s e s' e' where n: "n = Conditional (Binary f l r s e) y m s' e'"
    using assms(1) by (auto simp: audio_tiers_def split: ExpressionNode.splits)
  obtain a t where at: "tokenTier y [] = Some a" "tokenTier m [] = Some t"
    "ts = [a\<lparr>tt_conditionText := Some (js ''Audio requests'')\<rparr>, t\<lparr>tt_conditionText := Some (js ''Text-only requests'')\<rparr>]"
    using assms(1) unfolding n by (auto simp: audio_tiers_def split: if_splits option.splits)
  have "fixed_finite a" "fixed_finite t" using at tokenTier_finite assms(2) n by (auto simp: node_invariants)
  then show ?thesis using at(3) by (simp add: fixed_finite_def)
qed

lemma tiers_finite: "readTokenTierChain n = Some ts \<Longrightarrow> wf_ast n \<Longrightarrow> list_all fixed_finite ts"
proof (induction n arbitrary: ts rule: measure_induct_rule [where f = size])
  case (less n)
  from less.prems(1) show ?case
  proof (rule readTokenTierChain_cases)
    fix l r s e m us
    assume n: "n = Binary (js ''*'') l r s e" and m: "is_image_count l \<and> m = r \<or> is_image_count r \<and> m = l"
      and us: "readTokenTierChain m = Some us" "ts = map (\<lambda>t. t\<lparr>tt_imageCount := True\<rparr>) us"
    have "size m < size n" "wf_ast m" using n m less.prems(2) by (auto simp: node_invariants)
    then have "list_all fixed_finite us" using less.IH us(1) by blast
    then show ?thesis unfolding us(2) by (simp add: list_all_iff fixed_finite_def)
  qed (use less.prems(2) audio_tiers_finite tier_chain_finite in blast)+
qed

lemma time_leaf_finite: "time_leaf src n path = Some ts \<Longrightarrow> wf_ast n \<Longrightarrow> list_all fixed_finite ts"
  using tiers_finite [of n] by (auto simp: time_leaf_def list_all_iff fixed_finite_def time_tier_def split: option.splits if_splits)

lemma branches_finite: "timeTierBranches src n path = Inr (Some ts) \<Longrightarrow> wf_ast n \<Longrightarrow> list_all fixed_finite ts"
proof (induction src n path arbitrary: ts rule: timeTierBranches.induct)
  case (1 src c y n s e path)
  have w: "wf_ast y" "wf_ast n" using "1.prems"(2) by (simp_all add: node_invariants)
  obtain timed where t: "isTimeCondition c = Inr timed" using "1.prems"(1) by (auto simp: bindR_eq_Inr)
  show ?case
  proof (cases timed)
    case True
    then obtain a b where ab: "timeTierBranches src y (path @ [(c, True)]) = Inr (Some a)"
      "timeTierBranches src n (path @ [(c, False)]) = Inr (Some b)" "ts = a @ b"
      using "1.prems"(1) t by (auto simp: bindR_eq_Inr split: option.splits)
    then show ?thesis using "1.IH"(1) [OF t True ab(1) w(1)] "1.IH"(2) [OF t True ab(1) ab(2) w(2)] by (auto simp: list_all_iff)
  next
    case False
    then show ?thesis using "1.prems" t time_leaf_finite by fastforce
  qed
qed (use time_leaf_finite in \<open>fastforce simp: \<close>)+

lemma compiled_wf: "compile_source src = Ready compiled \<Longrightarrow> wf_ast (compiled_ast compiled)"
  by (auto simp: compile_source_def compile_steps_def bindR_eq_Inr dest: parse_wf_ast split: sum.splits if_splits)

fun finite_tier :: "DynamicPricingTier \<Rightarrow> bool" where
  "finite_tier (Token_tier t) \<longleftrightarrow> (\<forall>a. pt_fixedPrice t = Some a \<longrightarrow> isFinite a)"
| "finite_tier (Task_tier t) \<longleftrightarrow> True"

lemma mapped_finite: "list_all fixed_finite ts \<Longrightarrow> list_all (\<lambda>t. finite_tier (Token_tier (mapTokenTier t))) ts"
  by (auto simp: list_all_iff fixed_finite_def mapTokenTier_def)

lemma time_pricing_finite:
  assumes "time_pricing H (compile_source src) now = Inr (Some (tiers, current))"
  shows "list_all fixed_finite tiers" "list_all fixed_finite current"
proof -
  obtain compiled where c: "compile_source src = Ready compiled" using assms by (cases "compile_source src") (auto simp: time_pricing_def)
  have t: "timeTierBranches (compiled_source compiled) (compiled_ast compiled) [] = Inr (Some tiers)"
    using assms c by (auto simp: time_pricing_def bindR_eq_Inr split: option.splits)
  show tiers: "list_all fixed_finite tiers" using branches_finite [OF t compiled_wf [OF c]] .
  have "set current \<subseteq> set tiers" using assms c t by (auto simp: time_pricing_def bindR_eq_Inr split: option.splits)
  then show "list_all fixed_finite current" using tiers by (auto simp: list_all_iff)
qed

lemma parsed_tiers_finite:
  assumes "parseTiersFromExpr H e = Inr ts"
  shows "list_all (\<lambda>t. finite_tier (Token_tier t)) ts"
proof (cases "e = []")
  case False
  show ?thesis
  proof (cases "compile_source e")
    case (Ready compiled)
    show ?thesis
    proof (cases "readTokenTierChain (compiled_ast compiled)")
      case None
      then obtain r where r: "time_pricing H (compile_source e) None = Inr r"
        "ts = (case r of Some (tiers, _) \<Rightarrow> map mapTokenTier tiers | None \<Rightarrow> [])"
        using assms False Ready by (auto simp: parseTiersFromExpr_def bindR_eq_Inr)
      show ?thesis
      proof (cases r)
        case (Some p)
        then obtain tiers current where p: "r = Some (tiers, current)" by (cases p) auto
        show ?thesis using mapped_finite [OF time_pricing_finite(1) [OF r(1) [unfolded p]]] r(2) p by (simp add: list_all_iff)
      qed (use r in simp)
    next
      case (Some us)
      then have "ts = map mapTokenTier us" using assms False Ready by (simp add: parseTiersFromExpr_def)
      then show ?thesis using mapped_finite [OF tiers_finite [OF Some compiled_wf [OF Ready]]] by (auto simp: list_all_iff)
    qed
  qed (use assms False in \<open>simp add: parseTiersFromExpr_def\<close>)
qed (use assms in \<open>simp add: parseTiersFromExpr_def\<close>)

lemma current_tiers_finite:
  assumes "getCurrentTimePricingTiers H e now = Inr (Some ts)"
  shows "list_all (\<lambda>t. finite_tier (Token_tier t)) ts"
proof -
  obtain tiers current where "time_pricing H (compile_source e) (Some now) = Inr (Some (tiers, current))" "ts = map mapTokenTier current"
    using assms by (auto simp: getCurrentTimePricingTiers_def bindR_eq_Inr)
  then show ?thesis using mapped_finite [OF time_pricing_finite(2)] by (auto simp: list_all_iff)
qed

lemma model_tiers_finite:
  assumes "model_tiers H model = Inr ts"
  shows "list_all finite_tier ts"
  using assms parsed_tiers_finite
  by (auto simp: model_tiers_def bindR_eq_Inr list_all_iff split: if_splits) 

text \<open>No entry has a value or an end of its range that is not a number.\<close>

definition number_entry :: "DynamicPriceEntry \<Rightarrow> bool" where
  "number_entry e \<longleftrightarrow> de_value e \<noteq> NaN \<and> de_minValue e \<noteq> Some NaN \<and> de_maxValue e \<noteq> Some NaN"

lemma price_entry_number: "v \<noteq> NaN \<Longrightarrow> number_entry (price_entry key field label shortLabel v formatted u)"
  by (simp add: number_entry_def price_entry_def)

lemma shown_price_finite: "shown_price v = Some x \<Longrightarrow> isFinite x \<and> x \<noteq> NaN"
  by (auto simp: shown_price_def split: option.splits if_splits)

lemma mapR_iff: "mapR f xs = Inr ys \<longleftrightarrow> list_all2 (\<lambda>x y. f x = Inr y) xs ys"
  by (induction xs arbitrary: ys) (auto simp: bindR_eq_Inr list_all2_Cons1)

lemma mapR_set: "mapR f xs = Inr ys \<Longrightarrow> y \<in> set ys \<longleftrightarrow> (\<exists>x\<in>set xs. f x = Inr y)"
  by (induction xs arbitrary: ys) (auto simp: bindR_eq_Inr)

lemma mapR_all:
  assumes "mapR f xs = Inr ys" "\<And>x y. x \<in> set xs \<Longrightarrow> f x = Inr y \<Longrightarrow> P y"
  shows "list_all P ys"
  using assms unfolding mapR_iff list_all2_conv_all_nth list_all_length by (metis nth_mem)

lemma usage_entry_number: "usage_entry C t options fd = Inr es \<Longrightarrow> list_all number_entry es"
  by (cases fd) (auto simp: usage_entry_def bindR_eq_Inr number_entry_def price_entry_def dest: shown_price_finite
      split: option.splits if_splits)

lemma variable_entry_number: "variable_entry C t options v = Inr es \<Longrightarrow> list_all number_entry es"
  by (auto simp: variable_entry_def Let_def bindR_eq_Inr number_entry_def price_entry_def dest: shown_price_finite
      split: option.splits if_splits)

lemma concat_all: "list_all (list_all P) xss \<Longrightarrow> list_all P (concat xss)"
  by (induction xss) auto

lemma tier_entries_number:
  assumes "getDynamicPriceEntries C cmp tier options = Inr es" "\<And>t. tier = Some t \<Longrightarrow> finite_tier t"
  shows "list_all number_entry es"
proof (cases tier)
  case (Some t)
  let ?vars = "bindR (mapR (variable_entry C t options) BILLING_PRICING_VARS) (\<lambda>es. Inr (sort_by_compare compare_primary (concat es)))"
  have vars: "list_all number_entry es" if v: "?vars = Inr es" for es
  proof -
    obtain xs where xs: "mapR (variable_entry C t options) BILLING_PRICING_VARS = Inr xs" "es = sort_by_compare compare_primary (concat xs)"
      using v by (auto simp: bindR_eq_Inr)
    have "list_all number_entry (concat xs)" using mapR_all [OF xs(1), of "list_all number_entry"] variable_entry_number concat_all by blast
    then show ?thesis using xs(2) by (simp add: list_all_iff)
  qed
  show ?thesis
  proof (cases t)
    case (Token_tier u)
    then show ?thesis using assms Some vars
      by (auto simp: getDynamicPriceEntries_def Let_def bindR_eq_Inr intro!: price_entry_number split: option.splits BillingUnit.splits)
  next
    case (Task_tier u)
    show ?thesis
    proof (cases "dp_usageSchema options")
      case None
      then show ?thesis using assms(1) Some Task_tier vars by (simp add: getDynamicPriceEntries_def Let_def)
    next
      case (Some schema)
      then obtain xs where xs: "mapR (usage_entry C u options) (getTaskNumberFields cmp (Some schema)) = Inr xs"
        using assms(1) \<open>tier = Some t\<close> Task_tier by (auto simp: getDynamicPriceEntries_def Let_def bindR_eq_Inr)
      have c: "list_all number_entry (concat xs)"
        using mapR_all [OF xs, of "list_all number_entry"] usage_entry_number concat_all by blast
      have "kt_constant u \<noteq> NaN" if "js_lt (Fin False 0) (kt_constant u)" using that by auto
      then show ?thesis using assms(1) \<open>tier = Some t\<close> Task_tier Some xs c
        by (auto simp: getDynamicPriceEntries_def Let_def bindR_eq_Inr intro!: price_entry_number split: if_splits)
    qed
  qed
qed (use assms in \<open>simp add: getDynamicPriceEntries_def\<close>)

lemma price_range_finite: "price_range tiers field = Some (lo, hi) \<Longrightarrow> isFinite lo \<and> isFinite hi"
  by (auto simp: price_range_def Let_def split: prod.splits if_splits)

lemma price_ranges_finite:
  assumes "map_of (price_ranges cmp model tiers) field = Some (lo, hi)"
  shows "isFinite lo \<and> isFinite hi"
proof -
  have "map_of (fold (\<lambda>(field, _) m. case price_range tiers field of Some r \<Rightarrow> js_map_set field r m | None \<Rightarrow> m) fs m) field = Some r \<Longrightarrow>
      map_of m field = Some r \<or> price_range tiers field = Some r" for fs :: "(jsstr \<times> UsageField) list" and m r
  proof (induction fs arbitrary: m)
    case (Cons f fs)
    obtain g d where f: "f = (g, d)" by (cases f)
    show ?case
    proof (cases "price_range tiers g")
      case None
      then show ?thesis using Cons f by simp
    next
      case (Some r')
      then show ?thesis using Cons.IH [of "js_map_set g r' m"] Cons.prems f by (auto simp: js_map_get_set split: if_splits)
    qed
  qed simp
  then show ?thesis using assms price_range_finite unfolding price_ranges_def by fastforce
qed

lemma ranged_entry_number:
  assumes "ranged_entry C options (price_ranges cmp model tiers) e = Inr e'" "number_entry e"
  shows "number_entry e'"
  using assms price_ranges_finite [of cmp model tiers "de_field e"]
  by (auto simp: ranged_entry_def bindR_eq_Inr number_entry_def split: option.splits)

lemma summary_entries_number:
  assumes "summary_entries C cmp model options tiers st tier = Inr (es, mixed)" "list_all finite_tier st"
    "tier = None \<or> tier \<in> Some ` set st"
  shows "list_all number_entry es"
proof -
  let ?o = "options\<lparr>dp_usageSchema := pm_billing_usage_schema model\<rparr>"
  obtain xs where xs: "getDynamicPriceEntries C cmp tier ?o = Inr xs" using assms(1) by (auto simp: summary_entries_def bindR_eq_Inr)
  have num: "list_all number_entry ys" if "getDynamicPriceEntries C cmp t o' = Inr ys" "t = None \<or> t \<in> Some ` set st" for t o' ys
    using that(1) by (rule tier_entries_number) (use that(2) assms(2) in \<open>auto simp: list_all_iff\<close>)
  have nx: "list_all number_entry xs" using num [OF xs assms(3)] .
  show ?thesis
  proof (cases "isTaskUsagePricingModel model")
    case True
    then have r: "mapR (ranged_entry C options (price_ranges cmp model tiers)) xs = Inr es"
      using assms(1) xs by (auto simp: summary_entries_def bindR_eq_Inr)
    show ?thesis using r by (rule mapR_all) (use nx ranged_entry_number in \<open>auto simp: list_all_iff\<close>)
  next
    case False
    have found: "List.find P st = Some t \<Longrightarrow> Some t \<in> Some ` set st" for P t by (auto simp: find_Some_iff)
    have "es = xs \<or> (\<exists>a b t u. List.find is_token_tier st = Some t \<and> List.find is_request_tier st = Some u \<and>
        getDynamicPriceEntries C cmp (Some t) options = Inr a \<and> getDynamicPriceEntries C cmp (Some u) options = Inr b \<and> es = a @ b)"
      using assms(1) False xs by (auto simp: summary_entries_def bindR_eq_Inr split: option.splits)
    then show ?thesis using nx num found by fastforce
  qed
qed

lemma model_summary_number:
  assumes "model_summary H C cmp model options = Inr (Some s)"
  shows "list_all number_entry (sm_entries s)"
proof -
  obtain tiers timeTiers es mixed rules base tier where c: "model_tiers H model = Inr tiers"
    "(if isTaskUsagePricingModel model then Inr None
      else getCurrentTimePricingTiers H base (or_default (dp_now options) (Some (host_now H)))) = Inr timeTiers"
    "tier = None \<or> tier \<in> Some ` set (case timeTiers of Some ts \<Rightarrow> map Token_tier ts | None \<Rightarrow> tiers)"
    "summary_entries C cmp model options tiers (case timeTiers of Some ts \<Rightarrow> map Token_tier ts | None \<Rightarrow> tiers) tier = Inr (es, mixed)"
    "s = finished_summary model tiers tier (timeTiers \<noteq> None) es mixed rules"
    using assms by (rule model_summary_cases)
  have "list_all finite_tier (case timeTiers of Some ts \<Rightarrow> map Token_tier ts | None \<Rightarrow> tiers)"
    using c(2) current_tiers_finite model_tiers_finite [OF c(1)]
    by (auto simp: list_all_iff split: option.splits if_splits)
  then show ?thesis using summary_entries_number [OF c(4) _ c(3)] c(5) by (simp add: finished_summary_def Let_def)
qed

section \<open>Prices of several providers\<close>

lemma js_min_cases:
  assumes "a \<noteq> NaN" "b \<noteq> NaN"
  shows "js_min a b \<in> {a, b}" "js_le (js_min a b) a" "js_le (js_min a b) b" "js_min a b \<noteq> NaN"
  using assms by (cases a; cases b; auto simp: js_min_def js_le_def)+

lemma js_max_cases:
  assumes "a \<noteq> NaN" "b \<noteq> NaN"
  shows "js_max a b \<in> {a, b}" "js_le a (js_max a b)" "js_le b (js_max a b)" "js_max a b \<noteq> NaN"
  using assms by (cases a; cases b; auto simp: js_max_def js_le_def)+

lemma js_le_trans: "js_le a b \<Longrightarrow> js_le b c \<Longrightarrow> js_le a c"
  by (cases a; cases b; cases c) (auto simp: js_le_def split: if_splits)

lemma entry_ends_number: "number_entry e \<Longrightarrow> entry_min e \<noteq> NaN \<and> entry_max e \<noteq> NaN"
  by (auto simp: number_entry_def entry_min_def entry_max_def or_default_def split: option.splits)

text \<open>What the table of ranges holds after some entries: one range per key, with ends taken from the entries.\<close>

definition range_ok :: "DynamicPriceEntry list \<Rightarrow> jsstr \<Rightarrow> DynamicPriceEntry \<times> jsnum \<times> jsnum \<Rightarrow> bool" where
  "range_ok es k = (\<lambda>(m, lo, hi). entry_key m = k \<and> lo \<noteq> NaN \<and> hi \<noteq> NaN \<and>
     (\<exists>e\<in>set es. entry_key e = k \<and> lo = entry_min e) \<and> (\<exists>e\<in>set es. entry_key e = k \<and> hi = entry_max e) \<and>
     (\<forall>e\<in>set es. entry_key e = k \<longrightarrow> js_le lo (entry_min e) \<and> js_le (entry_max e) hi))"

definition covers_entries :: "DynamicPriceEntry list \<Rightarrow> (jsstr, DynamicPriceEntry \<times> jsnum \<times> jsnum) js_map \<Rightarrow> bool" where
  "covers_entries es ranges \<longleftrightarrow> distinct (map fst ranges) \<and>
     (\<forall>k. case map_of ranges k of None \<Rightarrow> \<forall>e\<in>set es. entry_key e \<noteq> k | Some r \<Rightarrow> range_ok es k r)"

lemma covers_None: "covers_entries es ranges \<Longrightarrow> map_of ranges k = None \<Longrightarrow> e \<in> set es \<Longrightarrow> entry_key e \<noteq> k"
  unfolding covers_entries_def by (drule conjunct2, drule spec [of _ k]) simp

lemma covers_Some: "covers_entries es ranges \<Longrightarrow> map_of ranges k = Some r \<Longrightarrow> range_ok es k r"
  unfolding covers_entries_def by (drule conjunct2, drule spec [of _ k]) simp

lemma entry_key_update [simp]:
  "entry_key (e\<lparr>de_key := k\<rparr>) = entry_key e" "entry_key (e\<lparr>de_unitLabel := l\<rparr>) = entry_key e"
  by (simp_all add: entry_key_def)

lemma js_min_start: "x \<noteq> NaN \<Longrightarrow> js_min (Inf False) x = x" "x \<noteq> NaN \<Longrightarrow> js_max (Inf True) x = x"
  by (cases x; simp add: js_min_def js_max_def)+

lemma js_le_refl: "x \<noteq> NaN \<Longrightarrow> js_le x x"
  by (cases x) (simp_all add: js_le_def)

lemma merge_entry_step:
  assumes "covers_entries es ranges" "number_entry e"
  obtains r where "merge_entry e ranges = js_map_set (entry_key e) r ranges" "range_ok (es @ [e]) (entry_key e) r"
proof -
  let ?k = "entry_key e" and ?label = "\<lambda>m. if no_label (de_unitLabel m) then m\<lparr>de_unitLabel := de_unitLabel e\<rparr> else m"
  have n: "entry_min e \<noteq> NaN" "entry_max e \<noteq> NaN" using entry_ends_number [OF assms(2)] by simp_all
  show thesis
  proof (cases "map_of ranges ?k")
    case None
    have "merge_entry e ranges = js_map_set ?k (?label (e\<lparr>de_key := ?k\<rparr>), entry_min e, entry_max e) ranges"
      using None n by (simp add: merge_entry_def Let_def js_min_start)
    then show thesis by (rule that) (use covers_None [OF assms(1) None] n in \<open>auto simp: range_ok_def js_le_refl\<close>)
  next
    case (Some r)
    obtain m lo hi where r: "r = (m, lo, hi)" by (cases r)
    have c: "entry_key m = ?k" "lo \<noteq> NaN" "hi \<noteq> NaN" "\<exists>x\<in>set es. entry_key x = ?k \<and> lo = entry_min x"
      "\<exists>x\<in>set es. entry_key x = ?k \<and> hi = entry_max x"
      "\<forall>x\<in>set es. entry_key x = ?k \<longrightarrow> js_le lo (entry_min x) \<and> js_le (entry_max x) hi"
      using covers_Some [OF assms(1) Some] r by (simp_all add: range_ok_def)
    define m' where "m' = ?label m"
    have "entry_key m' = ?k" using c(1) by (simp add: m'_def)
    moreover have "merge_entry e ranges = js_map_set ?k (m', js_min lo (entry_min e), js_max hi (entry_max e)) ranges"
      using Some r by (simp add: merge_entry_def Let_def m'_def)
    moreover have "\<forall>x\<in>set (es @ [e]). entry_key x = ?k \<longrightarrow>
          js_le (js_min lo (entry_min e)) (entry_min x) \<and> js_le (entry_max x) (js_max hi (entry_max e))"
      using c(6) js_min_cases(2,3) [OF c(2) n(1)] js_max_cases(2,3) [OF c(3) n(2)] js_le_trans by auto
    moreover have "\<exists>x\<in>set (es @ [e]). entry_key x = ?k \<and> js_min lo (entry_min e) = entry_min x"
      "\<exists>x\<in>set (es @ [e]). entry_key x = ?k \<and> js_max hi (entry_max e) = entry_max x"
      using c(4,5) js_min_cases(1) [OF c(2) n(1)] js_max_cases(1) [OF c(3) n(2)] by auto
    ultimately show thesis using js_min_cases(4) [OF c(2) n(1)] js_max_cases(4) [OF c(3) n(2)]
      by (intro that [of "(m', js_min lo (entry_min e), js_max hi (entry_max e))"]) (simp_all only: range_ok_def prod.case, blast)
  qed
qed

lemma range_ok_other: "range_ok es k r \<Longrightarrow> k \<noteq> entry_key e \<Longrightarrow> range_ok (es @ [e]) k r"
  by (auto simp: range_ok_def)

lemma merge_entry_covers:
  assumes "covers_entries es ranges" "number_entry e"
  shows "covers_entries (es @ [e]) (merge_entry e ranges)"
proof -
  obtain r where s: "merge_entry e ranges = js_map_set (entry_key e) r ranges" "range_ok (es @ [e]) (entry_key e) r"
    using assms by (rule merge_entry_step)
  have "case map_of (merge_entry e ranges) k of None \<Rightarrow> \<forall>x\<in>set (es @ [e]). entry_key x \<noteq> k | Some r \<Rightarrow> range_ok (es @ [e]) k r" for k
  proof (cases "k = entry_key e")
    case True
    then show ?thesis using s by (simp add: js_map_get_set)
  next
    case False
    then have m: "map_of (merge_entry e ranges) k = map_of ranges k" using s(1) by (simp add: js_map_get_set)
    show ?thesis
    proof (cases "map_of ranges k")
      case None
      then show ?thesis using covers_None [OF assms(1) None] False unfolding m by auto
    next
      case (Some r')
      then show ?thesis using range_ok_other [OF covers_Some [OF assms(1) Some] False] unfolding m by simp
    qed
  qed
  moreover have "distinct (map fst ranges)" using assms(1) by (simp add: covers_entries_def)
  ultimately show ?thesis using s(1) by (simp add: covers_entries_def distinct_js_map_set)
qed

lemma fold_covers:
  "covers_entries es ranges \<Longrightarrow> list_all number_entry es' \<Longrightarrow> covers_entries (es @ es') (fold merge_entry es' ranges)"
proof (induction es' arbitrary: es ranges)
  case (Cons e es')
  then have "covers_entries (es @ [e]) (merge_entry e ranges)" by (simp add: merge_entry_covers)
  from Cons.IH [OF this] Cons.prems show ?case by simp
qed simp

lemma merge_entries_covers:
  assumes "list_all (list_all number_entry) providers"
  shows "covers_entries (concat providers) (merge_entries providers)"
proof -
  have "covers_entries es ranges \<Longrightarrow> list_all (list_all number_entry) ps \<Longrightarrow>
      covers_entries (es @ concat ps) (fold (fold merge_entry) ps ranges)" for es ranges ps
  proof (induction ps arbitrary: es ranges)
    case (Cons p ps)
    then have "covers_entries (es @ p) (fold merge_entry p ranges)" by (simp add: fold_covers)
    from Cons.IH [OF this] Cons.prems show ?case by simp
  qed simp
  from this [of "[]" "[]" providers] assms show ?thesis by (simp add: merge_entries_def covers_entries_def)
qed

lemma per_call_number: "per_call_entries C model options = Inr es \<Longrightarrow> pm_model_price model \<noteq> Some NaN \<Longrightarrow> list_all number_entry es"
  by (auto simp: per_call_entries_def Let_def bindR_eq_Inr intro!: price_entry_number split: option.splits if_splits)

text \<open>The entries that the providers of a model contribute.\<close>

definition provider_entries ::
  "host \<Rightarrow> currency_host \<Rightarrow> comparison \<Rightarrow> PricingModel \<Rightarrow> DynamicPriceOptions \<Rightarrow> DynamicPriceEntry set" where
  "provider_entries H C cmp model options =
     {e. \<exists>v\<in>set (provider_variants model). \<exists>p. model_summary H C cmp (withPluginPricing model v) options = Inr (Some p) \<and> e \<in> set (sm_entries p)}
     \<union> {e. \<exists>es. per_call_entries C model options = Inr es \<and> e \<in> set es}"

lemma merged_entry_iff:
  assumes "merged_entry C options (m, lo, hi) = Inr e"
  shows "entry_key e = entry_key m \<and> de_value e = lo \<and> de_minValue e = Some lo \<and> de_maxValue e = Some hi"
  using assms by (auto simp: merged_entry_def bindR_eq_Inr entry_key_def)

lemma provider_summary_ranges:
  assumes "getDynamicPricingSummary H C cmp model options = Inr (Some s)" "provider_variants model \<noteq> []"
    "pm_model_price model \<noteq> Some NaN"
  obtains ranges es where "covers_entries es ranges" "set es = provider_entries H C cmp model options"
    "mapR (merged_entry C options) (map snd ranges) = Inr (sm_entries s)"
proof -
  let ?f = "\<lambda>v. model_summary H C cmp (withPluginPricing model v) options"
  obtain rs where rs: "mapR ?f (provider_variants model) = Inr rs"
    and ps: "provider_summary C model options (concat (map (\<lambda>s. case s of Some x \<Rightarrow> [x] | None \<Rightarrow> []) rs)) = Inr s"
    using assms(1,2) by (auto simp: getDynamicPricingSummary_def bindR_eq_Inr)
  define ss where "ss = concat (map (\<lambda>s. case s of Some x \<Rightarrow> [x] | None \<Rightarrow> []) rs)"
  have ss: "x \<in> set ss \<longleftrightarrow> Some x \<in> set rs" for x by (force simp: ss_def split: option.splits)
  have from_variant: "Some x \<in> set rs \<longleftrightarrow> (\<exists>v\<in>set (provider_variants model). ?f v = Inr (Some x))" for x
    using mapR_set [OF rs] .
  obtain pc where pc: "per_call_entries C model options = Inr pc"
    and e: "mapR (merged_entry C options) (map snd (merge_entries (map sm_entries ss @ [pc]))) = Inr (sm_entries s)"
    using ps unfolding ss_def [symmetric] by (auto simp: provider_summary_def Let_def bindR_eq_Inr)
  have "list_all (list_all number_entry) (map sm_entries ss @ [pc])"
    using per_call_number [OF pc assms(3)] model_summary_number ss from_variant by (fastforce simp: list_all_iff)
  then have "covers_entries (concat (map sm_entries ss @ [pc])) (merge_entries (map sm_entries ss @ [pc]))" by (rule merge_entries_covers)
  moreover have "set (concat (map sm_entries ss @ [pc])) = provider_entries H C cmp model options"
    using ss from_variant pc by (auto simp: provider_entries_def) blast+
  ultimately show thesis using that e by blast
qed

lemma provider_ranges_cover:
  assumes "getDynamicPricingSummary H C cmp model options = Inr (Some s)" "provider_variants model \<noteq> []"
    "pm_model_price model \<noteq> Some NaN"
  shows "distinct (map entry_key (sm_entries s))"
    "\<forall>e\<in>provider_entries H C cmp model options. \<exists>m\<in>set (sm_entries s). \<exists>lo hi. entry_key m = entry_key e \<and>
       de_minValue m = Some lo \<and> de_maxValue m = Some hi \<and> js_le lo (entry_min e) \<and> js_le (entry_max e) hi"
    "\<forall>m\<in>set (sm_entries s). (\<exists>e\<in>provider_entries H C cmp model options. entry_key e = entry_key m \<and> de_minValue m = Some (entry_min e)) \<and>
       (\<exists>e\<in>provider_entries H C cmp model options. entry_key e = entry_key m \<and> de_maxValue m = Some (entry_max e))"
proof -
  obtain ranges es where c: "covers_entries es ranges" and es: "set es = provider_entries H C cmp model options"
    and m: "mapR (merged_entry C options) (map snd ranges) = Inr (sm_entries s)"
    using assms by (rule provider_summary_ranges)
  have d: "distinct (map fst ranges)" using c by (simp add: covers_entries_def)
  have ok: "range_ok es k r" if "(k, r) \<in> set ranges" for k r using that d c by (metis covers_Some map_of_is_SomeI)
  have key: "entry_key y = fst x \<and> de_minValue y = Some (fst (snd (snd x))) \<and> de_maxValue y = Some (snd (snd (snd x)))"
    if "x \<in> set ranges" "merged_entry C options (snd x) = Inr y" for x y
    using that ok [of "fst x" "snd x"] merged_entry_iff [of C options "fst (snd x)" "fst (snd (snd x))" "snd (snd (snd x))" y]
    by (auto simp: range_ok_def split: prod.splits)
  have pairs: "list_all2 (\<lambda>x y. merged_entry C options (snd x) = Inr y) ranges (sm_entries s)"
    using m by (simp add: mapR_iff list_all2_map1)
  have "list_all2 (\<lambda>x y. fst x = entry_key y) ranges (sm_entries s)"
    using pairs by (rule list.rel_mono_strong) (use key in simp)
  then have "map fst ranges = map entry_key (sm_entries s)" by (simp add: list.rel_eq [symmetric] list.rel_map)
  then show "distinct (map entry_key (sm_entries s))" using d by simp
  have out: "y \<in> set (sm_entries s) \<longleftrightarrow> (\<exists>x\<in>set ranges. merged_entry C options (snd x) = Inr y)" for y
    using mapR_set [OF m, of y] by simp
  show "\<forall>e\<in>provider_entries H C cmp model options. \<exists>m\<in>set (sm_entries s). \<exists>lo hi. entry_key m = entry_key e \<and>
       de_minValue m = Some lo \<and> de_maxValue m = Some hi \<and> js_le lo (entry_min e) \<and> js_le (entry_max e) hi"
  proof
    fix e assume "e \<in> provider_entries H C cmp model options"
    then have e: "e \<in> set es" using es by simp
    then obtain r where r: "map_of ranges (entry_key e) = Some r" using covers_None [OF c _ e] by fastforce
    have x: "(entry_key e, r) \<in> set ranges" using r by (rule map_of_SomeD)
    obtain y where y: "y \<in> set (sm_entries s)" "merged_entry C options r = Inr y"
      using pairs x by (fastforce simp: list_all2_conv_all_nth in_set_conv_nth)
    show "\<exists>m\<in>set (sm_entries s). \<exists>lo hi. entry_key m = entry_key e \<and>
       de_minValue m = Some lo \<and> de_maxValue m = Some hi \<and> js_le lo (entry_min e) \<and> js_le (entry_max e) hi"
      using key [OF x] y ok [OF x] e by (intro bexI [OF _ y(1)]) (auto simp: range_ok_def split: prod.splits)
  qed
  show "\<forall>m\<in>set (sm_entries s). (\<exists>e\<in>provider_entries H C cmp model options. entry_key e = entry_key m \<and> de_minValue m = Some (entry_min e)) \<and>
       (\<exists>e\<in>provider_entries H C cmp model options. entry_key e = entry_key m \<and> de_maxValue m = Some (entry_max e))"
  proof
    fix y assume "y \<in> set (sm_entries s)"
    then obtain x where x: "x \<in> set ranges" "merged_entry C options (snd x) = Inr y" using out by blast
    show "(\<exists>e\<in>provider_entries H C cmp model options. entry_key e = entry_key y \<and> de_minValue y = Some (entry_min e)) \<and>
       (\<exists>e\<in>provider_entries H C cmp model options. entry_key e = entry_key y \<and> de_maxValue y = Some (entry_max e))"
      using key [OF x] ok [of "fst x" "snd x"] x(1) unfolding es [symmetric] by (fastforce simp: range_ok_def split: prod.splits)
  qed
qed

lemma summary_split:
  assumes "getDynamicPricingSummary H C cmp model options = Inr (Some s)"
  shows "mset (sm_primaryEntries s) + mset (sm_secondaryEntries s) = mset (sm_entries s)"
  using assms model_summary_split provider_summary_split
  by (auto simp: getDynamicPricingSummary_def bindR_eq_Inr split: if_splits)

end
