(* ===== verification/Price_Examples.thy ===== *)
theory Price_Examples
  imports Summary_Props Examples
begin

text \<open>Models with prices, and the facts about them that the root theory uses.\<close>

section \<open>Models with two providers\<close>

definition px_currency :: currency_host where
  "px_currency = \<lparr>ch_currency = None, ch_format = (\<lambda>_ x. Inr (num_to_string x)), ch_pow10 = (\<lambda>d. mk_num False (1 / 10 ^ nat d))\<rparr>"

text \<open>The prices \<open>tier('a', u('seconds') * 2)\<close> and \<open>tier('a', u('seconds') * 3)\<close> of two providers.\<close>

definition px_expr :: "string \<Rightarrow> jsstr" where
  "px_expr price = js ''tier('' @ [34, 97, 34] @ js '', u('' @ [34] @ js ''seconds'' @ [34] @ js '') * '' @ js price @ js '')''"

definition px_variant :: "string \<Rightarrow> string \<Rightarrow> BillingPluginVariant" where
  "px_variant key price =
     \<lparr>bp_plugin_key = js key, bp_billing_expr = px_expr price, bp_billing_mode = None, bp_billing_usage_schema = kx_schema,
      bp_billing_usage_examples = None\<rparr>"

definition px_model :: PricingModel where
  "px_model =
     \<lparr>pm_billing_plugin_variants = Some [px_variant ''one'' ''2'', px_variant ''two'' ''3''], pm_model_name = Some (js ''m''),
      pm_description = None, pm_vendor_name = None, pm_quota_type = Fin False 0, pm_pricing_configured = None,
      pm_model_ratio = Fin False 1, pm_completion_ratio = Fin False 1, pm_model_price = None, pm_cache_ratio = None,
      pm_create_cache_ratio = None, pm_image_ratio = None, pm_audio_ratio = None, pm_audio_completion_ratio = None,
      pm_enable_groups = Some [], pm_tags = None, pm_supported_endpoint_types = None, pm_group_ratio = None,
      pm_billing_mode = None, pm_billing_expr = None, pm_billing_usage_schema = None, pm_billing_unit = None,
      pm_billing_usage_examples = None\<rparr>"

definition px_options :: DynamicPriceOptions where
  "px_options =
     \<lparr>dp_tokenUnit = Unit_M, dp_showCurrencySymbol = None, dp_showRechargePrice = None, dp_priceRate = None,
      dp_usdExchangeRate = None, dp_groupRatioMultiplier = None, dp_usageSchema = None, dp_now = None\<rparr>"

lemma px_summary:
  "case getDynamicPricingSummary ex_host px_currency mx_order px_model px_options of
     Inr (Some s) \<Rightarrow> map (\<lambda>e. (de_minValue e, de_maxValue e)) (sm_entries s) = [(Some (Fin False 2), Some (Fin False 3))]
   | _ \<Rightarrow> False"
  by code_simp

section \<open>A list of models\<close>

definition px_models :: "PricingModel list" where
  "px_models = [px_model\<lparr>pm_model_ratio := Fin False 5\<rparr>, px_model\<lparr>pm_model_ratio := Fin False 2\<rparr>]"

definition px_filters :: ModelFilters where
  "px_filters = \<lparr>mf_search = [], mf_vendor = FILTER_ALL, mf_group = FILTER_ALL, mf_quotaType = QUOTA_TYPE_TOKEN,
     mf_endpointType = js ''all'', mf_tag = FILTER_ALL, mf_sortBy = SORT_PRICE_LOW\<rparr>"

lemma px_prices: "list_all double_price px_models"
  by code_simp

lemma px_selected: "filter (selected ex_host px_filters) px_models = px_models"
proof -
  have "list_all (selected ex_host px_filters) px_models" by code_simp
  then show ?thesis by (auto simp: list_all_iff filter_id_conv)
qed

section \<open>A small amount\<close>

definition px_amount :: jsnum where
  "px_amount = mk_num False (1 / 10 ^ 9)"

lemma px_small:
  "px_amount \<noteq> NaN" "mag_ok (billing_value px_currency px_amount)" "billing_value px_currency px_amount \<noteq> NaN"
  "\<not> js_num_eq (billing_value px_currency px_amount) (Fin False 0)"
  "billing_digits px_currency (price_options None 6) px_amount = 6"
  "ch_pow10 px_currency 6 = Fin False (dround (1 / 1000000))"
  "js_lt (Fin False 0) (ch_pow10 px_currency 6)" "mag_ok (ch_pow10 px_currency 6)"
  by code_simp+

end
