(* ===== verification/Spec2Isabelle.thy ===== *)
theory Spec2Isabelle
  imports Compile_Errors Compile_Recent Parser_Bounds Depth_Gap Rule_Gap Structure Examples Billing_Props Task_Props Task_Display_Props Condition_Props Breakdown_Match Tier_Props Price_Examples
begin

text \<open>
  The billing expressions of the new-api web front end, verified.

  \<^bold>\<open>The program.\<close> The gateway charges for model calls by expressions such as
  \<open>p > 200000 ? tier("long", p * 4 + c * 8) : tier("base", p * 2 + c * 4)\<close>, optionally multiplied by
  request rules \<open>(hour("UTC") < 6 ? 0.5 : 1)\<close>. The front end (\<^verbatim>\<open>src/web/default/src/features/pricing\<close>) has an
  engine of its own for them: it parses, type checks and evaluates expressions for previews, reads price
  tables out of them, edits them visually, and writes them back; on top of it, cards and lists show the prices
  of models. This development models the engine and the prices on top of it, function by function, and proves
  what the pages rely on.

  \<^bold>\<open>Parts and theories.\<close> Sources are under \<^verbatim>\<open>src/web/default/src/features/pricing/lib/\<close>, those written as
  \<^verbatim>\<open>lib/\<close> under \<^verbatim>\<open>src/web/default/src/lib/\<close>; definitions keep the names of the functions they model, and helpers that stand for a loop or a branch of a function have names
  of their own.

  \<^item> \<open>Prelude\<close>: results with errors (\<open>bindR\<close>, folds and maps that stop at an error, \<open>errs\<close> for the errors a
    computation may raise), shared facts on lists. \<open>Memo\<close>: insertion-ordered maps and a locale \<open>memo\<close> for
    caches in front of a function, interpreted for the compile cache and for the cache of time values.
  \<^item> The host language: \<open>JS_String\<close> (strings as lists of code units, \<open>trim\<close>, \<open>slice\<close>, \<open>join\<close>), \<open>JS_Number\<close>
    (IEEE doubles as rationals rounded to 53 bits, with signed zero, infinities and NaN), \<open>JS_Numeral\<close> (number
    texts in both directions, shortest digits), \<open>JS_Value\<close> (dynamic values, UTC calendar), \<open>JS_JSON\<close> and
    \<open>JS_Parse_JSON\<close> (\<open>JSON.stringify\<close> and \<open>JSON.parse\<close>), \<open>JS_Object\<close> (property order, \<open>fromEntries\<close>, stable
    sorting by a comparison function), \<open>JS_Roundtrip\<close> (a number text reads back as the number).
  \<^item> \<^verbatim>\<open>billing-expression/types.ts\<close>: \<open>Expr_Types\<close>: trees, diagnostics, the walk with an explicit stack.
  \<^item> \<^verbatim>\<open>billing-expression/parser.ts\<close>: \<open>Lexer\<close>, \<open>Parser\<close> (mutually recursive functions on the parser's fields
    and the grammar as an inductive relation), \<open>Parser_Props\<close>, \<open>Parser_Bounds\<close>, \<open>Type_Check\<close>, \<open>Compile\<close>,
    \<open>Compile_Errors\<close>, \<open>Compile_Recent\<close>.
  \<^item> \<^verbatim>\<open>billing-expression/runtime.ts\<close>: \<open>Runtime\<close> (the evaluator as a function on the fields of the runtime
    object), \<open>Runtime_Props\<close> (a locale \<open>eval_frame\<close> for what every step
    of an evaluation keeps, interpreted for the rule trace, the pricing unit and the clock), \<open>Runtime_Sound\<close>,
    \<open>Runtime_Types\<close>, \<open>Depth_Gap\<close> (trees that compile and cannot be evaluated).
  \<^item> \<^verbatim>\<open>billing-expression/structure.ts\<close>: \<open>Structure\<close>. \<^verbatim>\<open>billing-expression/display.ts\<close>: \<open>Display\<close>, \<open>Display_Props\<close>.
    \<^verbatim>\<open>billing-expression/visual.ts\<close>: \<open>Visual\<close>, \<open>Visual_Props\<close>.
    \<^verbatim>\<open>billing-expression/task-display.ts\<close>: \<open>Task_Display\<close>, \<open>Task_Display_Props\<close>.
    \<^verbatim>\<open>billing-expression/condition-display.ts\<close>: \<open>Condition_Display\<close>, \<open>Condition_Props\<close>.
  \<^item> \<^verbatim>\<open>billing-expr.ts\<close>: \<open>Request_Rules\<close> (reading rules), \<open>Rule_Editor\<close> (rows, normal forms, writing rules),
    \<open>Billing_Expr\<close> (registry of variables, tables, splitting and combining), with \<open>Rule_Props\<close>,
    \<open>Rule_Roundtrip\<close>, \<open>Rule_Gap\<close> (rules that are written and not read) and \<open>Billing_Props\<close>.
  \<^item> \<^verbatim>\<open>task-expr.ts\<close>: \<open>Task_Expr\<close> (tiers, matrices, previews, texts), \<open>Task_Props\<close>.
    \<^verbatim>\<open>task-matrix-display.ts\<close>: \<open>Task_Matrix_Display\<close>. \<^verbatim>\<open>breakdown-tier-match.ts\<close>: \<open>Breakdown_Match\<close>.
  \<^item> \<^verbatim>\<open>tier-expr.ts\<close>: \<open>Tier_Expr\<close> (tiers, writing, reading, estimator) over \<open>JS_Regex\<close> (backtracking regular
    expressions with groups), \<open>Tier_Props\<close>.
  \<^item> Prices on the pages: \<open>Localized_Text\<close> (\<^verbatim>\<open>lib/localized-text.ts\<close>), \<open>Currency\<close> and \<open>Currency_Props\<close>
    (\<^verbatim>\<open>lib/currency.ts\<close>), \<open>Model_Helpers\<close> (\<^verbatim>\<open>model-helpers.ts\<close>, \<^verbatim>\<open>lib/auto-groups.ts\<close>, \<^verbatim>\<open>plugin-pricing.ts\<close>,
    \<^verbatim>\<open>price.ts\<close>), \<open>Dynamic_Price\<close> (\<^verbatim>\<open>dynamic-price.ts\<close>, \<^verbatim>\<open>billing-mode.ts\<close>), \<open>Marketplace\<close> (\<^verbatim>\<open>filters.ts\<close>,
    \<^verbatim>\<open>task-price-display.ts\<close>), with \<open>Price_Props\<close> (sorting and filtering) and \<open>Summary_Props\<close> (summaries).
  \<^item> \<open>Examples\<close>, \<open>Price_Examples\<close>: concrete expressions, contexts and configurations, evaluated in the kernel.

  \<^bold>\<open>How the code is modelled.\<close> An object with methods is a record of its fields, passed and returned. A
  \<open>throw\<close> is \<open>Inl\<close> of an exception: a billing diagnostic, or an error of the host such as a \<open>TypeError\<close>; the
  \<open>catch\<close> of the two entry points turns both into failures. \<open>null\<close> and \<open>undefined\<close> results are \<open>None\<close>. A
  regular expression is a function that consumes text or, in the tier editor, a term that a matcher runs. Loops are recursive functions with termination
  proofs; no function of the model uses fuel, and none can fail to return. The parser terminates because it
  refuses to read more than 10000 lexemes; the limits of the code (length 65536, parser depth 128, tree
  height 256, 128 cached results, 128 displayed rows, 20000 display steps) are those of the source. Numbers are doubles throughout, so overflow,
  rounding and signed zero are visible.

  \<^bold>\<open>Parameters.\<close> The record \<open>host\<close> holds what the language leaves to its environment: the clock, \<open>toLowerCase\<close>
  and \<open>Intl.DateTimeFormat\<close>; sorting by \<open>localeCompare\<close> takes the comparison as an argument. The record
  \<open>display_host\<close> holds translation and the formatters of dates and numbers, \<open>currency_host\<close> the stored
  configuration of the currency, \<open>Intl.NumberFormat\<close> and \<open>Math.pow(10, -digits)\<close>. The theorem on small prices
  assumes that the power is positive; no other theorem assumes anything about them. The cache of compiled results is modelled with the compiler; callers in
  \<open>billing-expr.ts\<close> and \<open>task-expr.ts\<close> use the result of a compilation directly, which is the same by the
  theorem on the cache.

  \<^bold>\<open>What is shown.\<close> Parsing: the parser computes the grammar relation; trees are well formed
  (their nodes have distinct spans), and their size is bounded by the lexemes read. Walks and types: the type checker equals a recursive reference, and values have the checked types. Compilation:
  the cache never changes an answer, stays within its bound and keeps recent results; what a ready result
  records and which failures there are; fixed prices follow a small grammar. Evaluation: costs are finite
  and not negative, the only errors are diagnostics, the value depends on declared inputs only, integer
  arithmetic is exact or refused. Source texts: splitting and unwrapping lose nothing. Tables: the token
  table is what evaluation does, time tiers partition the clock, task tables are well formed, and the rows
  of a conditional task table partition the times with the price of the expression in each; conditions named for a fallback row and
  ranges of hours shown for a condition are exact. Round trips:
  numbers, quoted texts, visual documents, request rules on the time of day, combining and splitting,
  price matrices, token tiers. Editors: normal forms are stable and valid; task previews are itemized correctly. Pages: the
  ranges shown for a model with several providers are exact, a price other than zero is never shown as zero,
  and the list of models is the stable sort by price of the models that the filters select.

  \<^bold>\<open>Not modelled.\<close> The pages and components (React), network access, translations and styles have no logic of
  their own that these properties concern. \<open>mock-stats.ts\<close> and \<open>seed.ts\<close> generate placeholder
  data for charts. The gateway itself is written in Go.
\<close>

section \<open>Parsing\<close>


text \<open>
  C2: Every tree the parser returns is well formed: variables and operators are known, every call has the
  number of arguments its function takes, number literals are finite and integer literals are safe
  integers. The span of a node lies strictly around the spans of its children, and all lie in the source.
\<close>
theorem parsed_tree_well_formed:
  assumes "parse src = Inr e"
  shows "wf_ast e \<and> spans_ok e \<and> node_end e \<le> length src"
  using assms by (rule parse_wf_ast)

theorem parsed_tree_well_formed_witness: "wf_ast ex_ast \<and> spans_ok ex_ast \<and> node_end ex_ast \<le> length ex_src"
  by (rule parsed_tree_well_formed [OF ex_parse])

section \<open>Walking and typing trees\<close>





section \<open>Compilation\<close>

text \<open>
  C5: Over any sequence of calls, starting from the empty cache, each call returns what compiling its source
  afresh returns. The cache holds at most 128 results and no source twice.
\<close>
theorem compile_cache_transparent:
  "fst (compile_calls srcs []) = map compile_source srcs \<and>
   length (snd (compile_calls srcs [])) \<le> 128 \<and> distinct (map fst (snd (compile_calls srcs [])))"
  using compile_calls_ok [OF cache_ok_empty, of srcs] by (simp add: cache_ok_def)

text \<open>
  C6: A successful compilation returns the tree of the source, which is well formed and has a type; the
  declared variables and functions are exactly those that occur in it; every request rule is a node of
  the tree, with the source text of its condition.
\<close>
theorem compile_ready_facts:
  assumes "compile_source src = Ready c"
  shows "parse src = Inr (compiled_ast c) \<and> wf_ast (compiled_ast c) \<and> (\<exists>t. type_of (compiled_ast c) = Inr t) \<and>
    set (compiled_variables c) = names_in variable_names (compiled_ast c) \<and>
    set (compiled_functions c) = names_in function_names (compiled_ast c) \<and>
    (\<forall>r \<in> set (compiled_rules c). site_node r \<in> set (postorder (compiled_ast c)) \<and>
       site_cond r = slice src (node_start (site_condition r)) (node_end (site_condition r)))"
proof -
  have c: "compile_steps src = Inr c" using assms by (auto simp: compile_source_def split: sum.splits)
  note ok = compile_steps_ok [OF c]
  have "site_node r \<in> set (postorder (compiled_ast c)) \<and>
      site_cond r = slice src (node_start (site_condition r)) (node_end (site_condition r))"
    if "r \<in> set (compiled_rules c)" for r
    using ok(7) that by (fastforce dest: rule_site_shape)
  then show ?thesis using ok(2,4-6) parse_wf_ast [OF ok(2)] by blast
qed

theorem compile_ready_facts_witness: "parse ex_src = Inr (compiled_ast ex_compiled) \<and> wf_ast (compiled_ast ex_compiled)"
proof -
  have "compile_source ex_src = Ready ex_compiled" by (simp add: compile_source_def ex_compile)
  from compile_ready_facts [OF this] show ?thesis by blast
qed

text \<open>
  C7: A compilation that fails carries a diagnostic of the compiler, never an error of the host and never a
  missing context. Its status is \<open>unsupported\<close> for the codes \<open>unsupported\<close> and \<open>limit\<close>, and \<open>invalid\<close> otherwise.
\<close>
theorem compile_failure_status:
  assumes "compile_source src = Failed f"
  shows "\<exists>d. compile_steps src = Inl (BillingExpressionError d) \<and> diag_code d \<noteq> Missing_context \<and>
    f = \<lparr>failure_status = (if diag_code d = Unsupported \<or> diag_code d = Limit then Status_unsupported
           else Status_invalid), failure_diagnostic = d\<rparr>"
  using assms compile_steps_error [of src]
  by (auto simp: compile_source_def errs_def compile_error_def expressionFailure_def Let_def split: sum.splits)

theorem compile_failure_status_witness:
  "\<exists>d. compile_steps (js ''x'') = Inl (BillingExpressionError d) \<and> diag_code d \<noteq> Missing_context"
proof -
  have "case compile_source (js ''x'') of Failed _ \<Rightarrow> True | Ready _ \<Rightarrow> False" by code_simp
  then obtain f where "compile_source (js ''x'') = Failed f" by (auto split: CompilationResult.splits)
  from compile_failure_status [OF this] show ?thesis by blast
qed

text \<open>
  C8: The validation of expressions with fixed prices accepts exactly the trees of the grammar \<open>fixed_tree\<close>:
  choices by conditions free of pricing markers, products with the image count or a request rule, and
  tiers whose price is a non-negative literal amount or free of markers.
\<close>
theorem fixed_pricing_grammar:
  assumes "wf_ast n" "height n \<le> 256" "\<forall>r \<in> set rules. height (site_condition r) \<le> 256"
  shows "validateFixedPricingTree rules n = Inr () \<longleftrightarrow> fixed_tree rules n"
  using assms by (rule validateFixedPricingTree_iff)

theorem fixed_pricing_grammar_witness: "validateFixedPricingTree [] ex_ast = Inr () \<longleftrightarrow> fixed_tree [] ex_ast"
  using fixed_pricing_grammar [of ex_ast "[]"] ex_height parse_wf_ast [OF ex_parse] by simp

section \<open>Evaluation\<close>

text \<open>
  C9: A successful evaluation reports a finite cost that is not negative, and a trace with one entry per
  request rule of the compiled expression, in order, with its text and multiplier.
\<close>
theorem evaluation_result_valid:
  assumes "evaluation_steps H c X = Inr s"
  shows "isFinite (bs_cost s) \<and> \<not> js_lt (bs_cost s) zero_num \<and>
    map (\<lambda>r. (rule_text r, rule_multiplier r)) (bs_requestRules s)
      = map (\<lambda>r. (site_cond r, site_multiplier r)) (compiled_rules c)"
proof -
  from assms obtain st v st' x where e: "runtime_init H (compiled_rules c) X = Inr st"
    "evaluate H (compiled_rules c) X 0 (compiled_ast c) st = Inr (v, st')"
    and s: "rv_value v = JNum x" "isFinite x" "\<not> js_lt x zero_num" "bs_cost s = x" "bs_requestRules s = rt_rules st'"
    by (rule evaluation_steps_success)
  have "trace_grows st st'" by (rule trace.evaluate_keeps [OF _ e(2)]) simp
  then have "map (\<lambda>r. (rule_text r, rule_multiplier r)) (rt_rules st')
      = map (\<lambda>r. (rule_text r, rule_multiplier r)) (rt_rules st)"
    by (auto simp: trace_grows_def list_all2_conv_all_nth intro!: nth_equalityI)
  then show ?thesis using s e(1) by (auto simp: runtime_init_def bindR_eq_Inr)
qed

theorem evaluation_result_valid_witness:
  "\<exists>s. evaluation_steps ex_host ex_compiled ex_context = Inr s \<and> isFinite (bs_cost s) \<and> \<not> js_lt (bs_cost s) zero_num"
proof -
  have "case evaluation_steps ex_host ex_compiled ex_context of Inr _ \<Rightarrow> True | Inl _ \<Rightarrow> False" by code_simp
  then obtain s where "evaluation_steps ex_host ex_compiled ex_context = Inr s" by (auto split: sum.splits)
  then show ?thesis using evaluation_result_valid by blast
qed

text \<open>
  C10: Evaluating the tree of a compiled expression, in any context and any state, either returns a value or
  fails with a billing diagnostic; it never runs into an error of the host such as a missing argument.
\<close>
theorem evaluation_diagnostics_only:
  assumes "compile_source src = Ready c"
  shows "\<not> (\<exists>m. evaluate H rules X d (compiled_ast c) st = Inl (HostError m))"
proof -
  have "compile_steps src = Inr c" using assms by (auto simp: compile_source_def split: sum.splits)
  then have "wf_ast (compiled_ast c)" using compile_steps_ok(2) parse_wf_ast by blast
  then show ?thesis using evaluate_error [of "compiled_ast c" H rules X d st] by (auto simp: errs_def)
qed

theorem evaluation_diagnostics_only_witness:
  "\<not> (\<exists>m. evaluate ex_host [] ex_context 0 (compiled_ast ex_compiled) ex_rt = Inl (HostError m))"
proof -
  have "compile_source ex_src = Ready ex_compiled" by (simp add: compile_source_def ex_compile)
  then show ?thesis by (rule evaluation_diagnostics_only)
qed



text \<open>
  C12: Sums, differences, products, negations and remainders of integer literals evaluate to the exact integer
  of unbounded arithmetic: where a result leaves the safe range the evaluation fails instead of rounding.
\<close>
theorem integer_arithmetic_exact:
  assumes "wf_ast n" "int_value n = Some k" "evaluate H rules X d n st = Inr (v, st')"
  shows "rv_integer v \<and> (\<exists>x. rv_value v = JNum x \<and> num_val x = of_int k)"
  using evaluate_exact [OF assms] by (auto simp: exact_def)

theorem integer_arithmetic_exact_witness:
  "rv_integer \<lparr>rv_value = JNum (Fin False 2), rv_integer = True\<rparr> \<and>
   (\<exists>x. JNum (Fin False 2) = JNum x \<and> num_val x = of_int 2)"
proof -
  let ?n = "Literal (LNum (Fin False 2)) True 0 1"
  have "parse (js ''2'') = Inr ?n" by code_simp
  then have "wf_ast ?n" using parse_wf_ast by blast
  moreover have "int_value ?n = Some 2" by simp
  moreover have "evaluate ex_host [] ex_context 0 ?n ex_rt = Inr (\<lparr>rv_value = JNum (Fin False 2), rv_integer = True\<rparr>, ex_rt)"
    by code_simp
  ultimately show ?thesis using integer_arithmetic_exact by fastforce
qed

section \<open>Source text\<close>




section \<open>Price tables\<close>

text \<open>
  C15: The token table of an expression is what evaluation does: a successful evaluation reports the label,
  and the fixed price where there is one, of the first tier of the table whose conditions hold for the token
  counts of the context. (The audio table states its conditions as texts and is not such a chain.)
\<close>
theorem token_table_matches_evaluation:
  assumes "readTokenTierChain n = Some tiers" "\<forall>t \<in> set tiers. tt_conditionText t = None"
    "evaluate H rules X d n st = Inr (v, st')"
  shows "\<exists>t. find (tier_holds X) tiers = Some t \<and> shows_tier t st'"
  using assms by (rule readTokenTierChain_evaluates)

theorem token_table_matches_evaluation_witness:
  "\<exists>t. find (tier_holds ex_context) dx_tiers = Some t \<and> shows_tier t (ex_rt\<lparr>rt_tier := js ''a''\<rparr>)"
  by (rule token_table_matches_evaluation [OF dx_read _ dx_evaluates]) (simp add: dx_tiers_def plain_tier_def)

text \<open>
  C16: At a given time, where every time condition of the table can be evaluated, the current tiers are not
  empty and are exactly the tiers of one leaf: the tiers by time cover the clock and do not overlap.
\<close>
theorem time_tiers_partition:
  assumes "time_pricing H (Ready c) (Some t) = Inr (Some (tiers, current))"
    "\<forall>tier \<in> set tiers. \<forall>p \<in> set (tm_conditions tier). evaluateBillingCondition H c (fst p) t \<noteq> None"
  shows "current \<noteq> [] \<and> (\<exists>leaf. current = filter (\<lambda>tier. tm_conditions tier = leaf) tiers)"
proof -
  let ?val = "\<lambda>n. evaluateBillingCondition H c n t"
  have "timeTierBranches (compiled_source c) (compiled_ast c) [] = Inr (Some tiers)"
    and cur: "current = filter (\<lambda>tier. current_for ?val (tm_conditions tier)) tiers"
    using assms(1) by (auto simp: time_pricing_def bindR_eq_Inr current_for_def split: option.splits)
  then have "one_leaf ?val [] tiers"
    using timeTierBranches_current [of _ _ "[]" tiers ?val] assms(2) by (simp add: current_for_def)
  then show ?thesis unfolding cur one_leaf_def by auto
qed

theorem time_tiers_partition_witness:
  "\<exists>tiers current. time_pricing ex_host (Ready (ex_compiled\<lparr>compiled_ast := tx_ast\<rparr>)) (Some (Some 1700000000000))
     = Inr (Some (tiers, current)) \<and> current \<noteq> []"
proof -
  let ?c = "ex_compiled\<lparr>compiled_ast := tx_ast\<rparr>" and ?t = "Some 1700000000000 :: int option"
  have "case time_pricing ex_host (Ready ?c) (Some ?t) of Inr (Some (tiers, current)) \<Rightarrow>
     list_all (\<lambda>tier. list_all (\<lambda>p. evaluateBillingCondition ex_host ?c (fst p) ?t \<noteq> None) (tm_conditions tier)) tiers | _ \<Rightarrow> False"
    by code_simp
  then obtain tiers current where t: "time_pricing ex_host (Ready ?c) (Some ?t) = Inr (Some (tiers, current))"
    "\<forall>tier \<in> set tiers. \<forall>p \<in> set (tm_conditions tier). evaluateBillingCondition ex_host ?c (fst p) ?t \<noteq> None"
    by (auto simp: list_all_iff split: sum.splits option.splits)
  from time_tiers_partition [OF t] t(1) show ?thesis by blast
qed

text \<open>
  C17: In a task table every condition compares a declared fact with one of its values, unit prices belong to
  distinct declared number facts that have a unit, the last tier and no other is unconditional, and no tier
  is shadowed by an earlier one.
\<close>
theorem task_table_well_formed:
  assumes "readTaskTierChain n schema includeBoolean = Some tiers"
  shows "task_table_ok schema includeBoolean tiers"
  using assms unfolding readTaskTierChain_def by (rule task_chain_ok) (simp_all add: unshadowed_def)

theorem task_table_well_formed_witness: "task_table_ok kx_schema True kx_tiers"
  by (rule task_table_well_formed [OF kx_read])

section \<open>The visual editor\<close>

text \<open>
  C18: The text of a finite double that is not negative reads back as that double in the number fields of the
  editor, whatever its magnitude and notation (plain, fraction or exponent).
\<close>
theorem number_text_roundtrip:
  assumes "wf_num (Fin False m)"
  shows "parseNonNegativeNumber (num_to_string (Fin False m)) = Some (Fin False m)"
  using number_roundtrip [OF assms] assms by (simp add: parseNonNegativeNumber_def js_le_def zero_num_def)

theorem number_text_roundtrip_witness: "parseNonNegativeNumber (num_to_string (Fin False 2)) = Some (Fin False 2)"
  by (rule number_text_roundtrip) (simp add: mk_num_numeral)

text \<open>
  C19: A label or time zone that the editor writes in JSON quotes is read back by the lexer of expressions as
  the same sequence of code units, including quotes, control characters and lone surrogates.
\<close>
theorem quoted_text_roundtrip:
  assumes "code_units label" "\<not> (\<exists>i a b. node = Literal (LStr label) i a b)"
  shows "\<exists>body. label_text src node label = 34 # body \<and>
    lex_string_body 34 start cursor (body @ rest) [] = Inr (label, cursor + length body)"
proof -
  have "label_text src node label = 34 # (json_body label @ [34])"
    using assms(2) by (auto simp: label_text_def json_string_def split: ExpressionNode.splits literal.splits)
  then show ?thesis using lex_json_body [OF assms(1), of start cursor rest "[]"] by fastforce
qed

theorem quoted_text_roundtrip_witness:
  "\<exists>body. label_text [] ex_ast (js ''a'') = 34 # body \<and>
    lex_string_body 34 0 1 (body @ []) [] = Inr (js ''a'', 1 + length body)"
  by (rule quoted_text_roundtrip) (simp_all add: code_units_def ex_ast_def)

text \<open>
  C20: A document that the visual editor reads from a source, with or without a display source, and that is not
  edited, is serialized as exactly that source, character by character.
\<close>
theorem visual_document_roundtrip:
  assumes "parseVisualBillingDocument H src displaySource = Some doc"
  shows "serializeVisualBillingDocument H doc False = Serialized src"
  using assms by (rule parse_serialize)

theorem visual_document_roundtrip_witness:
  "\<exists>doc. parseVisualBillingDocument ex_host vx_src [] = Some doc \<and>
     serializeVisualBillingDocument ex_host doc False = Serialized vx_src"
proof -
  obtain doc where "parseVisualBillingDocument ex_host vx_src [] = Some doc"
    using vx_parses by (auto split: option.splits)
  then show ?thesis using visual_document_roundtrip by blast
qed

section \<open>Request rules\<close>

text \<open>
  C21: A list of rules with one row on the time of day each, in zones whose names need no escapes, written by
  the editor and read by the parser of rules gives the rules that have a valid row and multiplier, in
  order, each with its row in normal form.
\<close>
theorem rules_roundtrip:
  assumes "list_all time_rule gs"
  shows "tryParseRequestRuleExpr (buildRequestRuleExpr gs)
    = Inr (Some (map stored_rule (filter (\<lambda>g. buildRuleGroupFactor g \<noteq> []) gs)))"
  using assms by (rule time_rules_roundtrip)

theorem rules_roundtrip_witness:
  "tryParseRequestRuleExpr (buildRequestRuleExpr rx_rules) = Inr (Some (map stored_rule [rx_night]))"
proof -
  have "list_all time_rule rx_rules" by code_simp
  moreover have "filter (\<lambda>g. buildRuleGroupFactor g \<noteq> []) rx_rules = [rx_night]" by code_simp
  ultimately show ?thesis using rules_roundtrip by metis
qed



text \<open>
  C23: Where a price without blanks and parentheses around it, with balanced brackets and quotes, is no request
  rule and not the image count, putting it together with written rules on the time of day and splitting
  the result gives the same price and the same rules, character by character.
\<close>
theorem combine_then_split:
  assumes "trim price = price" "price \<noteq> []" "inside price 0 None" "closes_at_end (40 # price @ [41]) 0 None"
      "unwrapExpressionParens price = price"
    and "is_rule_part (40 # price @ [41]) = Inr False" "price \<noteq> js ''image_count''"
    and "list_all time_rule gs" "buildRequestRuleExpr gs \<noteq> []"
  shows "splitBillingExprAndRequestRules (combineBillingExpr price (buildRequestRuleExpr gs))
    = Inr (price, buildRequestRuleExpr gs)"
  using assms by (rule combine_split)

theorem combine_then_split_witness:
  "splitBillingExprAndRequestRules (combineBillingExpr rx_price (buildRequestRuleExpr rx_rules))
    = Inr (rx_price, buildRequestRuleExpr rx_rules)"
  by (rule combine_then_split) code_simp+

section \<open>Task prices\<close>

text \<open>
  C24: The combinations of a schema are exactly the maps that choose a declared value for every enumerated
  field, whatever the order of names is, and no combination is listed twice.
\<close>
theorem task_combinations_complete:
  assumes "distinct (map fst schema)" "distinct_enums schema"
  shows "map_of ` set (getTaskEnumCombinations cmp (Some schema)) = choices (enum_fields schema) \<and>
    distinct (map map_of (getTaskEnumCombinations cmp (Some schema)))"
  using combinations_choices [OF assms(1)] assms(2) by (simp add: distinct_enums_def)

theorem task_combinations_complete_witness:
  "map_of ` set (getTaskEnumCombinations mx_order (Some mx_schema)) = choices (enum_fields mx_schema) \<and>
   length (getTaskEnumCombinations mx_order (Some mx_schema)) = 2"
proof -
  have "length (getTaskEnumCombinations mx_order (Some mx_schema)) = 2" by code_simp
  then show ?thesis using task_combinations_complete mx_schema_ok by blast
qed

text \<open>
  C25: The tiers written for a matrix implement the matrix: for a sample with the facts of a row, the first
  tier whose conditions hold, or the last one, has the prices of that row (up to the sign of zero).
\<close>
theorem matrix_tiers_choose_row:
  assumes "matrix_ok rows" "r \<in> set rows" "falls_into sample r" "distinct (map fst schema)" "number_fields schema \<noteq> {}"
  shows "\<exists>t. matchedTier sample (taskMatrixToTiers cmp rows schema) = Some t \<and> same_num (vt_constant t) (mr_constant r) \<and>
    (\<forall>f \<in> number_fields schema. same_num (price_or_zero (vt_unitPrices t) f) (price_or_zero (mr_unitPrices r) f))"
  using assms by (rule tiers_choose_row)

theorem matrix_tiers_choose_row_witness:
  "\<exists>t. matchedTier mx_sample (taskMatrixToTiers mx_order mx_rows mx_schema) = Some t \<and>
     same_num (price_or_zero (vt_unitPrices t) (js ''seconds'')) (price_or_zero (mr_unitPrices (mx_row (js ''m'') 3)) (js ''seconds''))"
proof -
  have "matrix_ok mx_rows" using canonical_matrix(1) [of mx_schema mx_rows mx_order] mx_schema_ok mx_canonical
    by (simp add: canonical_def)
  moreover have "mx_row (js ''m'') 3 \<in> set mx_rows" "falls_into mx_sample (mx_row (js ''m'') 3)" by code_simp+
  moreover have "js ''seconds'' \<in> number_fields mx_schema" by code_simp
  ultimately show ?thesis using matrix_tiers_choose_row mx_schema_ok by blast
qed

text \<open>
  C26: A matrix with one row per combination and plain prices, written as tiers and read back from them, is
  the same matrix.
\<close>
theorem matrix_tiers_roundtrip:
  assumes "distinct (map fst schema)" "distinct_enums schema" "number_fields schema \<noteq> {}" "canonical cmp schema rows"
  shows "matrix_of_tiers cmp schema (map task_tier (taskMatrixToTiers cmp rows schema)) = Some rows"
  using assms by (rule matrix_roundtrip)

theorem matrix_tiers_roundtrip_witness:
  "matrix_of_tiers mx_order mx_schema (map task_tier (taskMatrixToTiers mx_order mx_rows mx_schema)) = Some mx_rows"
  using matrix_tiers_roundtrip mx_schema_ok mx_canonical by blast

text \<open>
  C27: Every tier of a normalized configuration has a label, finite prices that are not negative for exactly the
  number fields of the schema, and conditions on declared values only; normalizing again changes nothing.
\<close>
theorem task_config_normal:
  assumes "distinct (map fst schema)" "tiers \<noteq> []"
  shows "(\<forall>t \<in> set (normalizeTaskVisualConfig cmp (Some tiers) schema). normal_tier schema t) \<and>
    normalizeTaskVisualConfig cmp (Some (normalizeTaskVisualConfig cmp (Some tiers) schema)) schema
      = normalizeTaskVisualConfig cmp (Some tiers) schema"
proof (intro conjI normalize_config_idem [OF assms(1)])
  show "\<forall>t \<in> set (normalizeTaskVisualConfig cmp (Some tiers) schema). normal_tier schema t"
    using assms(2) normalize_tier_normal [OF assms(1)] by (auto simp: normalizeTaskVisualConfig_def simp del: map_map)
qed

theorem task_config_normal_witness:
  "list_all (normal_tier mx_schema)
     (normalizeTaskVisualConfig mx_order (Some (taskMatrixToTiers mx_order mx_rows mx_schema)) mx_schema)"
proof -
  have "taskMatrixToTiers mx_order mx_rows mx_schema \<noteq> []" by code_simp
  then show ?thesis unfolding list_all_iff using task_config_normal mx_schema_ok by blast
qed

text \<open>
  C28: A preview that succeeds reports the tier that the sample matches, a total that is finite and not
  negative, the constant where it is positive, and one item for each price other than zero, in order,
  with the fact of the sample as its quantity and their product as its amount.
\<close>
theorem task_preview_itemized:
  assumes "evaluateTaskVisualConfig H tiers sample schema = Some r"
  shows "matchedTier sample tiers = Some (pr_tier r) \<and> finite_price (pr_total r) \<and>
    (\<exists>parts. pr_parts r = (if js_lt zero_num (vt_constant (pr_tier r)) then [Part_constant (vt_constant (pr_tier r))] else []) @ parts \<and>
       list_all (usage_ok schema sample) parts \<and>
       map (\<lambda>p. (part_field p, part_unitPrice p)) parts
         = filter (\<lambda>(f, u). \<not> js_num_eq u zero_num) (vt_unitPrices (pr_tier r)))"
  using assms by (rule preview_sound)

theorem task_preview_itemized_witness:
  "\<exists>r. evaluateTaskVisualConfig ex_host (taskMatrixToTiers mx_order mx_rows mx_schema) mx_sample (Some mx_schema) = Some r \<and>
     finite_price (pr_total r)"
proof -
  obtain r where "evaluateTaskVisualConfig ex_host (taskMatrixToTiers mx_order mx_rows mx_schema) mx_sample (Some mx_schema) = Some r"
    using mx_preview by (auto split: option.splits)
  then show ?thesis using task_preview_itemized by blast
qed

section \<open>Progress\<close>

text \<open>
  C29: Every successful run of the parser from any state reads at least one lexeme, ends with at most 10000
  lexemes read since the start, and returns a tree with no more nodes than the run has read lexemes.
\<close>
theorem parsing_bounded:
  assumes "expression src m st = Inr (e, st')"
  shows "p_count st < p_count st' \<and> p_count st' \<le> 10000 \<and> length (postorder e) \<le> p_count st' - p_count st"
  using parse_count(1) parse_limit(1) parse_nodes(1) assms [unfolded expression_iff] by fastforce

theorem parsing_bounded_witness:
  "\<exists>st e st'. parser_init ex_src = Inr st \<and> expression ex_src 0 st = Inr (e, st') \<and>
     length (postorder e) \<le> p_count st' - p_count st"
proof -
  obtain st st' where "parser_init ex_src = Inr st" "expression ex_src 0 st = Inr (ex_ast, st')"
    using ex_parse unfolding parse_iff expression_iff by blast
  then show ?thesis using parsing_bounded by blast
qed

text \<open>
  C30: The result of a source that was not in the cache is found there after up to 127 further calls with any
  sources: the cache evicts the oldest entry only.
\<close>
theorem recent_results_cached:
  assumes "cache_ok cache" "map_of cache src = None" "length others \<le> 127"
  shows "map_of (snd (compile_calls others (snd (compileBillingExpression src cache)))) src = Some (compile_source src)"
  using assms by (rule recent_kept)

theorem recent_results_cached_witness:
  "map_of (snd (compile_calls [js ''p'', js ''c''] (snd (compileBillingExpression (js ''1'') [])))) (js ''1'')
     = Some (compile_source (js ''1''))"
  by (rule recent_results_cached) (simp_all add: cache_ok_empty)

section \<open>Conditional task tables\<close>

text \<open>
  C31: Under every assignment of truth values to the texts of time conditions exactly one of the computed
  branches applies. Without its conditions it is the price of the expression under that assignment, which
  a recursion without branches and without a budget of steps computes.
\<close>
theorem conditional_task_rows:
  assumes "taskPriceBranches C node n = Some (bs, n')"
  shows "\<exists>b. filter (applies_at \<tau>) bs = [b] \<and> price_under \<tau> C node = Some (untimed b)"
  using branches_under [OF assms] unfolding one_branch_def by blast

theorem conditional_task_rows_witness:
  "length cx_branches = 2 \<and>
   (\<exists>b. filter (applies_at (\<lambda>_. True)) cx_branches = [b] \<and> price_under (\<lambda>_. True) cx_facts cx_ast = Some (untimed b)) \<and>
   (\<exists>b. filter (applies_at (\<lambda>_. False)) cx_branches = [b] \<and> price_under (\<lambda>_. False) cx_facts cx_ast = Some (untimed b))"
  using conditional_task_rows [OF cx_branches(1)] cx_branches(2) by blast

text \<open>
  C32: Where the table decides a condition from the facts of a row, evaluating the condition for a task that
  has these facts gives the same truth value, whatever else the request holds and whatever the time is.
\<close>
theorem known_conditions_evaluate:
  assumes "taskDisplayCondition C node n = Some (Known b, n')" "facts_hold C X"
    "evaluate H rules X d node st = Inr (v, st')"
  shows "rv_value v = JBool b"
  using known_condition [OF condition_budget [OF assms(1)] assms(2,3)] .

theorem known_conditions_evaluate_witness:
  "taskDisplayCondition cx_facts cx_condition 100 = Some (Known True, 99) \<and>
   evaluate ex_host [] cx_context 0 cx_condition ex_rt = Inr (plain (JBool True), ex_rt) \<and> rv_value (plain (JBool True)) = JBool True"
  using known_conditions_evaluate [OF cx_known cx_holds cx_evaluates] cx_known cx_evaluates by blast

text \<open>
  C33: Where the table of the marketplace differs from the tiers of the expression, only the conditions of
  the last row were replaced, and a task whose facts have declared values satisfies the conditions shown
  for that row exactly where it satisfies those of no row before it.
\<close>
theorem displayed_fallback_exact:
  assumes "parseTaskTiersFromExpr e (Some schema) True = Inr tiers" "2 \<le> length tiers"
    "getTaskPricingDisplayTiers (Some e) (Some schema) = Inr rows" "rows \<noteq> tiers"
    "list_all (\<lambda>f. \<sigma> f \<in> set (fact_values schema f)) (condition_fields (butlast tiers))"
  shows "butlast rows = butlast tiers \<and> (\<exists>rest. last rows = (last tiers)\<lparr>kt_conditions := rest\<rparr>) \<and>
    (satisfies \<sigma> (last rows) \<longleftrightarrow> \<not> list_ex (satisfies \<sigma>) (butlast rows))"
  using displayed_fallback [OF assms] by blast

theorem displayed_fallback_exact_witness:
  "\<exists>rows. getTaskPricingDisplayTiers (Some gx_src) (Some gx_schema) = Inr rows \<and> rows \<noteq> gx_tiers \<and>
     (satisfies (\<lambda>_. js ''m'') (last rows) \<longleftrightarrow> \<not> list_ex (satisfies (\<lambda>_. js ''m'')) (butlast rows))"
proof -
  have rows: "getTaskPricingDisplayTiers (Some gx_src) (Some gx_schema) = Inr (name_fallback gx_schema gx_tiers)"
    by (simp add: getTaskPricingDisplayTiers_def Let_def gx_read) (simp add: gx_tiers_def)
  have ne: "name_fallback gx_schema gx_tiers \<noteq> gx_tiers" unfolding gx_named by (simp add: gx_tiers_def)
  have "2 \<le> length gx_tiers" by (simp add: gx_tiers_def)
  then show ?thesis using displayed_fallback_exact [OF gx_read _ rows ne gx_facts] rows ne by blast
qed

text \<open>
  C34: For a conjunction of comparisons of one time function in one time zone, the range computed for display
  holds the current value of the function exactly where the evaluator finds the condition true. The numbers
  compared with may lie outside the domain or beyond the exact integers.
\<close>
theorem shown_range_evaluates:
  assumes "mapO timeComparison (flattenBinary (js ''&&'') node) = Some cs" "list_all (\<lambda>c. cp_name c = name \<and> cp_timezone c = zone) cs"
    "clock_at H now st" "evaluate H rules X d node st = Inr (v, st')" "timeInBillingZone H now zone = Inr vals"
    "time_field name vals = Fin False (of_int k)" "time_value name k"
  shows "rv_value v = JBool (in_range (Fin False (of_int k)) (time_bounds cs))"
  using assms by (rule range_evaluates)

theorem shown_range_evaluates_witness:
  "\<exists>v st'. evaluate ex_host [] ex_context 0 hx_ast ex_rt = Inr (v, st') \<and> rv_value v = JBool True \<and>
     rv_value v = JBool (in_range (Fin False (of_int 22)) (time_bounds hx_ranges))"
proof -
  obtain v st' where v: "evaluate ex_host [] ex_context 0 hx_ast ex_rt = Inr (v, st')" "rv_value v = JBool True"
    using hx_evaluates by (auto split: sum.splits)
  obtain vals where t: "timeInBillingZone ex_host (Some 1700000000000) (js ''UTC'') = Inr vals"
    "time_field (js ''hour'') vals = Fin False (of_int 22)"
    using hx_time by (auto split: sum.splits)
  have "list_all (\<lambda>c. cp_name c = js ''hour'' \<and> cp_timezone c = js ''UTC'') hx_ranges" "time_value (js ''hour'') 22" by code_simp+
  then show ?thesis using shown_range_evaluates [OF hx_read _ hx_clock v(1) t] v by blast
qed

section \<open>The tier editor\<close>

text \<open>
  C35: The expression written for a configuration of the tier editor is read back as that configuration, except
  that the last tier of a chain loses its conditions: it is the alternative. The configuration has one tier, or
  all tiers but the last have conditions; labels have no quotes, costs are finite and not negative, conditions
  compare with numbers written without a negative exponent.
\<close>
theorem tier_editor_roundtrip:
  assumes "editor_draft ts"
  shows "tryParseVisualConfig (Some (generateExprFromVisualConfig (Some ts))) = Some (stored_config ts)"
  using assms by (rule draft_roundtrip)

theorem tier_editor_roundtrip_witness:
  "tryParseVisualConfig (Some (generateExprFromVisualConfig (Some lx_config))) = Some (stored_config lx_config)"
  by (rule tier_editor_roundtrip [OF lx_draft])

section \<open>Prices on the marketplace\<close>

text \<open>
  C36: The summary of a model with providers lists every field with its unit once. For every entry of a provider it
  has an entry with the same key whose range covers the prices of the provider, and both ends of a range are
  prices of providers: no price on the card is made up and none is left out. Every entry is shown once, either
  among the primary or among the secondary entries. The fixed price of the model is not \<open>NaN\<close>.
\<close>
theorem provider_prices_covered:
  assumes "getDynamicPricingSummary H C cmp model options = Inr (Some s)" "provider_variants model \<noteq> []"
    "pm_model_price model \<noteq> Some NaN"
  shows "distinct (map entry_key (sm_entries s)) \<and>
    (\<forall>e\<in>provider_entries H C cmp model options. \<exists>m\<in>set (sm_entries s). \<exists>lo hi. entry_key m = entry_key e \<and>
       de_minValue m = Some lo \<and> de_maxValue m = Some hi \<and> js_le lo (entry_min e) \<and> js_le (entry_max e) hi) \<and>
    (\<forall>m\<in>set (sm_entries s).
       (\<exists>e\<in>provider_entries H C cmp model options. entry_key e = entry_key m \<and> de_minValue m = Some (entry_min e)) \<and>
       (\<exists>e\<in>provider_entries H C cmp model options. entry_key e = entry_key m \<and> de_maxValue m = Some (entry_max e))) \<and>
    mset (sm_primaryEntries s) + mset (sm_secondaryEntries s) = mset (sm_entries s)"
  using provider_ranges_cover [OF assms] summary_split [OF assms(1)] by blast

theorem provider_prices_covered_witness:
  "\<exists>s. getDynamicPricingSummary ex_host px_currency mx_order px_model px_options = Inr (Some s) \<and>
     map (\<lambda>e. (de_minValue e, de_maxValue e)) (sm_entries s) = [(Some (Fin False 2), Some (Fin False 3))] \<and>
     distinct (map entry_key (sm_entries s)) \<and>
     mset (sm_primaryEntries s) + mset (sm_secondaryEntries s) = mset (sm_entries s)"
proof -
  obtain s where s: "getDynamicPricingSummary ex_host px_currency mx_order px_model px_options = Inr (Some s)"
    "map (\<lambda>e. (de_minValue e, de_maxValue e)) (sm_entries s) = [(Some (Fin False 2), Some (Fin False 3))]"
    using px_summary by (auto split: sum.splits option.splits)
  have p: "provider_variants px_model \<noteq> []" "pm_model_price px_model \<noteq> Some NaN"
    by (simp_all add: provider_variants_def px_model_def or_default_def)
  note covered = provider_prices_covered [OF s(1) p]
  show ?thesis by (intro exI [of _ s] conjI s) (use covered in \<open>simp_all only:\<close>)
qed

text \<open>
  C37: A price that is not zero in the shown currency is never rounded to nothing. What the pages show is the text of
  the number formatter, alone or after the symbol of the operator's currency, for an amount with the sign of
  the price that is at least the last digit shown; a price that is at least that is handed over unchanged.
  \<open>Math.pow(10, -digits)\<close> is assumed to be positive.
\<close>
theorem small_prices_visible:
  assumes "a \<noteq> NaN" "mag_ok (billing_value C a)" "billing_value C a \<noteq> NaN" "\<not> js_num_eq (billing_value C a) (Fin False 0)"
    "js_lt (Fin False 0) (ch_pow10 C (billing_digits C (price_options showSymbol d) a))"
    "mag_ok (ch_pow10 C (billing_digits C (price_options showSymbol d) a))"
  shows "\<exists>nf y. nf_maximumFractionDigits nf = billing_digits C (price_options showSymbol d) a \<and> nf_compact nf = False \<and>
    (formatBillingCurrencyFromUSD C (Some a) (Some (price_options showSymbol d)) = ch_format C nf y \<or>
     (\<exists>symbol. formatBillingCurrencyFromUSD C (Some a) (Some (price_options showSymbol d)) =
        bindR (ch_format C nf y) (\<lambda>decimal. Inr (symbol @ js '' '' @ decimal)))) \<and>
    js_le (ch_pow10 C (billing_digits C (price_options showSymbol d) a)) (js_abs y) \<and>
    (js_lt (Fin False 0) y \<longleftrightarrow> js_lt (Fin False 0) (billing_value C a)) \<and>
    (js_le (ch_pow10 C (billing_digits C (price_options showSymbol d) a)) (js_abs (billing_value C a)) \<longrightarrow> y = billing_value C a)"
proof -
  have opt: "fo_compact (price_options showSymbol d) = None" "fo_minimumNonZero (price_options showSymbol d) = None"
    by (simp_all add: price_options_def)
  show ?thesis
    using billing_format [OF assms(1) opt(1), of C] small_amount_visible [OF assms(1-4) opt assms(5,6)] by blast
qed

theorem small_prices_visible_witness:
  "\<exists>nf y. nf_maximumFractionDigits nf = 6 \<and>
     js_le (Fin False (dround (1 / 1000000))) (js_abs y) \<and>
     (formatBillingCurrencyFromUSD px_currency (Some px_amount) (Some (price_options None 6)) = ch_format px_currency nf y \<or>
      (\<exists>symbol. formatBillingCurrencyFromUSD px_currency (Some px_amount) (Some (price_options None 6)) =
         bindR (ch_format px_currency nf y) (\<lambda>decimal. Inr (symbol @ js '' '' @ decimal))))"
  using small_prices_visible [of px_amount px_currency None 6] px_small by auto

text \<open>
  C38: Sorted by price, the list of the marketplace has exactly the models that pass all filters, ordered by their
  price, upwards or downwards; models of the same price keep their order. The order is the one of the exact
  prices, although the code sorts by differences that are rounded. Prices are finite doubles.
\<close>
theorem listed_models_sorted:
  assumes "list_all double_price models"
  shows "filterAndSortModels H cmp models (fs\<lparr>mf_sortBy := SORT_PRICE_LOW\<rparr>) =
      sort_key (\<lambda>m. num_val (getModelPrice m)) (filter (selected H fs) models) \<and>
    filterAndSortModels H cmp models (fs\<lparr>mf_sortBy := SORT_PRICE_HIGH\<rparr>) =
      sort_key (\<lambda>m. - num_val (getModelPrice m)) (filter (selected H fs) models)"
  using listed_by_price [OF assms] by (simp add: selected_sort)

theorem listed_models_sorted_witness:
  "filterAndSortModels ex_host mx_order px_models (px_filters\<lparr>mf_sortBy := SORT_PRICE_LOW\<rparr>) =
     sort_key (\<lambda>m. num_val (getModelPrice m)) (filter (selected ex_host px_filters) px_models) \<and>
   filter (selected ex_host px_filters) px_models = px_models"
  using listed_models_sorted [OF px_prices, of ex_host mx_order px_filters] px_selected by blast

section \<open>Gaps\<close>

text \<open>
  C39: A rule with one of the four comparisons on a request parameter, with a path that needs no escapes and
  valid numbers, is written as a non-empty text that the parser of rules does not read: it splits the
  condition at the conjunction that belongs to the row.
\<close>
theorem parameter_comparisons_unread:
  assumes "trim p = p" "p \<noteq> []" "plain_text p" "mode \<in> set compare_modes" "NUMERIC_LITERAL (trim v)" "NUMERIC_LITERAL (trim m)"
  shows "buildRequestRuleExpr [compare_rule p mode v m] \<noteq> [] \<and>
    tryParseRequestRuleExpr (buildRequestRuleExpr [compare_rule p mode v m]) = Inr None"
  using compare_rule_not_read [OF assms] by blast

theorem parameter_comparisons_unread_witness:
  "tryParseRequestRuleExpr (buildRequestRuleExpr [compare_rule (js ''size'') MATCH_GT (js ''5'') (js ''2'')]) = Inr None"
proof (rule conjunct2 [OF parameter_comparisons_unread])
  show "trim (js ''size'') = js ''size''" "js ''size'' \<noteq> []" "plain_text (js ''size'')" "MATCH_GT \<in> set compare_modes"
    "NUMERIC_LITERAL (trim (js ''5''))" "NUMERIC_LITERAL (trim (js ''2''))" by code_simp+
qed


end
